(* ===== verification/Prelude.thy ===== *)
theory Prelude
  imports Main "HOL-Library.Word"
begin

unbundle bit_operations_syntax

text \<open>
  What every component of the development shares: the machine integers of a 64-bit Rust target,
  panics as values, the two overflow modes of a Rust build, the sequencing operators that play
  the part of \<open>;\<close> and \<open>?\<close>, and the list lemmas about slices and in-place copies.
\<close>

section \<open>Types\<close>

type_synonym u8 = "8 word"
type_synonym u16 = "16 word"
type_synonym u32 = "32 word"
type_synonym u64 = "64 word"
type_synonym usize = "64 word"
type_synonym i32 = "32 word"
type_synonym i64 = "64 word"
type_synonym bytes = "u8 list"

text \<open>
  A computation either returns or panics. A Rust \<open>Result<T, E>\<close> is the sum \<open>'e + 'a\<close>, with
  \<open>Inl\<close> for \<open>Err\<close>.
\<close>

datatype 'a rust = Done 'a | Panic

text \<open>
  The two build profiles: with overflow checks an overflowing \<open>+\<close>, \<open>-\<close>, \<open>*\<close> panics, without
  them it wraps.
\<close>

datatype profile = Debug | Release

named_theorems rust_simps \<open>unfolding rules of the sequencing operators and checked arithmetic\<close>

section \<open>Sequencing\<close>

definition bind_rust :: "'a rust \<Rightarrow> ('a \<Rightarrow> 'b rust) \<Rightarrow> 'b rust" where
  "bind_rust m k = (case m of Done x \<Rightarrow> k x | Panic \<Rightarrow> Panic)"

lemma bind_rust_simps [simp, rust_simps]:
  "bind_rust (Done x) k = k x"
  "bind_rust Panic k = Panic"
  by (simp_all add: bind_rust_def)

lemma bind_rust_Done_iff:
  "bind_rust m k = Done y \<longleftrightarrow> (\<exists>x. m = Done x \<and> k x = Done y)"
  by (cases m) auto

lemma bind_rust_Panic_iff:
  "bind_rust m k = Panic \<longleftrightarrow> m = Panic \<or> (\<exists>x. m = Done x \<and> k x = Panic)"
  by (cases m) auto

text \<open>
  Stateful code is a function from a state to a value and a new state, or a panic.
  \<open>seq_st\<close> is statement sequencing, \<open>try_st\<close> is the \<open>?\<close> operator: an \<open>Inl\<close> returns early.
\<close>

type_synonym ('s, 'a) comp = "'s \<Rightarrow> ('a \<times> 's) rust"

definition ret_st :: "'a \<Rightarrow> ('s, 'a) comp" where
  "ret_st x = (\<lambda>s. Done (x, s))"

definition seq_st :: "('s, 'a) comp \<Rightarrow> ('a \<Rightarrow> ('s, 'b) comp) \<Rightarrow> ('s, 'b) comp" where
  "seq_st m k = (\<lambda>s. case m s of Panic \<Rightarrow> Panic | Done (x, s') \<Rightarrow> k x s')"

definition try_st ::
  "('s, 'e + 'a) comp \<Rightarrow> ('a \<Rightarrow> ('s, 'e + 'b) comp) \<Rightarrow> ('s, 'e + 'b) comp" where
  "try_st m k = (\<lambda>s. case m s of Panic \<Rightarrow> Panic
     | Done (Inl e, s') \<Rightarrow> Done (Inl e, s')
     | Done (Inr x, s') \<Rightarrow> k x s')"

definition try_res :: "'e + 'a \<Rightarrow> ('a \<Rightarrow> ('s, 'e + 'b) comp) \<Rightarrow> ('s, 'e + 'b) comp" where
  "try_res r k = (case r of Inl e \<Rightarrow> ret_st (Inl e) | Inr x \<Rightarrow> k x)"

lemma ret_st_apply [simp, rust_simps]: "ret_st x s = Done (x, s)"
  by (simp add: ret_st_def)

lemma seq_st_apply [rust_simps]:
  "m s = Panic \<Longrightarrow> seq_st m k s = Panic"
  "m s = Done (x, s') \<Longrightarrow> seq_st m k s = k x s'"
  by (simp_all add: seq_st_def)

lemma try_st_apply [rust_simps]:
  "m s = Panic \<Longrightarrow> try_st m k s = Panic"
  "m s = Done (Inl e, s') \<Longrightarrow> try_st m k s = Done (Inl e, s')"
  "m s = Done (Inr x, s') \<Longrightarrow> try_st m k s = k x s'"
  by (simp_all add: try_st_def)

lemma try_res_simps [simp, rust_simps]:
  "try_res (Inl e) k = ret_st (Inl e)"
  "try_res (Inr x) k = k x"
  by (simp_all add: try_res_def)

section \<open>Checked arithmetic\<close>

definition mul_u64 :: "profile \<Rightarrow> u64 \<Rightarrow> u64 \<Rightarrow> u64 rust" where
  "mul_u64 p a b =
     (if p = Debug \<and> \<not> unat a * unat b < 2 ^ 64 then Panic else Done (a * b))"

definition add_u64 :: "profile \<Rightarrow> u64 \<Rightarrow> u64 \<Rightarrow> u64 rust" where
  "add_u64 p a b =
     (if p = Debug \<and> \<not> unat a + unat b < 2 ^ 64 then Panic else Done (a + b))"

definition sub_u64 :: "profile \<Rightarrow> u64 \<Rightarrow> u64 \<Rightarrow> u64 rust" where
  "sub_u64 p a b = (if p = Debug \<and> a < b then Panic else Done (a - b))"

definition div_u64 :: "u64 \<Rightarrow> u64 \<Rightarrow> u64 rust" where
  "div_u64 a b = (if b = 0 then Panic else Done (a div b))"

definition div_u32 :: "u32 \<Rightarrow> u32 \<Rightarrow> u32 rust" where
  "div_u32 a b = (if b = 0 then Panic else Done (a div b))"

text \<open>Casts \<open>as u64\<close> / \<open>as usize\<close> of a \<open>u32\<close>, and \<open>as u32\<close> of a \<open>u64\<close> (which truncates).\<close>

definition u64_of_u32 :: "u32 \<Rightarrow> u64" where
  "u64_of_u32 x = ucast x"

definition u32_of_u64 :: "u64 \<Rightarrow> u32" where
  "u32_of_u64 x = ucast x"

text \<open>The length of a slice, a \<open>usize\<close>. No Rust object is larger than \<open>isize::MAX\<close> bytes.\<close>

definition isize_max :: nat where
  "isize_max = 2 ^ 63 - 1"

definition slice_len :: "bytes \<Rightarrow> usize" where
  "slice_len xs = of_nat (length xs)"

text \<open>\<open>vec![0u8; n]\<close> panics with a capacity overflow beyond \<open>isize::MAX\<close> bytes.\<close>

definition vec_zero :: "usize \<Rightarrow> bytes rust" where
  "vec_zero n = (if isize_max < unat n then Panic else Done (replicate (unat n) 0))"

lemma unat_u64_of_u32 [simp]: "unat (u64_of_u32 x) = unat x"
  using unsigned_less [of x, where 'a = nat] by (simp add: u64_of_u32_def unsigned_ucast_eq take_bit_eq_mod)

lemma u64_of_u32_eq_0 [simp]: "u64_of_u32 x = 0 \<longleftrightarrow> x = 0"
  by (metis unat_u64_of_u32 unat_eq_zero)

lemma unat_u32_of_u64: "unat (u32_of_u64 x) = unat x mod 2 ^ 32"
  by (simp add: u32_of_u64_def unsigned_ucast_eq take_bit_eq_mod)

lemma unat_u64_lt: "unat (x :: u64) < 2 ^ 64"
  using unsigned_less [of x, where 'a = nat] by simp

lemma unat_u32_lt: "unat (x :: u32) < 2 ^ 32"
  using unsigned_less [of x, where 'a = nat] by simp

lemma slice_len_Nil [simp]: "slice_len [] = 0"
  by (simp add: slice_len_def)

lemma unat_slice_len: "length xs < 2 ^ 64 \<Longrightarrow> unat (slice_len xs) = length xs"
  by (simp add: slice_len_def unat_of_nat)

lemma isize_max_less: "n \<le> isize_max \<Longrightarrow> n < 2 ^ 64"
  by (simp add: isize_max_def)

lemma unat_slice_len_isize: "length xs \<le> isize_max \<Longrightarrow> unat (slice_len xs) = length xs"
  by (rule unat_slice_len [OF isize_max_less])

lemma mul_u64_ok [rust_simps]:
  "unat a * unat b < 2 ^ 64 \<Longrightarrow> mul_u64 p a b = Done (a * b)"
  by (simp add: mul_u64_def)

lemma add_u64_ok [rust_simps]:
  "unat a + unat b < 2 ^ 64 \<Longrightarrow> add_u64 p a b = Done (a + b)"
  by (simp add: add_u64_def)

lemma sub_u64_ok [rust_simps]:
  "unat b \<le> unat a \<Longrightarrow> sub_u64 p a b = Done (a - b)"
  by (simp add: sub_u64_def word_le_nat_alt word_less_nat_alt not_less)

lemma unat_mul_u64: "unat a * unat b < 2 ^ 64 \<Longrightarrow> unat (a * b :: u64) = unat a * unat b"
  by (simp add: unat_word_ariths)

lemma unat_add_u64: "unat a + unat b < 2 ^ 64 \<Longrightarrow> unat (a + b :: u64) = unat a + unat b"
  by (simp add: unat_word_ariths)

lemma unat_div_word: "unat (a div b :: 'n::len word) = unat a div unat b"
  by (simp add: unat_div)

lemma mul_u64_cases:
  "mul_u64 p a b = (if unat a * unat b < 2 ^ 64 then Done (a * b)
     else (case p of Debug \<Rightarrow> Panic | Release \<Rightarrow> Done (a * b)))"
  by (cases p) (simp_all add: mul_u64_def)

lemma add_u64_cases:
  "add_u64 p a b = (if unat a + unat b < 2 ^ 64 then Done (a + b)
     else (case p of Debug \<Rightarrow> Panic | Release \<Rightarrow> Done (a + b)))"
  by (cases p) (simp_all add: add_u64_def)

section \<open>Slices and in-place copies\<close>

text \<open>\<open>slice i n xs\<close> is \<open>&xs[i..i+n]\<close>, \<open>blit i ys xs\<close> is \<open>xs[i..i+ys.len()].copy_from_slice(ys)\<close>.\<close>

definition slice :: "nat \<Rightarrow> nat \<Rightarrow> 'a list \<Rightarrow> 'a list" where
  "slice i n xs = take n (drop i xs)"

definition blit :: "nat \<Rightarrow> 'a list \<Rightarrow> 'a list \<Rightarrow> 'a list" where
  "blit i ys xs = take i xs @ ys @ drop (i + length ys) xs"

lemma length_slice: "i + n \<le> length xs \<Longrightarrow> length (slice i n xs) = n"
  by (simp add: slice_def)

lemma length_blit: "i + length ys \<le> length xs \<Longrightarrow> length (blit i ys xs) = length xs"
  by (simp add: blit_def)

lemma nth_slice: "i + n \<le> length xs \<Longrightarrow> k < n \<Longrightarrow> slice i n xs ! k = xs ! (i + k)"
  by (simp add: slice_def)

lemma nth_blit:
  "i + length ys \<le> length xs \<Longrightarrow> k < length xs \<Longrightarrow>
   blit i ys xs ! k = (if i \<le> k \<and> k < i + length ys then ys ! (k - i) else xs ! k)"
  by (auto simp: blit_def nth_append min_def)

lemma slice_blit_same:
  "i + length ys \<le> length xs \<Longrightarrow> slice i (length ys) (blit i ys xs) = ys"
  by (simp add: slice_def blit_def)

lemma slice_blit_disjoint:
  assumes "i + length ys \<le> length xs" and "j + n \<le> length xs"
    and "j + n \<le> i \<or> i + length ys \<le> j"
  shows "slice j n (blit i ys xs) = slice j n xs"
  by (rule nth_equalityI) (use assms in \<open>auto simp: length_slice length_blit nth_slice nth_blit\<close>)

lemma slice_append:
  "slice i (m + n) xs = slice i m xs @ slice (i + m) n xs"
  by (simp add: slice_def take_add add.commute)

lemma slice_length_slice [simp]: "slice i (length (slice i n xs)) xs = slice i n xs"
  by (simp add: slice_def min_def)

lemma length_slice_le [simp]: "length (slice i n xs) \<le> n"
  by (simp add: slice_def)

lemma length_slice_le_trans [simp]: "n \<le> m \<Longrightarrow> length (slice i n xs) \<le> m"
  by (rule order_trans [OF length_slice_le])

lemma slice_0 [simp]: "slice i 0 xs = []"
  by (simp add: slice_def)

lemma blit_Nil [simp]: "blit i [] xs = xs"
  by (simp add: blit_def)

lemma blit_append:
  "i \<le> length xs \<Longrightarrow> blit (i + length ys) zs (blit i ys xs) = blit i (ys @ zs) xs"
  by (simp add: blit_def ac_simps)

section \<open>Signed readings\<close>

lemma sint_u64:
  "sint (x :: u64) = (if unat x < 2 ^ 63 then int (unat x) else int (unat x) - 2 ^ 64)"
proof -
  have "sint x = (uint x + 2 ^ 63) mod 2 ^ 64 - 2 ^ 63"
    by (simp add: sint_uint signed_take_bit_eq_take_bit_shift take_bit_eq_mod)
  then have s: "sint x = (int (unat x) + 2 ^ 63) mod 2 ^ 64 - 2 ^ 63" by (simp only: uint_nat)
  define n where "n = unat x"
  have lt: "n < 2 ^ 64" unfolding n_def by (rule unat_u64_lt)
  show ?thesis
  proof (cases "n < 2 ^ 63")
    case True
    then have "(int n + 2 ^ 63) mod 2 ^ 64 = int n + 2 ^ 63"
      by (intro mod_pos_pos_trivial) simp_all
    with s True show ?thesis by (simp add: n_def [symmetric])
  next
    case False
    have "(int n + 2 ^ 63) mod 2 ^ 64 = ((int n + 2 ^ 63 - 2 ^ 64) + 2 ^ 64) mod 2 ^ 64"
      by (simp add: add.commute)
    also have "\<dots> = (int n + 2 ^ 63 - 2 ^ 64) mod 2 ^ 64" by (rule mod_add_self2)
    also have "\<dots> = int n + 2 ^ 63 - 2 ^ 64"
      using False lt by (intro mod_pos_pos_trivial) simp_all
    finally show ?thesis using s False by (simp add: n_def [symmetric])
  qed
qed

lemma unat_of_sint:
  assumes "int (unat (x :: u64)) = sint (m :: u64)"
  shows "x = m"
proof -
  have "uint m < 2 ^ 64" using unsigned_less [of m, where 'a = int] by simp
  then have "sint m < 0" if "\<not> unat m < 2 ^ 63" using that by (simp add: sint_u64)
  moreover have "0 \<le> sint m" unfolding assms [symmetric] by (rule of_nat_0_le_iff)
  ultimately have "unat m < 2 ^ 63" by linarith
  with assms have "int (unat x) = int (unat m)" by (simp only: sint_u64 if_True)
  then have "unat x = unat m" by (rule of_nat_eq_iff [THEN iffD1])
  then show ?thesis by (rule word_unat_eq_iff [THEN iffD2])
qed

end
