(* ===== verification/RustStr.thy ===== *)
theory RustStr
  imports Prelude
begin

text \<open>
  The parts of Rust's standard library for text that the crate uses: UTF-8 validation
  (\<open>String::from_utf8\<close>), lossy conversion (\<open>String::from_utf8_lossy\<close>), \<open>CString::new\<close>,
  \<open>Iterator::position\<close>, \<open>str::strip_prefix\<close> and decimal formatting of a \<open>u64\<close>.
  A Rust \<open>str\<close> is a \<open>string\<close> whose characters are its bytes.
\<close>

section \<open>Strings and bytes\<close>

definition str_of_bytes :: "bytes \<Rightarrow> string" where
  "str_of_bytes = map (\<lambda>b. char_of (unat b))"

definition bytes_of_str :: "string \<Rightarrow> bytes" where
  "bytes_of_str = map (\<lambda>c. of_nat (of_char c))"

lemma unat_u8_lt: "unat (b :: u8) < 256"
  using unsigned_less [of b, where 'a = nat] by simp

lemma byte_char_byte [simp]: "of_nat (of_char (char_of (unat b) :: char)) = (b :: u8)"
  using unat_u8_lt [of b] by simp

lemma of_char_lt: "(of_char c :: nat) < 256"
  by (metis char_of_char of_char_of mod_less_divisor zero_less_numeral)

lemma char_byte_char [simp]: "char_of (unat (of_nat (of_char c) :: u8)) = c"
  using of_char_lt [of c] by (simp add: unat_of_nat)

lemma bytes_str_inverse [simp]: "bytes_of_str (str_of_bytes bs) = bs"
  by (simp add: bytes_of_str_def str_of_bytes_def o_def map_idI unat_u8_lt)

lemma str_bytes_inverse [simp]: "str_of_bytes (bytes_of_str s) = s"
  by (simp add: bytes_of_str_def str_of_bytes_def o_def)

lemma length_str_of_bytes [simp]: "length (str_of_bytes bs) = length bs"
  by (simp add: str_of_bytes_def)

lemma str_of_bytes_append: "str_of_bytes (xs @ ys) = str_of_bytes xs @ str_of_bytes ys"
  by (simp add: str_of_bytes_def)

lemma str_of_bytes_inject [simp]: "str_of_bytes xs = str_of_bytes ys \<longleftrightarrow> xs = ys"
  by (metis bytes_str_inverse)

section \<open>UTF-8\<close>

text \<open>Reading past the end of the input gives 0, which is no continuation byte.\<close>

definition byte_at :: "bytes \<Rightarrow> nat \<Rightarrow> u8" where
  "byte_at bs i = (if i < length bs then bs ! i else 0)"

definition is_cont :: "u8 \<Rightarrow> bool" where
  "is_cont b \<longleftrightarrow> 0x80 \<le> b \<and> b \<le> 0xBF"

definition second_ok :: "u8 \<Rightarrow> u8 \<Rightarrow> bool" where
  "second_ok b c \<longleftrightarrow>
     (if b = 0xE0 then 0xA0 \<le> c \<and> c \<le> 0xBF
      else if b = 0xED then 0x80 \<le> c \<and> c \<le> 0x9F
      else if b = 0xF0 then 0x90 \<le> c \<and> c \<le> 0xBF
      else if b = 0xF4 then 0x80 \<le> c \<and> c \<le> 0x8F
      else is_cont c)"

text \<open>
  \<open>utf8_head bs\<close> classifies the start of \<open>bs\<close>: a well-formed character of \<open>k\<close> bytes is
  \<open>(True, k)\<close>, a maximal ill-formed prefix of \<open>k\<close> bytes is \<open>(False, k)\<close>. The width of a
  character is determined by its first byte.
\<close>

definition utf8_char_width :: "u8 \<Rightarrow> nat" where
  "utf8_char_width b =
     (if b < 0x80 then 1
      else if 0xC2 \<le> b \<and> b \<le> 0xDF then 2
      else if 0xE0 \<le> b \<and> b \<le> 0xEF then 3
      else if 0xF0 \<le> b \<and> b \<le> 0xF4 then 4
      else 0)"

definition utf8_head :: "bytes \<Rightarrow> bool \<times> nat" where
  "utf8_head bs =
    (let b = byte_at bs 0; c1 = byte_at bs 1; c2 = byte_at bs 2; c3 = byte_at bs 3;
         w = utf8_char_width b in
     if w = 1 then (True, 1)
     else if w = 2 then (if \<not> is_cont c1 then (False, 1) else (True, 2))
     else if w = 3 then
       (if \<not> second_ok b c1 then (False, 1)
        else if \<not> is_cont c2 then (False, 2) else (True, 3))
     else if w = 4 then
       (if \<not> second_ok b c1 then (False, 1)
        else if \<not> is_cont c2 then (False, 2)
        else if \<not> is_cont c3 then (False, 3) else (True, 4))
     else (False, 1))"

lemma is_cont_at: "is_cont (byte_at bs i) \<Longrightarrow> i < length bs"
  by (cases "i < length bs") (simp_all add: is_cont_def byte_at_def)

lemma second_ok_cont: "second_ok b c \<Longrightarrow> is_cont c"
  by (auto simp: second_ok_def is_cont_def word_le_nat_alt split: if_splits)

lemma utf8_head_bounds:
  assumes "utf8_head bs = (v, k)" and "bs \<noteq> []"
  shows "1 \<le> k \<and> k \<le> length bs"
proof -
  from assms(2) have "1 \<le> length bs" by (cases bs) auto
  then show ?thesis
    using assms(1) is_cont_at [of bs 1] is_cont_at [of bs 2] is_cont_at [of bs 3]
    by (auto simp: utf8_head_def Let_def dest!: second_ok_cont split: if_splits)
qed

lemma utf8_head_cong:
  assumes "utf8_head xs = (True, k)" and "\<And>i. i < k \<Longrightarrow> byte_at ys i = byte_at xs i"
  shows "utf8_head ys = (True, k)"
  using assms(1) assms(2) [of 0] assms(2) [of 1] assms(2) [of 2] assms(2) [of 3]
  unfolding utf8_head_def Let_def by (simp split: if_splits)

lemma utf8_head_append:
  assumes "utf8_head xs = (True, k)" and "xs \<noteq> []"
  shows "utf8_head (xs @ ys) = (True, k)"
  using utf8_head_bounds [OF assms]
  by (intro utf8_head_cong [OF assms(1)]) (auto simp: byte_at_def nth_append)

function utf8_valid :: "bytes \<Rightarrow> bool" where
  "utf8_valid bs =
     (if bs = [] then True
      else (case utf8_head bs of (v, k) \<Rightarrow> v \<and> utf8_valid (drop k bs)))"
  by pat_completeness auto
termination
  by (relation "measure length") (auto dest: utf8_head_bounds [OF sym])

function utf8_lossy :: "bytes \<Rightarrow> bytes" where
  "utf8_lossy bs =
     (if bs = [] then []
      else (case utf8_head bs of
              (v, k) \<Rightarrow> (if v then take k bs else [0xEF, 0xBF, 0xBD]) @ utf8_lossy (drop k bs)))"
  by pat_completeness auto
termination
  by (relation "measure length") (auto dest: utf8_head_bounds [OF sym])

declare utf8_valid.simps [simp del] utf8_lossy.simps [simp del]

lemma utf8_valid_Nil [simp]: "utf8_valid []"
  by (simp add: utf8_valid.simps)

lemma utf8_lossy_Nil [simp]: "utf8_lossy [] = []"
  by (simp add: utf8_lossy.simps)

lemma utf8_valid_append: "utf8_valid xs \<Longrightarrow> utf8_valid (xs @ ys) = utf8_valid ys"
proof (induction xs rule: utf8_valid.induct)
  case (1 xs)
  show ?case
  proof (cases "xs = []")
    case False
    from "1.prems" False obtain k where k: "utf8_head xs = (True, k)"
      and rest: "utf8_valid (drop k xs)"
      by (auto simp: utf8_valid.simps [of xs])
    have "utf8_head (xs @ ys) = (True, k)" using k False by (rule utf8_head_append)
    moreover have "drop k (xs @ ys) = drop k xs @ ys"
      using utf8_head_bounds [OF k False] by simp
    moreover have "utf8_valid (drop k xs @ ys) = utf8_valid ys"
      using "1.IH" False k rest by simp
    ultimately show ?thesis using False by (simp add: utf8_valid.simps [of "xs @ ys"])
  qed simp
qed

lemma utf8_valid_char:
  assumes "utf8_head xs = (True, k)" and "xs \<noteq> []"
  shows "utf8_valid (take k xs)"
proof -
  note b = utf8_head_bounds [OF assms]
  have "utf8_head (take k xs) = (True, k)"
    using b by (intro utf8_head_cong [OF assms(1)]) (auto simp: byte_at_def)
  then show ?thesis using b by (subst utf8_valid.simps) auto
qed

lemma utf8_valid_replacement: "utf8_valid [0xEF, 0xBF, 0xBD]"
  by (subst utf8_valid.simps)
    (simp add: utf8_head_def utf8_char_width_def byte_at_def second_ok_def is_cont_def Let_def)

lemma utf8_lossy_valid: "utf8_valid (utf8_lossy bs)"
proof (induction bs rule: utf8_lossy.induct)
  case (1 bs)
  show ?case
  proof (cases "bs = []")
    case False
    obtain v k where vk: "utf8_head bs = (v, k)" by fastforce
    have "utf8_valid (if v then take k bs else [0xEF, 0xBF, 0xBD])"
      using utf8_valid_char [of bs k] utf8_valid_replacement vk False by auto
    moreover have "utf8_valid (utf8_lossy (drop k bs))" using "1.IH" False vk by simp
    ultimately show ?thesis
      using False vk by (simp add: utf8_lossy.simps [of bs] utf8_valid_append)
  qed simp
qed

lemma utf8_lossy_id: "utf8_valid bs \<Longrightarrow> utf8_lossy bs = bs"
proof (induction bs rule: utf8_lossy.induct)
  case (1 bs)
  then show ?case
    by (cases "bs = []")
      (auto simp: utf8_valid.simps [of bs] utf8_lossy.simps [of bs] split: prod.splits)
qed

lemma utf8_valid_ascii: "\<forall>b \<in> set bs. b < 0x80 \<Longrightarrow> utf8_valid bs"
proof (induction bs)
  case (Cons b bs)
  then have "utf8_head (b # bs) = (True, 1)" by (simp add: utf8_head_def utf8_char_width_def byte_at_def)
  with Cons show ?case by (simp add: utf8_valid.simps [of "b # bs"])
qed simp

definition from_utf8 :: "bytes \<Rightarrow> string option" where
  "from_utf8 bs = (if utf8_valid bs then Some (str_of_bytes bs) else None)"

definition from_utf8_lossy :: "bytes \<Rightarrow> string" where
  "from_utf8_lossy bs = str_of_bytes (utf8_lossy bs)"

definition is_str :: "string \<Rightarrow> bool" where
  "is_str s \<longleftrightarrow> utf8_valid (bytes_of_str s)"

lemma from_utf8_is_str: "from_utf8 bs = Some s \<Longrightarrow> is_str s \<and> bytes_of_str s = bs"
  by (auto simp: from_utf8_def is_str_def split: if_splits)

lemma from_utf8_lossy_is_str: "is_str (from_utf8_lossy bs)"
  by (simp add: from_utf8_lossy_def is_str_def utf8_lossy_valid)

section \<open>Iterators and C strings\<close>

text \<open>\<open>Iterator::position\<close>.\<close>

fun position :: "('a \<Rightarrow> bool) \<Rightarrow> 'a list \<Rightarrow> nat option" where
  "position p [] = None"
| "position p (x # xs) = (if p x then Some 0 else map_option Suc (position p xs))"

lemma position_None: "position p xs = None \<longleftrightarrow> (\<forall>x \<in> set xs. \<not> p x)"
  by (induction xs) auto

lemma position_Some:
  "position p xs = Some n \<Longrightarrow> n < length xs \<and> p (xs ! n) \<and> (\<forall>x \<in> set (take n xs). \<not> p x)"
  by (induction xs arbitrary: n) (auto split: if_splits)

lemma position_append:
  "position p (xs @ ys) =
     (case position p xs of Some n \<Rightarrow> Some n | None \<Rightarrow> map_option ((+) (length xs)) (position p ys))"
  by (induction xs)
    (auto simp: option.map_comp o_def option.map_ident cong: option.map_cong split: option.splits)

abbreviation NUL :: char where
  "NUL \<equiv> CHR 0x00"

text \<open>\<open>CString::new\<close>: an interior NUL is a \<open>NulError\<close> with its position and the bytes.\<close>

datatype nul_error = NulErr nat string

definition is_nul :: "char \<Rightarrow> bool" where
  "is_nul c \<longleftrightarrow> c = NUL"

definition cstring_new :: "string \<Rightarrow> nul_error + string" where
  "cstring_new s = (case position is_nul s of
     Some n \<Rightarrow> Inl (NulErr n s) | None \<Rightarrow> Inr s)"

lemma position_nul: "position is_nul s = None \<longleftrightarrow> NUL \<notin> set s"
  using position_None [of is_nul s] by (auto simp: is_nul_def)

lemma cstring_new_Inr: "cstring_new s = Inr c \<longleftrightarrow> c = s \<and> NUL \<notin> set s"
  using position_nul [of s]
  by (cases "position is_nul s") (auto simp: cstring_new_def)

lemma cstring_new_ok: "NUL \<notin> set s \<Longrightarrow> cstring_new s = Inr s"
  by (simp add: cstring_new_Inr)

text \<open>\<open>path.strip_prefix('/').unwrap_or(path)\<close>: one leading slash is removed.\<close>

fun strip_slash :: "string \<Rightarrow> string" where
  "strip_slash [] = []"
| "strip_slash (c # cs) = (if c = CHR ''/'' then cs else c # cs)"

lemma set_strip_slash: "NUL \<in> set (strip_slash s) \<longleftrightarrow> NUL \<in> set s"
  by (cases s) auto

section \<open>Decimal formatting\<close>

definition digit :: "nat \<Rightarrow> char" where
  "digit d = char_of (48 + d)"

function decimal :: "nat \<Rightarrow> string" where
  "decimal n = (if n < 10 then [digit n] else decimal (n div 10) @ [digit (n mod 10)])"
  by pat_completeness auto
termination
  by (relation "measure id") auto

declare decimal.simps [simp del]

definition digit_value :: "char \<Rightarrow> nat" where
  "digit_value c = of_char c - 48"

fun decimal_value :: "nat \<Rightarrow> string \<Rightarrow> nat" where
  "decimal_value acc [] = acc"
| "decimal_value acc (c # cs) = decimal_value (10 * acc + digit_value c) cs"

lemma digit_value_digit: "d < 10 \<Longrightarrow> digit_value (digit d) = d"
  by (simp add: digit_value_def digit_def)

lemma decimal_value_append:
  "decimal_value acc (xs @ ys) = decimal_value (decimal_value acc xs) ys"
  by (induction xs arbitrary: acc) auto

lemma decimal_inverse: "decimal_value 0 (decimal n) = n"
proof (induction n rule: decimal.induct)
  case (1 n)
  show ?case
    by (cases "n < 10")
      (simp_all add: decimal.simps [of n] decimal_value_append digit_value_digit 1)
qed

lemma decimal_inject [simp]: "decimal m = decimal n \<longleftrightarrow> m = n"
  by (metis decimal_inverse)

lemma digit_code: "d < 10 \<Longrightarrow> of_char (digit d) = 48 + d"
  by (simp add: digit_def)

lemma decimal_digits: "c \<in> set (decimal n) \<Longrightarrow> 48 \<le> (of_char c :: nat) \<and> of_char c < (58 :: nat)"
proof (induction n rule: decimal.induct)
  case (1 n)
  show ?case
  proof (cases "n < 10")
    case True
    with "1.prems" show ?thesis by (simp add: decimal.simps [of n] digit_code)
  next
    case False
    with "1.prems" consider "c \<in> set (decimal (n div 10))" | "c = digit (n mod 10)"
      by (auto simp: decimal.simps [of n])
    then show ?thesis
      by cases (use "1.IH" False in \<open>simp_all add: digit_code\<close>)
  qed
qed

lemma decimal_no_slash: "CHR ''/'' \<notin> set (decimal n)"
  using decimal_digits [of "CHR ''/''" n] by auto

lemma decimal_no_NUL: "NUL \<notin> set (decimal n)"
  using decimal_digits [of NUL n] by auto

lemma decimal_ascii: "c \<in> set (decimal n) \<Longrightarrow> (of_char c :: nat) < 128"
  using decimal_digits [of c n] by simp

end
