(* ===== verification/Errors.thy ===== *)
theory Errors
  imports RustStr
begin

text \<open>
  \<open>ext4-lwext4/src/error.rs\<close>: the crate's error type, the conversion of lwext4's return codes
  into it, and the two checkers every call into lwext4 goes through. The part of
  \<open>std::io::Error\<close> the crate uses is an error of the operating system, one made from a kind and
  a message, or one that wraps an error of the crate (the \<open>std::io\<close> adapters of \<open>file.rs\<close>).
  The values of the libc constants are those of Linux.
\<close>

section \<open>Data\<close>

datatype error_kind = UnexpectedEof | WriteZero | InvalidInput | Other

datatype error =
    Io io_error
  | NotFound string
  | AlreadyExists string
  | NotADirectory string
  | IsADirectory string
  | NotEmpty string
  | PermissionDenied
  | NoSpace
  | ReadOnly
  | InvalidArgument string
  | NulError nul_error
  | Filesystem i32
  | DeviceNotFound
  | MountPointNotFound
  | NameTooLong
  | TooManyOpenFiles
  | InvalidFilesystem
and io_error =
    Os i32
  | Simple error_kind string
  | Wrapped error_kind error

text \<open>
  The messages of \<open>Display\<close>. Those of \<open>std::io::Error\<close> come from the operating system.
\<close>

definition show_i32 :: "i32 \<Rightarrow> string" where
  "show_i32 n = (if sint n < 0 then ''-'' @ decimal (nat (- sint n)) else decimal (nat (sint n)))"

fun error_message :: "(io_error \<Rightarrow> string) \<Rightarrow> error \<Rightarrow> string" where
  "error_message show_io (Io io) = ''I/O error: '' @ show_io io"
| "error_message show_io (NotFound path) = ''not found: '' @ path"
| "error_message show_io (AlreadyExists path) = ''already exists: '' @ path"
| "error_message show_io (NotADirectory path) = ''not a directory: '' @ path"
| "error_message show_io (IsADirectory path) = ''is a directory: '' @ path"
| "error_message show_io (NotEmpty path) = ''directory not empty: '' @ path"
| "error_message show_io PermissionDenied = ''permission denied''"
| "error_message show_io NoSpace = ''no space left on device''"
| "error_message show_io ReadOnly = ''read-only filesystem''"
| "error_message show_io (InvalidArgument m) = ''invalid argument: '' @ m"
| "error_message show_io (NulError e) = ''path contains null byte''"
| "error_message show_io (Filesystem n) = ''filesystem error: '' @ show_i32 n"
| "error_message show_io DeviceNotFound = ''device not found''"
| "error_message show_io MountPointNotFound = ''mount point not found''"
| "error_message show_io NameTooLong = ''name too long''"
| "error_message show_io TooManyOpenFiles = ''too many open files''"
| "error_message show_io InvalidFilesystem = ''invalid filesystem''"

text \<open>\<open>io::Error::raw_os_error\<close>.\<close>

fun raw_os_error :: "io_error \<Rightarrow> i32 option" where
  "raw_os_error (Os e) = Some e"
| "raw_os_error (Simple k m) = None"
| "raw_os_error (Wrapped k e) = None"

definition EPERM :: i32 where "EPERM = 1"
definition ENOENT :: i32 where "ENOENT = 2"
definition EINTR :: i32 where "EINTR = 4"
definition EIO :: i32 where "EIO = 5"
definition ENXIO :: i32 where "ENXIO = 6"
definition EBADF :: i32 where "EBADF = 9"
definition EACCES :: i32 where "EACCES = 13"
definition EEXIST :: i32 where "EEXIST = 17"
definition ENODEV :: i32 where "ENODEV = 19"
definition ENOTDIR :: i32 where "ENOTDIR = 20"
definition EISDIR :: i32 where "EISDIR = 21"
definition EINVAL :: i32 where "EINVAL = 22"
definition ENFILE :: i32 where "ENFILE = 23"
definition EMFILE :: i32 where "EMFILE = 24"
definition ENOSPC :: i32 where "ENOSPC = 28"
definition EROFS :: i32 where "EROFS = 30"
definition ENAMETOOLONG :: i32 where "ENAMETOOLONG = 36"
definition ENOTEMPTY :: i32 where "ENOTEMPTY = 39"

lemmas errno_defs = EPERM_def ENOENT_def EINTR_def EIO_def ENXIO_def EBADF_def EACCES_def
  EEXIST_def ENODEV_def ENOTDIR_def EISDIR_def EINVAL_def ENFILE_def EMFILE_def ENOSPC_def
  EROFS_def ENAMETOOLONG_def ENOTEMPTY_def

section \<open>Conversion of return codes\<close>

text \<open>\<open>impl From<i32> for Error\<close>; converting the success code panics.\<close>

definition error_from :: "i32 \<Rightarrow> error rust" where
  "error_from errno =
     (if errno = 0 then Panic
      else if errno = ENOENT then Done (NotFound [])
      else if errno = EEXIST then Done (AlreadyExists [])
      else if errno = ENOTDIR then Done (NotADirectory [])
      else if errno = EISDIR then Done (IsADirectory [])
      else if errno = ENOTEMPTY then Done (NotEmpty [])
      else if errno = EACCES \<or> errno = EPERM then Done PermissionDenied
      else if errno = ENOSPC then Done NoSpace
      else if errno = EROFS then Done ReadOnly
      else if errno = EINVAL then Done (InvalidArgument [])
      else if errno = ENXIO \<or> errno = ENODEV then Done DeviceNotFound
      else if errno = ENAMETOOLONG then Done NameTooLong
      else if errno = EMFILE \<or> errno = ENFILE then Done TooManyOpenFiles
      else Done (Filesystem errno))"

definition check_errno :: "i32 \<Rightarrow> (error + unit) rust" where
  "check_errno errno =
     (if errno = 0 then Done (Inr ()) else bind_rust (error_from errno) (\<lambda>e. Done (Inl e)))"

definition check_errno_with_path :: "i32 \<Rightarrow> string \<Rightarrow> (error + unit) rust" where
  "check_errno_with_path errno path =
     (if errno = 0 then Done (Inr ())
      else bind_rust
        (if errno = ENOENT then Done (NotFound path)
         else if errno = EEXIST then Done (AlreadyExists path)
         else if errno = ENOTDIR then Done (NotADirectory path)
         else if errno = EISDIR then Done (IsADirectory path)
         else if errno = ENOTEMPTY then Done (NotEmpty path)
         else error_from errno)
        (\<lambda>e. Done (Inl e)))"

section \<open>Facts\<close>

lemma error_from_total: "errno \<noteq> 0 \<Longrightarrow> \<exists>e. error_from errno = Done e"
  by (simp add: error_from_def)

text \<open>
  The error of a nonzero code, without the panic: what \<open>check_errno\<close> and
  \<open>check_errno_with_path\<close> deliver.
\<close>

fun the_done :: "'a rust \<Rightarrow> 'a" where
  "the_done (Done x) = x"
| "the_done Panic = undefined"

definition err_of :: "i32 \<Rightarrow> error" where
  "err_of errno = the_done (error_from errno)"

fun set_path :: "string \<Rightarrow> error \<Rightarrow> error" where
  "set_path p (NotFound q) = NotFound p"
| "set_path p (AlreadyExists q) = AlreadyExists p"
| "set_path p (NotADirectory q) = NotADirectory p"
| "set_path p (IsADirectory q) = IsADirectory p"
| "set_path p (NotEmpty q) = NotEmpty p"
| "set_path p e = e"

lemma check_errno_eq [rust_simps]:
  "check_errno errno = Done (if errno = 0 then Inr () else Inl (err_of errno))"
  using error_from_total [of errno] by (auto simp: check_errno_def err_of_def)

lemma check_errno_with_path_eq [rust_simps]:
  "check_errno_with_path errno path =
     Done (if errno = 0 then Inr () else Inl (set_path path (err_of errno)))"
  by (simp add: check_errno_with_path_def err_of_def error_from_def)

lemma err_of_simps [simp]:
  "err_of ENOENT = NotFound []" "err_of EEXIST = AlreadyExists []"
  "err_of ENOTDIR = NotADirectory []" "err_of EISDIR = IsADirectory []"
  "err_of ENOTEMPTY = NotEmpty []" "err_of EACCES = PermissionDenied"
  "err_of EPERM = PermissionDenied" "err_of ENOSPC = NoSpace" "err_of EROFS = ReadOnly"
  "err_of EINVAL = InvalidArgument []" "err_of ENXIO = DeviceNotFound"
  "err_of ENODEV = DeviceNotFound" "err_of ENAMETOOLONG = NameTooLong"
  "err_of EMFILE = TooManyOpenFiles" "err_of ENFILE = TooManyOpenFiles"
  by (simp_all add: err_of_def error_from_def errno_defs)

text \<open>The code an error stands for: \<open>error_from\<close> is its left inverse up to the path.\<close>

fun errnos_of :: "error \<Rightarrow> i32 set" where
  "errnos_of (NotFound p) = {ENOENT}"
| "errnos_of (AlreadyExists p) = {EEXIST}"
| "errnos_of (NotADirectory p) = {ENOTDIR}"
| "errnos_of (IsADirectory p) = {EISDIR}"
| "errnos_of (NotEmpty p) = {ENOTEMPTY}"
| "errnos_of PermissionDenied = {EACCES, EPERM}"
| "errnos_of NoSpace = {ENOSPC}"
| "errnos_of ReadOnly = {EROFS}"
| "errnos_of (InvalidArgument m) = {EINVAL}"
| "errnos_of DeviceNotFound = {ENXIO, ENODEV}"
| "errnos_of NameTooLong = {ENAMETOOLONG}"
| "errnos_of TooManyOpenFiles = {EMFILE, ENFILE}"
| "errnos_of (Filesystem e) = {e}"
| "errnos_of _ = {}"

lemma errnos_of_set_path [simp]: "errnos_of (set_path p e) = errnos_of e"
  by (cases e) simp_all

lemma err_of_errnos: "errno \<noteq> 0 \<Longrightarrow> errno \<in> errnos_of (err_of errno)"
  by (simp add: err_of_def error_from_def)

section \<open>Properties\<close>

text \<open>
  C35: neither checker ever panics (the panic of the conversion on code 0 is unreachable through
  them): each returns \<open>Ok\<close> exactly for code 0, and otherwise an error that still determines the
  code lwext4 returned up to the merges EACCES/EPERM, ENXIO/ENODEV and EMFILE/ENFILE.
\<close>

theorem checkers_decode:
  "\<exists>r s. check_errno errno = Done r \<and> check_errno_with_path errno path = Done s \<and>
     (case r of Inr _ \<Rightarrow> errno = 0 | Inl e \<Rightarrow> errno \<noteq> 0 \<and> errno \<in> errnos_of e) \<and>
     (case s of Inr _ \<Rightarrow> errno = 0 | Inl e \<Rightarrow> errno \<noteq> 0 \<and> errno \<in> errnos_of e)"
  by (simp add: check_errno_eq check_errno_with_path_eq err_of_errnos)

end
