(* ===== verification/FsTypes.thy ===== *)
theory FsTypes
  imports Errors
begin

text \<open>
  \<open>ext4-lwext4/src/types.rs\<close> with the constants of \<open>ext4-lwext4-sys/src/lib.rs\<close> it uses: the
  file-system and file types, the open flags and their encoding for lwext4, seek positions,
  metadata and the size arithmetic of the file-system statistics.
\<close>

section \<open>Constants of lwext4\<close>

definition O_RDONLY :: i32 where "O_RDONLY = 0"
definition O_WRONLY :: i32 where "O_WRONLY = 1"
definition O_RDWR :: i32 where "O_RDWR = 2"
definition O_CREAT :: i32 where "O_CREAT = 0x40"
definition O_EXCL :: i32 where "O_EXCL = 0x80"
definition O_TRUNC :: i32 where "O_TRUNC = 0x200"
definition O_APPEND :: i32 where "O_APPEND = 0x400"

lemmas oflag_defs = O_RDONLY_def O_WRONLY_def O_RDWR_def O_CREAT_def O_EXCL_def O_TRUNC_def
  O_APPEND_def

definition SEEK_SET :: u32 where "SEEK_SET = 0"
definition SEEK_CUR :: u32 where "SEEK_CUR = 1"
definition SEEK_END :: u32 where "SEEK_END = 2"

lemmas seek_defs = SEEK_SET_def SEEK_CUR_def SEEK_END_def

definition EXT4_DE_UNKNOWN :: u8 where "EXT4_DE_UNKNOWN = 0"
definition EXT4_DE_REG_FILE :: u8 where "EXT4_DE_REG_FILE = 1"
definition EXT4_DE_DIR :: u8 where "EXT4_DE_DIR = 2"
definition EXT4_DE_CHRDEV :: u8 where "EXT4_DE_CHRDEV = 3"
definition EXT4_DE_BLKDEV :: u8 where "EXT4_DE_BLKDEV = 4"
definition EXT4_DE_FIFO :: u8 where "EXT4_DE_FIFO = 5"
definition EXT4_DE_SOCK :: u8 where "EXT4_DE_SOCK = 6"
definition EXT4_DE_SYMLINK :: u8 where "EXT4_DE_SYMLINK = 7"

lemmas de_defs = EXT4_DE_UNKNOWN_def EXT4_DE_REG_FILE_def EXT4_DE_DIR_def EXT4_DE_CHRDEV_def
  EXT4_DE_BLKDEV_def EXT4_DE_FIFO_def EXT4_DE_SOCK_def EXT4_DE_SYMLINK_def

definition F_SET_EXT2 :: i32 where "F_SET_EXT2 = 2"
definition F_SET_EXT3 :: i32 where "F_SET_EXT3 = 3"
definition F_SET_EXT4 :: i32 where "F_SET_EXT4 = 4"

section \<open>File-system and file types\<close>

datatype FsType = Ext2 | Ext3 | Ext4

fun FsType_to_raw :: "FsType \<Rightarrow> i32" where
  "FsType_to_raw Ext2 = F_SET_EXT2"
| "FsType_to_raw Ext3 = F_SET_EXT3"
| "FsType_to_raw Ext4 = F_SET_EXT4"

datatype FileType = RegularFile | Directory | Symlink | BlockDevice | CharDevice | Fifo
  | Socket | Unknown

definition FileType_from_raw :: "u8 \<Rightarrow> FileType" where
  "FileType_from_raw raw =
     (if raw = EXT4_DE_REG_FILE then RegularFile
      else if raw = EXT4_DE_DIR then Directory
      else if raw = EXT4_DE_SYMLINK then Symlink
      else if raw = EXT4_DE_BLKDEV then BlockDevice
      else if raw = EXT4_DE_CHRDEV then CharDevice
      else if raw = EXT4_DE_FIFO then Fifo
      else if raw = EXT4_DE_SOCK then Socket
      else Unknown)"

fun FileType_to_raw :: "FileType \<Rightarrow> u8" where
  "FileType_to_raw RegularFile = EXT4_DE_REG_FILE"
| "FileType_to_raw Directory = EXT4_DE_DIR"
| "FileType_to_raw Symlink = EXT4_DE_SYMLINK"
| "FileType_to_raw BlockDevice = EXT4_DE_BLKDEV"
| "FileType_to_raw CharDevice = EXT4_DE_CHRDEV"
| "FileType_to_raw Fifo = EXT4_DE_FIFO"
| "FileType_to_raw Socket = EXT4_DE_SOCK"
| "FileType_to_raw Unknown = EXT4_DE_UNKNOWN"

fun FileType_is_file :: "FileType \<Rightarrow> bool" where
  "FileType_is_file RegularFile = True"
| "FileType_is_file _ = False"

fun FileType_is_dir :: "FileType \<Rightarrow> bool" where
  "FileType_is_dir Directory = True"
| "FileType_is_dir _ = False"

fun FileType_is_symlink :: "FileType \<Rightarrow> bool" where
  "FileType_is_symlink Symlink = True"
| "FileType_is_symlink _ = False"

section \<open>Open flags\<close>

text \<open>The \<open>bitflags!\<close> struct: its bits, and \<open>contains\<close> as the crate documents it.\<close>

record OpenFlags = bits :: u32

definition READ :: OpenFlags where "READ = \<lparr>bits = 1\<rparr>"
definition WRITE :: OpenFlags where "WRITE = \<lparr>bits = 2\<rparr>"
definition CREATE :: OpenFlags where "CREATE = \<lparr>bits = 4\<rparr>"
definition TRUNCATE :: OpenFlags where "TRUNCATE = \<lparr>bits = 8\<rparr>"
definition APPEND :: OpenFlags where "APPEND = \<lparr>bits = 16\<rparr>"
definition EXCLUSIVE :: OpenFlags where "EXCLUSIVE = \<lparr>bits = 32\<rparr>"

lemmas OpenFlags_defs = READ_def WRITE_def CREATE_def TRUNCATE_def APPEND_def EXCLUSIVE_def

definition contains :: "OpenFlags \<Rightarrow> OpenFlags \<Rightarrow> bool" where
  "contains f g \<longleftrightarrow> bits f AND bits g = bits g"

definition union_flags :: "OpenFlags \<Rightarrow> OpenFlags \<Rightarrow> OpenFlags" where
  "union_flags f g = \<lparr>bits = bits f OR bits g\<rparr>"

definition OpenFlags_to_raw :: "OpenFlags \<Rightarrow> i32" where
  "OpenFlags_to_raw self =
    (let flags = 0;
         flags = (if contains self READ \<and> contains self WRITE then flags OR O_RDWR
                  else if contains self WRITE then flags OR O_WRONLY
                  else flags OR O_RDONLY);
         flags = (if contains self CREATE then flags OR O_CREAT else flags);
         flags = (if contains self TRUNCATE then flags OR O_TRUNC else flags);
         flags = (if contains self APPEND then flags OR O_APPEND else flags);
         flags = (if contains self EXCLUSIVE then flags OR O_EXCL else flags)
     in flags)"

section \<open>Seek positions\<close>

datatype SeekFrom = Start u64 | End i64 | Current i64

fun SeekFrom_to_raw :: "SeekFrom \<Rightarrow> i64 \<times> u32" where
  "SeekFrom_to_raw (Start pos) = (pos, SEEK_SET)"
| "SeekFrom_to_raw (End pos) = (pos, SEEK_END)"
| "SeekFrom_to_raw (Current pos) = (pos, SEEK_CUR)"

section \<open>Metadata and statistics\<close>

record Metadata =
  file_type :: FileType
  size' :: u64
  blocks :: u64
  mode :: u32
  uid :: u32
  gid :: u32
  atime :: u64
  mtime :: u64
  ctime :: u64
  nlink :: u32

definition Metadata_is_file :: "Metadata \<Rightarrow> bool" where
  "Metadata_is_file m = FileType_is_file (file_type m)"

definition Metadata_is_dir :: "Metadata \<Rightarrow> bool" where
  "Metadata_is_dir m = FileType_is_dir (file_type m)"

definition Metadata_is_symlink :: "Metadata \<Rightarrow> bool" where
  "Metadata_is_symlink m = FileType_is_symlink (file_type m)"

definition Metadata_len :: "Metadata \<Rightarrow> u64" where
  "Metadata_len m = size' m"

definition Metadata_is_empty :: "Metadata \<Rightarrow> bool" where
  "Metadata_is_empty m \<longleftrightarrow> size' m = 0"

record FsStats =
  block_size :: u32
  total_blocks :: u64
  free_blocks :: u64
  total_inodes :: u64
  free_inodes :: u64
  block_group_count :: u32
  blocks_per_group :: u32
  inodes_per_group :: u32
  volume_name :: string

definition FsStats_total_size :: "profile \<Rightarrow> FsStats \<Rightarrow> u64 rust" where
  "FsStats_total_size p s = mul_u64 p (total_blocks s) (u64_of_u32 (block_size s))"

definition FsStats_free_size :: "profile \<Rightarrow> FsStats \<Rightarrow> u64 rust" where
  "FsStats_free_size p s = mul_u64 p (free_blocks s) (u64_of_u32 (block_size s))"

definition FsStats_used_size :: "profile \<Rightarrow> FsStats \<Rightarrow> u64 rust" where
  "FsStats_used_size p s =
     bind_rust (sub_u64 p (total_blocks s) (free_blocks s))
       (\<lambda>n. mul_u64 p n (u64_of_u32 (block_size s)))"

section \<open>Facts\<close>

text \<open>
  An encoding of an enumeration in raw codes: decoding is a left inverse and every code decodes
  to something, so the encoding is injective and decoding is onto. The interface the directory
  and existence checks rely on.
\<close>

locale raw_enum =
  fixes to_raw :: "'a \<Rightarrow> 'n::len word" and from_raw :: "'n word \<Rightarrow> 'a" and default :: 'a
  assumes from_to: "from_raw (to_raw x) = x"
    and from_unknown: "n \<notin> range to_raw \<Longrightarrow> from_raw n = default"
begin

lemma inj_to_raw: "to_raw x = to_raw y \<longleftrightarrow> x = y"
  by (metis from_to)

lemma from_raw_iff: "from_raw n = x \<longleftrightarrow> n = to_raw x \<or> (n \<notin> range to_raw \<and> x = default)"
  by (metis from_to from_unknown rangeE)

lemma from_to_from: "from_raw (to_raw (from_raw n)) = from_raw n"
  by (rule from_to)

end

interpretation ft: raw_enum FileType_to_raw FileType_from_raw Unknown
proof (unfold_locales, goal_cases)
  case (1 x)
  show ?case by (cases x) (simp_all add: FileType_from_raw_def de_defs)
next
  case (2 n)
  have "n \<noteq> FileType_to_raw x" for x using 2 by blast
  from this [of RegularFile] this [of Directory] this [of Symlink] this [of BlockDevice]
    this [of CharDevice] this [of Fifo] this [of Socket]
  show ?case by (simp add: FileType_from_raw_def)
qed

text \<open>Decoding lwext4's access mode and option bits from the encoded flags.\<close>

definition raw_has :: "i32 \<Rightarrow> i32 \<Rightarrow> bool" where
  "raw_has r f \<longleftrightarrow> r AND f = f"

lemma raw_has_append: "raw_has fl O_APPEND \<longleftrightarrow> fl AND O_APPEND \<noteq> 0"
proof -
  have p: "O_APPEND = 2 ^ 10" by (simp add: O_APPEND_def)
  have "fl AND 2 ^ 10 = 2 ^ 10" if "bit fl 10"
    using that by (intro bit_eqI) (auto simp only: bit_and_iff bit_exp_iff)
  moreover have "fl AND 2 ^ 10 = 0" if "\<not> bit fl 10"
    using that by (simp only: and_exp_eq_0_iff_not_bit not_False_eq_True)
  ultimately show ?thesis unfolding raw_has_def p by (cases "bit fl 10") simp_all
qed

lemma to_raw_bits:
  "OpenFlags_to_raw f =
     (if contains f WRITE then (if contains f READ then 2 else 1) else 0)
     OR (if contains f CREATE then 0x40 else 0) OR (if contains f TRUNCATE then 0x200 else 0)
     OR (if contains f APPEND then 0x400 else 0) OR (if contains f EXCLUSIVE then 0x80 else 0)"
  by (simp add: OpenFlags_to_raw_def Let_def oflag_defs)

section \<open>Properties\<close>

text \<open>
  The type byte of a directory entry and \<open>FileType\<close> are inverse encodings: decoding an
  encoded type gives it back, no two types share a code, and a byte that encodes no type decodes
  to \<open>Unknown\<close>.
\<close>

theorem FileType_raw_roundtrip:
  "FileType_from_raw (FileType_to_raw t) = t \<and>
   (FileType_to_raw t = FileType_to_raw u \<longleftrightarrow> t = u) \<and>
   (FileType_from_raw n = Unknown \<longleftrightarrow> n = 0 \<or> 7 < n)"
proof -
  have "FileType_from_raw n = Unknown \<longleftrightarrow> n = 0 \<or> 7 < n"
  proof
    assume "FileType_from_raw n = Unknown"
    then have "n \<noteq> 1 \<and> n \<noteq> 2 \<and> n \<noteq> 3 \<and> n \<noteq> 4 \<and> n \<noteq> 5 \<and> n \<noteq> 6 \<and> n \<noteq> 7"
      by (auto simp: FileType_from_raw_def de_defs split: if_splits)
    then show "n = 0 \<or> 7 < n" by unat_arith
  next
    assume "n = 0 \<or> 7 < n"
    then show "FileType_from_raw n = Unknown" by (auto simp: FileType_from_raw_def de_defs)
  qed
  then show ?thesis by (simp add: ft.from_to ft.inj_to_raw)
qed

text \<open>
  \<open>OpenFlags::to_raw\<close> loses no requested option: the two low bits are the access mode, in
  which \<open>WRITE\<close> alone is write-only, both are read-write and anything else is read-only, and
  each of lwext4's option bits is set exactly when its flag was requested; no other bit is set,
  whatever the bits of the flag value are.
\<close>

theorem OpenFlags_to_raw_decodes:
  "(OpenFlags_to_raw f AND 3 = O_RDWR \<longleftrightarrow> contains f READ \<and> contains f WRITE) \<and>
   (OpenFlags_to_raw f AND 3 = O_WRONLY \<longleftrightarrow> \<not> contains f READ \<and> contains f WRITE) \<and>
   (OpenFlags_to_raw f AND 3 = O_RDONLY \<longleftrightarrow> \<not> contains f WRITE) \<and>
   (raw_has (OpenFlags_to_raw f) O_CREAT \<longleftrightarrow> contains f CREATE) \<and>
   (raw_has (OpenFlags_to_raw f) O_TRUNC \<longleftrightarrow> contains f TRUNCATE) \<and>
   (raw_has (OpenFlags_to_raw f) O_APPEND \<longleftrightarrow> contains f APPEND) \<and>
   (raw_has (OpenFlags_to_raw f) O_EXCL \<longleftrightarrow> contains f EXCLUSIVE) \<and>
   OpenFlags_to_raw f AND NOT 0x6C3 = 0"
  unfolding to_raw_bits raw_has_def oflag_defs
  by (cases "contains f READ"; cases "contains f WRITE"; cases "contains f CREATE";
      cases "contains f TRUNCATE"; cases "contains f APPEND"; cases "contains f EXCLUSIVE") simp_all

text \<open>
  The sizes of consistent statistics add up: when no more blocks are free than exist and the
  total size fits 64 bits, no size computation panics or wraps, in either build profile, and used
  plus free is total.
\<close>

theorem FsStats_sizes_add_up:
  assumes "free_blocks s \<le> total_blocks s"
    and "unat (total_blocks s) * unat (block_size s) < 2 ^ 64"
  shows "\<exists>t f u. FsStats_total_size p s = Done t \<and> FsStats_free_size p s = Done f \<and>
    FsStats_used_size p s = Done u \<and> unat u + unat f = unat t \<and>
    unat t = unat (total_blocks s) * unat (block_size s)"
proof -
  let ?b = "unat (block_size s)" and ?t = "unat (total_blocks s)" and ?f = "unat (free_blocks s)"
  have le: "?f \<le> ?t" using assms(1) by (simp add: word_le_nat_alt)
  have sub: "unat (total_blocks s - free_blocks s) = ?t - ?f"
    using assms(1) by (simp add: unat_sub)
  have "?f * ?b < 2 ^ 64" and "(?t - ?f) * ?b < 2 ^ 64"
    using assms(2) le by (meson diff_le_self le_less_trans mult_le_mono1)+
  then show ?thesis
    using assms(2) le
    by (simp add: FsStats_total_size_def FsStats_free_size_def FsStats_used_size_def sub_u64_ok
        mul_u64_ok unat_mul_u64 sub flip: add_mult_distrib)
qed

theorem FsStats_sizes_add_up_witness:
  "\<exists>t f u. FsStats_total_size Debug \<lparr>block_size = 4096, total_blocks = 100, free_blocks = 40,
       total_inodes = 16, free_inodes = 5, block_group_count = 1, blocks_per_group = 100,
       inodes_per_group = 16, volume_name = []\<rparr> = Done t \<and>
     FsStats_free_size Debug \<lparr>block_size = 4096, total_blocks = 100, free_blocks = 40,
       total_inodes = 16, free_inodes = 5, block_group_count = 1, blocks_per_group = 100,
       inodes_per_group = 16, volume_name = []\<rparr> = Done f \<and>
     FsStats_used_size Debug \<lparr>block_size = 4096, total_blocks = 100, free_blocks = 40,
       total_inodes = 16, free_inodes = 5, block_group_count = 1, blocks_per_group = 100,
       inodes_per_group = 16, volume_name = []\<rparr> = Done u \<and>
     unat u + unat f = unat t \<and> unat t = 409600"
  using FsStats_sizes_add_up [of "\<lparr>block_size = 4096, total_blocks = 100, free_blocks = 40,
       total_inodes = 16, free_inodes = 5, block_group_count = 1, blocks_per_group = 100,
       inodes_per_group = 16, volume_name = []\<rparr>" Debug] by simp

end
