(* ===== verification/Sys.thy ===== *)
theory Sys
  imports FsTypes
begin

text \<open>
  \<open>ext4-lwext4-sys/src/lib.rs\<close>: the structures shared with the C library, their \<open>Default\<close>
  values, and the C library itself. lwext4 is a git submodule that is not part of the
  repository, so it is a parameter: a record of functions over an abstract state \<open>'w\<close> of the
  library and everything it reaches, one function per declaration that the crate calls. Out
  parameters are passed in and returned. Every call goes through \<open>ffi\<close>, which also records it.
\<close>

section \<open>Structures\<close>

text \<open>Addresses of the process; 0 is the null pointer.\<close>

type_synonym addr = nat

datatype c_callback = Blockdev_open | Blockdev_bread | Blockdev_bwrite | Blockdev_close
  | Blockdev_lock | Blockdev_unlock

record ext4_blockdev_iface =
  if_open :: "c_callback option"
  if_bread :: "c_callback option"
  if_bwrite :: "c_callback option"
  if_close :: "c_callback option"
  if_lock :: "c_callback option"
  if_unlock :: "c_callback option"
  ph_bsize :: u32
  ph_bcnt :: u64
  ph_bbuf :: addr
  ph_refctr :: u32
  bread_ctr :: u32
  bwrite_ctr :: u32
  p_user :: addr

record ext4_blockdev =
  bd_bdif :: addr
  part_offset :: u64
  part_size :: u64
  bd_bc :: addr
  lg_bsize :: u32
  lg_bcnt :: u64
  cache_write_back :: u32
  bd_fs :: addr
  bd_journal :: addr

record ext4_file =
  f_mp :: addr
  f_inode :: u32
  f_flags :: u32
  f_fsize :: u64
  f_fpos :: u64

record ext4_direntry =
  de_inode :: u32
  de_entry_length :: u16
  de_name_length :: u8
  de_inode_type :: u8
  de_name :: bytes

record ext4_dir =
  dir_f :: ext4_file
  dir_de :: ext4_direntry
  next_off :: u64

record ext4_mount_stats =
  ms_inodes_count :: u32
  ms_free_inodes_count :: u32
  ms_blocks_count :: u64
  ms_free_blocks_count :: u64
  ms_block_size :: u32
  ms_block_group_count :: u32
  ms_blocks_per_group :: u32
  ms_inodes_per_group :: u32
  ms_volume_name :: bytes

text \<open>A C string is a \<open>string\<close> without NUL, a possibly null pointer to one an option.\<close>

record ext4_mkfs_info =
  mi_len :: u64
  mi_block_size :: u32
  mi_blocks_per_group :: u32
  mi_inodes_per_group :: u32
  mi_inode_size :: u32
  mi_inodes :: u32
  mi_journal_blocks :: u32
  mi_feat_ro_compat :: u32
  mi_feat_compat :: u32
  mi_feat_incompat :: u32
  mi_bg_desc_reserve_blocks :: u32
  mi_dsc_size :: u16
  mi_uuid :: bytes
  mi_journal :: bool
  mi_label :: "string option"

definition UUID_SIZE :: nat where "UUID_SIZE = 16"

section \<open>Default values\<close>

definition ext4_blockdev_iface_default :: ext4_blockdev_iface where
  "ext4_blockdev_iface_default = \<lparr>if_open = None, if_bread = None, if_bwrite = None,
     if_close = None, if_lock = None, if_unlock = None, ph_bsize = 0, ph_bcnt = 0, ph_bbuf = 0,
     ph_refctr = 0, bread_ctr = 0, bwrite_ctr = 0, p_user = 0\<rparr>"

definition ext4_blockdev_default :: ext4_blockdev where
  "ext4_blockdev_default = \<lparr>bd_bdif = 0, part_offset = 0, part_size = 0, bd_bc = 0, lg_bsize = 0,
     lg_bcnt = 0, cache_write_back = 0, bd_fs = 0, bd_journal = 0\<rparr>"

definition ext4_file_default :: ext4_file where
  "ext4_file_default = \<lparr>f_mp = 0, f_inode = 0, f_flags = 0, f_fsize = 0, f_fpos = 0\<rparr>"

definition ext4_direntry_default :: ext4_direntry where
  "ext4_direntry_default = \<lparr>de_inode = 0, de_entry_length = 0, de_name_length = 0,
     de_inode_type = 0, de_name = replicate 255 0\<rparr>"

definition ext4_dir_default :: ext4_dir where
  "ext4_dir_default = \<lparr>dir_f = ext4_file_default, dir_de = ext4_direntry_default, next_off = 0\<rparr>"

definition ext4_mount_stats_default :: ext4_mount_stats where
  "ext4_mount_stats_default = \<lparr>ms_inodes_count = 0, ms_free_inodes_count = 0, ms_blocks_count = 0,
     ms_free_blocks_count = 0, ms_block_size = 0, ms_block_group_count = 0,
     ms_blocks_per_group = 0, ms_inodes_per_group = 0, ms_volume_name = replicate 16 0\<rparr>"

definition ext4_mkfs_info_default :: ext4_mkfs_info where
  "ext4_mkfs_info_default = \<lparr>mi_len = 0, mi_block_size = 4096, mi_blocks_per_group = 0,
     mi_inodes_per_group = 0, mi_inode_size = 256, mi_inodes = 0, mi_journal_blocks = 0,
     mi_feat_ro_compat = 0, mi_feat_compat = 0, mi_feat_incompat = 0,
     mi_bg_desc_reserve_blocks = 0, mi_dsc_size = 0, mi_uuid = replicate UUID_SIZE 0,
     mi_journal = True, mi_label = None\<rparr>"

section \<open>The C library as a parameter\<close>

type_synonym ('w, 'r) cfun = "'w \<Rightarrow> 'r \<times> 'w"

record 'w mount_lib =
  l_device_register :: "addr \<Rightarrow> string \<Rightarrow> ('w, i32) cfun"
  l_device_unregister :: "string \<Rightarrow> ('w, i32) cfun"
  l_mount :: "string \<Rightarrow> string \<Rightarrow> bool \<Rightarrow> ('w, i32) cfun"
  l_umount :: "string \<Rightarrow> ('w, i32) cfun"
  l_mount_point_stats :: "string \<Rightarrow> ext4_mount_stats \<Rightarrow> ('w, i32 \<times> ext4_mount_stats) cfun"
  l_journal_start :: "string \<Rightarrow> ('w, i32) cfun"
  l_journal_stop :: "string \<Rightarrow> ('w, i32) cfun"
  l_recover :: "string \<Rightarrow> ('w, i32) cfun"
  l_cache_flush :: "string \<Rightarrow> ('w, i32) cfun"

record 'w file_lib =
  l_fopen2 :: "ext4_file \<Rightarrow> string \<Rightarrow> i32 \<Rightarrow> ('w, i32 \<times> ext4_file) cfun"
  l_fclose :: "ext4_file \<Rightarrow> ('w, i32 \<times> ext4_file) cfun"
  l_ftruncate :: "ext4_file \<Rightarrow> u64 \<Rightarrow> ('w, i32 \<times> ext4_file) cfun"
  l_fread :: "ext4_file \<Rightarrow> bytes \<Rightarrow> usize \<Rightarrow> usize \<Rightarrow> ('w, i32 \<times> ext4_file \<times> bytes \<times> usize) cfun"
  l_fwrite :: "ext4_file \<Rightarrow> bytes \<Rightarrow> usize \<Rightarrow> usize \<Rightarrow> ('w, i32 \<times> ext4_file \<times> usize) cfun"
  l_fseek :: "ext4_file \<Rightarrow> i64 \<Rightarrow> u32 \<Rightarrow> ('w, i32 \<times> ext4_file) cfun"
  l_ftell :: "ext4_file \<Rightarrow> ('w, u64) cfun"
  l_fsize :: "ext4_file \<Rightarrow> ('w, u64) cfun"

record 'w path_lib =
  l_fremove :: "string \<Rightarrow> ('w, i32) cfun"
  l_flink :: "string \<Rightarrow> string \<Rightarrow> ('w, i32) cfun"
  l_frename :: "string \<Rightarrow> string \<Rightarrow> ('w, i32) cfun"
  l_fsymlink :: "string \<Rightarrow> string \<Rightarrow> ('w, i32) cfun"
  l_readlink :: "string \<Rightarrow> bytes \<Rightarrow> usize \<Rightarrow> usize \<Rightarrow> ('w, i32 \<times> bytes \<times> usize) cfun"
  l_dir_mk :: "string \<Rightarrow> ('w, i32) cfun"
  l_dir_rm :: "string \<Rightarrow> ('w, i32) cfun"
  l_mode_get :: "string \<Rightarrow> u32 \<Rightarrow> ('w, i32 \<times> u32) cfun"
  l_mode_set :: "string \<Rightarrow> u32 \<Rightarrow> ('w, i32) cfun"
  l_owner_get :: "string \<Rightarrow> u32 \<Rightarrow> u32 \<Rightarrow> ('w, i32 \<times> u32 \<times> u32) cfun"
  l_owner_set :: "string \<Rightarrow> u32 \<Rightarrow> u32 \<Rightarrow> ('w, i32) cfun"
  l_atime_get :: "string \<Rightarrow> u32 \<Rightarrow> ('w, i32 \<times> u32) cfun"
  l_mtime_get :: "string \<Rightarrow> u32 \<Rightarrow> ('w, i32 \<times> u32) cfun"
  l_ctime_get :: "string \<Rightarrow> u32 \<Rightarrow> ('w, i32 \<times> u32) cfun"
  l_inode_exist :: "string \<Rightarrow> i32 \<Rightarrow> ('w, i32) cfun"

record 'w dir_lib =
  l_dir_open :: "ext4_dir \<Rightarrow> string \<Rightarrow> ('w, i32 \<times> ext4_dir) cfun"
  l_dir_close :: "ext4_dir \<Rightarrow> ('w, i32 \<times> ext4_dir) cfun"
  l_dir_entry_next :: "ext4_dir \<Rightarrow> ('w, ext4_direntry option \<times> ext4_dir) cfun"
  l_dir_entry_rewind :: "ext4_dir \<Rightarrow> ('w, ext4_dir) cfun"

record 'w mkfs_lib =
  l_sizeof_ext4_fs :: "('w, usize) cfun"
  l_mkfs :: "bytes \<Rightarrow> addr \<Rightarrow> ext4_mkfs_info \<Rightarrow> i32 \<Rightarrow> ('w, i32 \<times> ext4_mkfs_info) cfun"

record 'w lwext4 =
  mount_fns :: "'w mount_lib"
  file_fns :: "'w file_lib"
  path_fns :: "'w path_lib"
  dir_fns :: "'w dir_lib"
  mkfs_fns :: "'w mkfs_lib"

section \<open>Calls\<close>

datatype (plugins only: size) c_call =
    C_device_register addr string | C_device_unregister string
  | C_mount string string bool | C_umount string | C_mount_point_stats string
  | C_journal_start string | C_journal_stop string | C_recover string | C_cache_flush string
  | C_fopen2 string i32 | C_fclose ext4_file | C_ftruncate ext4_file u64
  | C_fread ext4_file usize | C_fwrite ext4_file bytes | C_fseek ext4_file i64 u32
  | C_ftell ext4_file | C_fsize ext4_file
  | C_fremove string | C_flink string string | C_frename string string | C_fsymlink string string
  | C_readlink string | C_dir_mk string | C_dir_rm string
  | C_mode_get string | C_mode_set string u32 | C_owner_get string | C_owner_set string u32 u32
  | C_atime_get string | C_mtime_get string | C_ctime_get string | C_inode_exist string i32
  | C_dir_open string | C_dir_close ext4_dir | C_dir_entry_next ext4_dir
  | C_dir_entry_rewind ext4_dir
  | C_sizeof_ext4_fs | C_mkfs addr ext4_mkfs_info i32

text \<open>
  The process: the static device counter of \<open>fs.rs\<close>, the C library's world, and the calls made
  so far, oldest first.
\<close>

record 'w world =
  counter :: u64
  cst :: 'w
  calls :: "c_call list"

definition ffi :: "c_call \<Rightarrow> ('w, 'r) cfun \<Rightarrow> ('w world, 'r) comp" where
  "ffi c f = (\<lambda>w. case f (cst w) of (r, s) \<Rightarrow> Done (r, w\<lparr>cst := s, calls := calls w @ [c]\<rparr>))"

definition ext4_device_register where
  "ext4_device_register L bd n =
  ffi (C_device_register bd n) (l_device_register (mount_fns L) bd n)"
definition ext4_device_unregister where
  "ext4_device_unregister L n =
  ffi (C_device_unregister n) (l_device_unregister (mount_fns L) n)"
definition ext4_mount where
  "ext4_mount L dev mp ro = ffi (C_mount dev mp ro) (l_mount (mount_fns L) dev mp ro)"
definition ext4_umount where
  "ext4_umount L mp = ffi (C_umount mp) (l_umount (mount_fns L) mp)"
definition ext4_mount_point_stats where
  "ext4_mount_point_stats L mp st =
  ffi (C_mount_point_stats mp) (l_mount_point_stats (mount_fns L) mp st)"
definition ext4_journal_start where
  "ext4_journal_start L mp = ffi (C_journal_start mp) (l_journal_start (mount_fns L) mp)"
definition ext4_journal_stop where
  "ext4_journal_stop L mp = ffi (C_journal_stop mp) (l_journal_stop (mount_fns L) mp)"
definition ext4_recover where
  "ext4_recover L mp = ffi (C_recover mp) (l_recover (mount_fns L) mp)"
definition ext4_cache_flush where
  "ext4_cache_flush L mp = ffi (C_cache_flush mp) (l_cache_flush (mount_fns L) mp)"

definition ext4_fopen2 where
  "ext4_fopen2 L f path flags = ffi (C_fopen2 path flags) (l_fopen2 (file_fns L) f path flags)"
definition ext4_fclose where
  "ext4_fclose L f = ffi (C_fclose f) (l_fclose (file_fns L) f)"
definition ext4_ftruncate where
  "ext4_ftruncate L f n = ffi (C_ftruncate f n) (l_ftruncate (file_fns L) f n)"
definition ext4_fread where
  "ext4_fread L f buf n rcnt = ffi (C_fread f n) (l_fread (file_fns L) f buf n rcnt)"
definition ext4_fwrite where
  "ext4_fwrite L f buf n wcnt = ffi (C_fwrite f buf) (l_fwrite (file_fns L) f buf n wcnt)"
definition ext4_fseek where
  "ext4_fseek L f off origin = ffi (C_fseek f off origin) (l_fseek (file_fns L) f off origin)"
definition ext4_ftell where
  "ext4_ftell L f = ffi (C_ftell f) (l_ftell (file_fns L) f)"
definition ext4_fsize where
  "ext4_fsize L f = ffi (C_fsize f) (l_fsize (file_fns L) f)"

definition ext4_fremove where
  "ext4_fremove L path = ffi (C_fremove path) (l_fremove (path_fns L) path)"
definition ext4_flink where
  "ext4_flink L path link = ffi (C_flink path link) (l_flink (path_fns L) path link)"
definition ext4_frename where
  "ext4_frename L path new = ffi (C_frename path new) (l_frename (path_fns L) path new)"
definition ext4_fsymlink where
  "ext4_fsymlink L target path =
  ffi (C_fsymlink target path) (l_fsymlink (path_fns L) target path)"
definition ext4_readlink where
  "ext4_readlink L path buf n rcnt =
  ffi (C_readlink path) (l_readlink (path_fns L) path buf n rcnt)"
definition ext4_dir_mk where
  "ext4_dir_mk L path = ffi (C_dir_mk path) (l_dir_mk (path_fns L) path)"
definition ext4_dir_rm where
  "ext4_dir_rm L path = ffi (C_dir_rm path) (l_dir_rm (path_fns L) path)"
definition ext4_mode_get where
  "ext4_mode_get L path m = ffi (C_mode_get path) (l_mode_get (path_fns L) path m)"
definition ext4_mode_set where
  "ext4_mode_set L path m = ffi (C_mode_set path m) (l_mode_set (path_fns L) path m)"
definition ext4_owner_get where
  "ext4_owner_get L path u g = ffi (C_owner_get path) (l_owner_get (path_fns L) path u g)"
definition ext4_owner_set where
  "ext4_owner_set L path u g = ffi (C_owner_set path u g) (l_owner_set (path_fns L) path u g)"
definition ext4_atime_get where
  "ext4_atime_get L path t = ffi (C_atime_get path) (l_atime_get (path_fns L) path t)"
definition ext4_mtime_get where
  "ext4_mtime_get L path t = ffi (C_mtime_get path) (l_mtime_get (path_fns L) path t)"
definition ext4_ctime_get where
  "ext4_ctime_get L path t = ffi (C_ctime_get path) (l_ctime_get (path_fns L) path t)"
definition ext4_inode_exist where
  "ext4_inode_exist L path ty = ffi (C_inode_exist path ty) (l_inode_exist (path_fns L) path ty)"

definition ext4_dir_open where
  "ext4_dir_open L d path = ffi (C_dir_open path) (l_dir_open (dir_fns L) d path)"
definition ext4_dir_close where
  "ext4_dir_close L d = ffi (C_dir_close d) (l_dir_close (dir_fns L) d)"
definition ext4_dir_entry_next where
  "ext4_dir_entry_next L d = ffi (C_dir_entry_next d) (l_dir_entry_next (dir_fns L) d)"
definition ext4_dir_entry_rewind where
  "ext4_dir_entry_rewind L d = ffi (C_dir_entry_rewind d) (l_dir_entry_rewind (dir_fns L) d)"

definition lwext4_sizeof_ext4_fs where
  "lwext4_sizeof_ext4_fs L = ffi C_sizeof_ext4_fs (l_sizeof_ext4_fs (mkfs_fns L))"
definition ext4_mkfs where
  "ext4_mkfs L fs_buf bd info ty = ffi (C_mkfs bd info ty) (l_mkfs (mkfs_fns L) fs_buf bd info ty)"

lemmas ffi_defs =
  ext4_device_register_def ext4_device_unregister_def ext4_mount_def ext4_umount_def
  ext4_mount_point_stats_def ext4_journal_start_def ext4_journal_stop_def ext4_recover_def
  ext4_cache_flush_def ext4_fopen2_def ext4_fclose_def ext4_ftruncate_def ext4_fread_def
  ext4_fwrite_def ext4_fseek_def ext4_ftell_def ext4_fsize_def ext4_fremove_def ext4_flink_def
  ext4_frename_def ext4_fsymlink_def ext4_readlink_def ext4_dir_mk_def ext4_dir_rm_def
  ext4_mode_get_def ext4_mode_set_def ext4_owner_get_def ext4_owner_set_def ext4_atime_get_def
  ext4_mtime_get_def ext4_ctime_get_def ext4_inode_exist_def ext4_dir_open_def ext4_dir_close_def
  ext4_dir_entry_next_def ext4_dir_entry_rewind_def lwext4_sizeof_ext4_fs_def ext4_mkfs_def

text \<open>
  The rule every proof about a sequence of calls uses: a call returns what the function returns,
  and appends itself to the record.
\<close>

lemma seq_ffi [rust_simps]:
  "seq_st (ffi c f) k w =
     k (fst (f (cst w))) (w\<lparr>cst := snd (f (cst w)), calls := calls w @ [c]\<rparr>)"
  by (simp add: seq_st_def ffi_def split: prod.splits)

lemma ffi_apply [rust_simps]:
  "ffi c f w = Done (fst (f (cst w)), w\<lparr>cst := snd (f (cst w)), calls := calls w @ [c]\<rparr>)"
  by (simp add: ffi_def split: prod.splits)

end
