(* ===== verification/BlockDev.thy ===== *)
theory BlockDev
  imports Errors
begin

text \<open>
  The trait \<open>BlockDevice\<close> of \<open>blockdev/traits.rs\<close> as a record of its methods (the vtable of a
  \<open>dyn BlockDevice\<close>), the device half of the callbacks of \<open>blockdev/mod.rs\<close> (what they do once the
  device is found), an abstract disk, and two interface locales: what any device promises, and
  what a device that never fails promises. The client lemma of the interface is that a run of
  callbacks behaves as the abstract disk.
\<close>

section \<open>The trait\<close>

record 'd block_device =
  vt_read_blocks :: "u64 \<Rightarrow> bytes \<Rightarrow> ('d, (error + u32) \<times> bytes) comp"
  vt_write_blocks :: "u64 \<Rightarrow> bytes \<Rightarrow> ('d, error + u32) comp"
  vt_flush :: "('d, error + unit) comp"
  vt_block_size :: "'d \<Rightarrow> u32"
  vt_block_count :: "'d \<Rightarrow> u64"
  vt_open :: "('d, error + unit) comp"
  vt_close :: "('d, error + unit) comp"

definition default_open :: "('d, error + unit) comp" where
  "default_open = ret_st (Inr ())"

definition default_close :: "('d, error + unit) comp" where
  "default_close = ret_st (Inr ())"

definition BlockDeviceExt_total_size :: "profile \<Rightarrow> 'd block_device \<Rightarrow> 'd \<Rightarrow> u64 rust" where
  "BlockDeviceExt_total_size p V d =
     mul_u64 p (vt_block_count V d) (u64_of_u32 (vt_block_size V d))"

section \<open>The callbacks' work on a device\<close>

text \<open>The error arm the four callbacks share.\<close>

definition callback_code :: "error \<Rightarrow> i32" where
  "callback_code e = (case e of
     Io io \<Rightarrow> (case raw_os_error io of Some c \<Rightarrow> c | None \<Rightarrow> EIO) | _ \<Rightarrow> EIO)"

definition dev_open :: "'d block_device \<Rightarrow> ('d, i32) comp" where
  "dev_open V = seq_st (vt_open V) (\<lambda>r. ret_st (case r of Inr _ \<Rightarrow> 0 | Inl e \<Rightarrow> callback_code e))"

definition dev_close :: "'d block_device \<Rightarrow> ('d, i32) comp" where
  "dev_close V = seq_st (vt_close V) (\<lambda>r. ret_st (case r of Inr _ \<Rightarrow> 0 | Inl e \<Rightarrow> callback_code e))"

text \<open>
  \<open>buf\<close> is the memory at the C pointer; \<open>from_raw_parts\<close> makes its first \<open>total_size\<close> bytes a
  slice. lwext4 owes a buffer of at least that many bytes.
\<close>

definition dev_bread :: "profile \<Rightarrow> 'd block_device \<Rightarrow> bytes \<Rightarrow> u64 \<Rightarrow> u32 \<Rightarrow> ('d, i32 \<times> bytes) comp" where
  "dev_bread p V buf blk_id blk_cnt = (\<lambda>d.
     let block_size = u64_of_u32 (vt_block_size V d) in
     bind_rust (mul_u64 p block_size (u64_of_u32 blk_cnt)) (\<lambda>total_size.
       seq_st (vt_read_blocks V blk_id (take (unat total_size) buf)) (\<lambda>(r, slice).
         ret_st (case r of Inr _ \<Rightarrow> 0 | Inl e \<Rightarrow> callback_code e,
                 slice @ drop (unat total_size) buf)) d))"

definition dev_bwrite :: "profile \<Rightarrow> 'd block_device \<Rightarrow> bytes \<Rightarrow> u64 \<Rightarrow> u32 \<Rightarrow> ('d, i32) comp" where
  "dev_bwrite p V buf blk_id blk_cnt = (\<lambda>d.
     let block_size = u64_of_u32 (vt_block_size V d) in
     bind_rust (mul_u64 p block_size (u64_of_u32 blk_cnt)) (\<lambda>total_size.
       seq_st (vt_write_blocks V blk_id (take (unat total_size) buf)) (\<lambda>r.
         ret_st (case r of Inr _ \<Rightarrow> 0 | Inl e \<Rightarrow> callback_code e)) d))"

lemma u32_product_lt: "unat (a :: u32) * unat (b :: u32) < 2 ^ 64"
proof -
  have "unat a \<le> 2 ^ 32 - 1" and "unat b \<le> 2 ^ 32 - 1"
    using unat_u32_lt [of a] unat_u32_lt [of b] by simp_all
  then have "unat a * unat b \<le> (2 ^ 32 - 1) * (2 ^ 32 - 1)" by (rule mult_le_mono)
  then show ?thesis by simp
qed

lemma callback_total_size [rust_simps]:
  "mul_u64 p (u64_of_u32 a) (u64_of_u32 b) = Done (u64_of_u32 a * u64_of_u32 b)"
  "unat (u64_of_u32 a * u64_of_u32 b) = unat a * unat b"
  using u32_product_lt [of a b] by (simp_all add: mul_u64_ok unat_mul_u64)

section \<open>Runs of callbacks and the abstract disk\<close>

text \<open>
  A call lwext4 makes: a read of some blocks into a buffer, or a write of some blocks from one.
  Its reply is the return code and the buffer afterwards.
\<close>

datatype cb_call = CbRead u64 u32 bytes | CbWrite u64 u32 bytes

fun cb_step :: "profile \<Rightarrow> 'd block_device \<Rightarrow> cb_call \<Rightarrow> ('d, i32 \<times> bytes) comp" where
  "cb_step p V (CbRead b n buf) = dev_bread p V buf b n"
| "cb_step p V (CbWrite b n buf) = seq_st (dev_bwrite p V buf b n) (\<lambda>r. ret_st (r, buf))"

fun cb_run :: "profile \<Rightarrow> 'd block_device \<Rightarrow> cb_call list \<Rightarrow> ('d, (i32 \<times> bytes) list) comp" where
  "cb_run p V [] = ret_st []"
| "cb_run p V (c # cs) =
     seq_st (cb_step p V c) (\<lambda>r. seq_st (cb_run p V cs) (\<lambda>rs. ret_st (r # rs)))"

text \<open>The abstract disk is an array of bytes addressed in blocks of \<open>bs\<close> bytes.\<close>

fun disk_step :: "nat \<Rightarrow> cb_call \<Rightarrow> bytes \<Rightarrow> bytes \<times> bytes" where
  "disk_step bs (CbRead b n buf) disk = (slice (unat b * bs) (bs * unat n) disk, disk)"
| "disk_step bs (CbWrite b n buf) disk = (buf, blit (unat b * bs) buf disk)"

fun disk_run :: "nat \<Rightarrow> cb_call list \<Rightarrow> bytes \<Rightarrow> bytes list \<times> bytes" where
  "disk_run bs [] disk = ([], disk)"
| "disk_run bs (c # cs) disk =
     (case disk_step bs c disk of (r, disk') \<Rightarrow>
        case disk_run bs cs disk' of (rs, disk'') \<Rightarrow> (r # rs, disk''))"

text \<open>A call with a buffer of the documented size whose blocks lie on a disk of \<open>len\<close> bytes.\<close>

fun cb_in_range :: "nat \<Rightarrow> nat \<Rightarrow> cb_call \<Rightarrow> bool" where
  "cb_in_range bs len (CbRead b n buf) \<longleftrightarrow>
     length buf = bs * unat n \<and> unat b * bs + length buf \<le> len"
| "cb_in_range bs len (CbWrite b n buf) \<longleftrightarrow>
     length buf = bs * unat n \<and> unat b * bs + length buf \<le> len"

lemma length_disk_step:
  "cb_in_range bs (length disk) c \<Longrightarrow> length (snd (disk_step bs c disk)) = length disk"
  by (cases c) (simp_all add: length_blit)

section \<open>What a device promises\<close>

text \<open>
  \<open>content\<close> is the device's data. Within it, a read changes nothing and, when it reports success,
  has filled the buffer with the data; a write changes the addressed bytes only, all of them when
  it reports success and a prefix of them when it reports an error. A reported error never carries
  the operating system's success code.
\<close>

locale block_device_laws =
  fixes V :: "'d block_device" and content :: "'d \<Rightarrow> bytes" and inv :: "'d \<Rightarrow> bool"
  assumes read_law: "\<lbrakk>inv d; unat b * unat (vt_block_size V d) + length buf \<le> length (content d)\<rbrakk> \<Longrightarrow>
      \<exists>r buf' d'. vt_read_blocks V b buf d = Done ((r, buf'), d') \<and>
        inv d' \<and> content d' = content d \<and> vt_block_size V d' = vt_block_size V d \<and>
        length buf' = length buf \<and>
        (case r of
           Inr n \<Rightarrow> buf' = slice (unat b * unat (vt_block_size V d)) (length buf) (content d)
         | Inl e \<Rightarrow> callback_code e \<noteq> 0)"
    and write_law: "\<lbrakk>inv d; unat b * unat (vt_block_size V d) + length buf \<le> length (content d)\<rbrakk> \<Longrightarrow>
      \<exists>r d' k. vt_write_blocks V b buf d = Done (r, d') \<and>
        inv d' \<and> vt_block_size V d' = vt_block_size V d \<and>
        content d' = blit (unat b * unat (vt_block_size V d)) (take k buf) (content d) \<and>
        (case r of Inr n \<Rightarrow> k = length buf | Inl e \<Rightarrow> callback_code e \<noteq> 0)"
    and flush_law: "inv d \<Longrightarrow> \<exists>r d'. vt_flush V d = Done (r, d') \<and> inv d' \<and> content d' = content d"
begin

lemma bread_law:
  assumes "inv d" and "cb_in_range (unat (vt_block_size V d)) (length (content d)) (CbRead b n buf)"
  shows "\<exists>c buf' d'. dev_bread p V buf b n d = Done ((c, buf'), d') \<and> inv d' \<and>
    content d' = content d \<and> vt_block_size V d' = vt_block_size V d \<and> length buf' = length buf \<and>
    (c = 0 \<longrightarrow> buf' = slice (unat b * unat (vt_block_size V d)) (length buf) (content d))"
proof -
  from assms obtain r buf' d' where *: "vt_read_blocks V b buf d = Done ((r, buf'), d')" "inv d'"
    "content d' = content d" "vt_block_size V d' = vt_block_size V d" "length buf' = length buf"
    "case r of Inr n \<Rightarrow> buf' = slice (unat b * unat (vt_block_size V d)) (length buf) (content d)
         | Inl e \<Rightarrow> callback_code e \<noteq> 0"
    using read_law [of d b buf] by auto
  with assms(2) show ?thesis
    by (auto simp: dev_bread_def rust_simps seq_st_def split: sum.splits)
qed

lemma bwrite_law:
  assumes "inv d" and "cb_in_range (unat (vt_block_size V d)) (length (content d)) (CbWrite b n buf)"
  shows "\<exists>c d' k. dev_bwrite p V buf b n d = Done (c, d') \<and> inv d' \<and>
    vt_block_size V d' = vt_block_size V d \<and>
    content d' = blit (unat b * unat (vt_block_size V d)) (take k buf) (content d) \<and>
    (c = 0 \<longrightarrow> k = length buf)"
proof -
  from assms obtain r d' k where *: "vt_write_blocks V b buf d = Done (r, d')" "inv d'"
    "vt_block_size V d' = vt_block_size V d"
    "content d' = blit (unat b * unat (vt_block_size V d)) (take k buf) (content d)"
    "case r of Inr n \<Rightarrow> k = length buf | Inl e \<Rightarrow> callback_code e \<noteq> 0"
    using write_law [of d b buf] by auto
  with assms(2) show ?thesis
    by (auto simp: dev_bwrite_def rust_simps seq_st_def split: sum.splits)
qed

lemma step_law:
  assumes "inv d" and "cb_in_range (unat (vt_block_size V d)) (length (content d)) c"
  shows "\<exists>r buf' d'. cb_step p V c d = Done ((r, buf'), d') \<and> inv d' \<and>
    vt_block_size V d' = vt_block_size V d \<and> length (content d') = length (content d) \<and>
    (r = 0 \<longrightarrow> (buf', content d') = disk_step (unat (vt_block_size V d)) c (content d))"
proof (cases c)
  case (CbRead b n buf)
  with bread_law [OF assms(1), of b n buf p] assms(2) show ?thesis by auto
next
  case (CbWrite b n buf)
  with bwrite_law [OF assms(1), of b n buf p] assms(2) show ?thesis
    by (auto simp: rust_simps seq_st_def length_blit)
qed

text \<open>
  Simulation: a run of calls never panics and keeps the invariant; if every call reports success,
  the replies and the final content are the abstract disk's.
\<close>

lemma run_law:
  assumes "inv d" and "\<forall>c \<in> set cs. cb_in_range (unat (vt_block_size V d)) (length (content d)) c"
  shows "\<exists>rs d'. cb_run p V cs d = Done (rs, d') \<and> inv d' \<and> length rs = length cs \<and>
    vt_block_size V d' = vt_block_size V d \<and> length (content d') = length (content d) \<and>
    ((\<forall>r \<in> set rs. fst r = 0) \<longrightarrow>
       (map snd rs, content d') = disk_run (unat (vt_block_size V d)) cs (content d))"
  using assms
proof (induction cs arbitrary: d)
  case Nil
  then show ?case by simp
next
  case (Cons c cs)
  from step_law [OF Cons.prems(1)] Cons.prems(2) obtain r buf' d1 where
    1: "cb_step p V c d = Done ((r, buf'), d1)" "inv d1" "vt_block_size V d1 = vt_block_size V d"
      "length (content d1) = length (content d)"
      "r = 0 \<longrightarrow> (buf', content d1) = disk_step (unat (vt_block_size V d)) c (content d)"
    by fastforce
  from Cons.IH [OF 1(2)] Cons.prems(2) 1(3,4) obtain rs d2 where
    2: "cb_run p V cs d1 = Done (rs, d2)" "inv d2" "length rs = length cs"
      "vt_block_size V d2 = vt_block_size V d1" "length (content d2) = length (content d1)"
      "(\<forall>r \<in> set rs. fst r = 0) \<longrightarrow>
         (map snd rs, content d2) = disk_run (unat (vt_block_size V d1)) cs (content d1)"
    by fastforce
  show ?case
    using 1 2 by (auto simp: seq_st_def split: prod.splits)
qed

end

text \<open>A device that never fails within its range.\<close>

locale reliable_block_device = block_device_laws +
  assumes read_ok: "\<lbrakk>inv d; unat b * unat (vt_block_size V d) + length buf \<le> length (content d);
      vt_read_blocks V b buf d = Done ((r, buf'), d')\<rbrakk> \<Longrightarrow> \<exists>n. r = Inr n"
    and write_ok: "\<lbrakk>inv d; unat b * unat (vt_block_size V d) + length buf \<le> length (content d);
      vt_write_blocks V b buf d = Done (r, d')\<rbrakk> \<Longrightarrow> \<exists>n. r = Inr n"
begin

lemma step_ok:
  assumes "inv d" and "cb_in_range (unat (vt_block_size V d)) (length (content d)) c"
    and "cb_step p V c d = Done ((r, buf'), d')"
  shows "r = 0"
proof (cases c)
  case (CbRead b n buf)
  with assms read_law [of d b buf] read_ok [of d b buf] show ?thesis
    by (fastforce simp: dev_bread_def rust_simps seq_st_def split: sum.splits)
next
  case (CbWrite b n buf)
  with assms write_law [of d b buf] write_ok [of d b buf] show ?thesis
    by (fastforce simp: dev_bwrite_def rust_simps seq_st_def split: sum.splits)
qed

lemma run_ok:
  assumes "inv d" and "\<forall>c \<in> set cs. cb_in_range (unat (vt_block_size V d)) (length (content d)) c"
  shows "\<exists>rs d'. cb_run p V cs d = Done (rs, d') \<and> inv d' \<and> (\<forall>r \<in> set rs. fst r = 0) \<and>
    (map snd rs, content d') = disk_run (unat (vt_block_size V d)) cs (content d)"
proof -
  have "\<forall>rs d'. cb_run p V cs d = Done (rs, d') \<longrightarrow> (\<forall>r \<in> set rs. fst r = 0)"
    using assms
  proof (induction cs arbitrary: d)
    case (Cons c cs)
    from step_law [OF Cons.prems(1)] Cons.prems(2) obtain r buf' d1 where
      1: "cb_step p V c d = Done ((r, buf'), d1)" "inv d1" "vt_block_size V d1 = vt_block_size V d"
        "length (content d1) = length (content d)"
      by fastforce
    have "r = 0" using step_ok [OF Cons.prems(1) _ 1(1)] Cons.prems(2) by simp
    with 1 Cons.IH [OF 1(2)] Cons.prems(2) show ?case
      by (auto simp: seq_st_def split: rust.splits)
  qed simp
  with run_law [OF assms, of p] show ?thesis by blast
qed

end

end
