(* ===== verification/MemoryDev.thy ===== *)
theory MemoryDev
  imports BlockDev
begin

text \<open>
  \<open>blockdev/memory.rs\<close>: the in-memory block device. Its well-formedness invariant, the behaviour
  of reads and writes on every branch in both build profiles, and the interpretation of the device
  interface.
\<close>

section \<open>The device\<close>

record MemoryBlockDevice =
  data :: bytes
  mem_block_size :: u32
  mem_block_count :: u64

definition MemoryBlockDevice_new :: "profile \<Rightarrow> u64 \<Rightarrow> u32 \<Rightarrow> MemoryBlockDevice rust" where
  "MemoryBlockDevice_new p sz block_size =
     bind_rust (div_u64 sz (u64_of_u32 block_size)) (\<lambda>block_count.
     bind_rust (mul_u64 p block_count (u64_of_u32 block_size)) (\<lambda>actual_size.
     bind_rust (vec_zero actual_size) (\<lambda>d.
       Done \<lparr>data = d, mem_block_size = block_size, mem_block_count = block_count\<rparr>)))"

definition MemoryBlockDevice_with_size :: "profile \<Rightarrow> u64 \<Rightarrow> MemoryBlockDevice rust" where
  "MemoryBlockDevice_with_size p sz = MemoryBlockDevice_new p sz 512"

definition MemoryBlockDevice_from_vec :: "bytes \<Rightarrow> u32 \<Rightarrow> MemoryBlockDevice rust" where
  "MemoryBlockDevice_from_vec d block_size =
     (if block_size = 0 then Panic
      else if slice_len d mod u64_of_u32 block_size \<noteq> 0 then Panic
      else bind_rust (div_u64 (slice_len d) (u64_of_u32 block_size)) (\<lambda>block_count.
        Done \<lparr>data = d, mem_block_size = block_size, mem_block_count = block_count\<rparr>))"

definition as_slice :: "MemoryBlockDevice \<Rightarrow> bytes" where
  "as_slice self = data self"

text \<open>
  The mutable slice is a borrow of the data: its value, and what the device is once the borrower
  has stored \<open>xs\<close> of the same length through it.
\<close>

definition as_mut_slice ::
  "MemoryBlockDevice \<Rightarrow> bytes \<times> (bytes \<Rightarrow> MemoryBlockDevice)" where
  "as_mut_slice self = (data self, \<lambda>xs. self\<lparr>data := xs\<rparr>)"

definition into_vec :: "MemoryBlockDevice \<Rightarrow> bytes" where
  "into_vec self = data self"

text \<open>
  \<open>&self.data[offset..end]\<close> panics when \<open>offset > end\<close> or \<open>end > len\<close>; \<open>copy_from_slice\<close> panics
  when the lengths differ.
\<close>

definition index_range :: "usize \<Rightarrow> usize \<Rightarrow> bytes \<Rightarrow> bytes rust" where
  "index_range a b xs =
     (if b < a \<or> length xs < unat b then Panic else Done (slice (unat a) (unat b - unat a) xs))"

definition mem_read_blocks ::
  "profile \<Rightarrow> u64 \<Rightarrow> bytes \<Rightarrow> (MemoryBlockDevice, (error + u32) \<times> bytes) comp" where
  "mem_read_blocks p block_id buf = (\<lambda>self.
     bind_rust (mul_u64 p block_id (u64_of_u32 (mem_block_size self))) (\<lambda>offset.
     let len = slice_len buf in
     bind_rust (add_u64 p offset len) (\<lambda>end1.
     if slice_len (data self) < end1
     then Done ((Inl (Io (Simple UnexpectedEof ''read past end of device'')), buf), self)
     else bind_rust (add_u64 p offset len) (\<lambda>end2.
     bind_rust (index_range offset end2 (data self)) (\<lambda>src.
     if length src \<noteq> length buf then Panic
     else bind_rust (div_u64 len (u64_of_u32 (mem_block_size self))) (\<lambda>n.
       Done ((Inr (u32_of_u64 n), src), self)))))))"

definition mem_write_blocks ::
  "profile \<Rightarrow> u64 \<Rightarrow> bytes \<Rightarrow> (MemoryBlockDevice, error + u32) comp" where
  "mem_write_blocks p block_id buf = (\<lambda>self.
     bind_rust (mul_u64 p block_id (u64_of_u32 (mem_block_size self))) (\<lambda>offset.
     let len = slice_len buf in
     bind_rust (add_u64 p offset len) (\<lambda>end1.
     if slice_len (data self) < end1
     then Done (Inl (Io (Simple UnexpectedEof ''write past end of device'')), self)
     else bind_rust (add_u64 p offset len) (\<lambda>end2.
     bind_rust (index_range offset end2 (data self)) (\<lambda>dst.
     if length dst \<noteq> length buf then Panic
     else let self = self\<lparr>data := blit (unat offset) buf (data self)\<rparr> in
       bind_rust (div_u64 len (u64_of_u32 (mem_block_size self))) (\<lambda>n.
         Done (Inr (u32_of_u64 n), self)))))))"

definition mem_flush :: "(MemoryBlockDevice, error + unit) comp" where
  "mem_flush = ret_st (Inr ())"

definition mem_vt :: "profile \<Rightarrow> MemoryBlockDevice block_device" where
  "mem_vt p = \<lparr>vt_read_blocks = mem_read_blocks p, vt_write_blocks = mem_write_blocks p,
     vt_flush = mem_flush, vt_block_size = mem_block_size, vt_block_count = mem_block_count,
     vt_open = default_open, vt_close = default_close\<rparr>"

lemma mem_vt_sel [simp]:
  "vt_read_blocks (mem_vt p) = mem_read_blocks p"
  "vt_write_blocks (mem_vt p) = mem_write_blocks p"
  "vt_flush (mem_vt p) = mem_flush"
  "vt_block_size (mem_vt p) = mem_block_size"
  "vt_block_count (mem_vt p) = mem_block_count"
  "vt_open (mem_vt p) = default_open"
  "vt_close (mem_vt p) = default_close"
  by (simp_all add: mem_vt_def)

section \<open>Invariant\<close>

definition mem_wf :: "MemoryBlockDevice \<Rightarrow> bool" where
  "mem_wf d \<longleftrightarrow> mem_block_size d \<noteq> 0 \<and> length (data d) \<le> isize_max \<and>
     length (data d) = unat (mem_block_count d) * unat (mem_block_size d)"

lemma mem_new_cases:
  "MemoryBlockDevice_new p sz bs =
     (if bs = 0 \<or> isize_max < unat sz div unat bs * unat bs then Panic
      else Done \<lparr>data = replicate (unat sz div unat bs * unat bs) 0, mem_block_size = bs,
                 mem_block_count = sz div u64_of_u32 bs\<rparr>)"
proof (cases "bs = 0")
  case False
  have "unat sz div unat bs * unat bs < 2 ^ 64"
    using unat_u64_lt [of sz] by (meson div_times_less_eq_dividend le_less_trans)
  with False show ?thesis
    by (simp add: MemoryBlockDevice_new_def div_u64_def unat_div_word mul_u64_ok unat_mul_u64
        vec_zero_def)
qed (simp add: MemoryBlockDevice_new_def div_u64_def)

lemma mem_new_wf: "MemoryBlockDevice_new p sz bs = Done d \<Longrightarrow> mem_wf d"
  by (auto simp: mem_new_cases mem_wf_def unat_div_word split: if_splits)

lemma mem_from_vec_wf:
  assumes "MemoryBlockDevice_from_vec xs bs = Done d" and "length xs \<le> isize_max"
  shows "mem_wf d \<and> data d = xs \<and> mem_block_size d = bs"
proof -
  have len: "unat (slice_len xs) = length xs"
    using assms(2) by (rule unat_slice_len_isize)
  from assms(1) have bs: "bs \<noteq> 0" and mod0: "slice_len xs mod u64_of_u32 bs = 0"
    and d: "d = \<lparr>data = xs, mem_block_size = bs, mem_block_count = slice_len xs div u64_of_u32 bs\<rparr>"
    by (auto simp: MemoryBlockDevice_from_vec_def div_u64_def split: if_splits)
  have "unat (slice_len xs mod u64_of_u32 bs) = 0" using mod0 by simp
  then have "length xs mod unat bs = 0" by (simp add: unat_mod len)
  then have "length xs = length xs div unat bs * unat bs" by auto
  then show ?thesis using bs d assms(2) by (simp add: mem_wf_def unat_div_word len)
qed

lemma mem_offset_facts:
  assumes "mem_wf d" and "unat b * unat (mem_block_size d) + length buf \<le> length (data d)"
  shows "unat b * unat (mem_block_size d) < 2 ^ 64"
    and "unat (slice_len buf) = length buf"
    and "unat (slice_len (data d)) = length (data d)"
    and "unat b * unat (mem_block_size d) + length buf < 2 ^ 64"
  using assms by (auto simp: mem_wf_def isize_max_def unat_slice_len)

lemma mem_read_in_range:
  assumes "mem_wf d" and "unat b * unat (mem_block_size d) + length buf \<le> length (data d)"
  shows "mem_read_blocks p b buf d =
    Done ((Inr (u32_of_u64 (slice_len buf div u64_of_u32 (mem_block_size d))),
           slice (unat b * unat (mem_block_size d)) (length buf) (data d)), d)"
  using mem_offset_facts [OF assms] assms
  by (simp add: mem_read_blocks_def mul_u64_ok add_u64_ok unat_mul_u64 unat_add_u64 index_range_def
      word_less_nat_alt length_slice div_u64_def mem_wf_def Let_def)

lemma mem_write_in_range:
  assumes "mem_wf d" and "unat b * unat (mem_block_size d) + length buf \<le> length (data d)"
  shows "mem_write_blocks p b buf d =
    Done (Inr (u32_of_u64 (slice_len buf div u64_of_u32 (mem_block_size d))),
      d\<lparr>data := blit (unat b * unat (mem_block_size d)) buf (data d)\<rparr>)"
  using mem_offset_facts [OF assms] assms
  by (simp add: mem_write_blocks_def mul_u64_ok add_u64_ok unat_mul_u64 unat_add_u64 index_range_def
      word_less_nat_alt length_slice div_u64_def mem_wf_def Let_def)

lemma mem_write_same_offset:
  "mul_u64 p b (u64_of_u32 (mem_block_size d)) = mul_u64 p b' (u64_of_u32 (mem_block_size d)) \<Longrightarrow>
   mem_write_blocks p b buf d = mem_write_blocks p b' buf d"
  by (simp only: mem_write_blocks_def)

lemma mem_write_wf:
  assumes "mem_wf d" and "mem_write_blocks p b buf d = Done (r, d')"
  shows "mem_wf d'"
proof -
  have "length (data d') = length (data d) \<and> mem_block_size d' = mem_block_size d \<and>
      mem_block_count d' = mem_block_count d"
    using assms(2)
    by (auto simp: mem_write_blocks_def bind_rust_Done_iff index_range_def Let_def slice_def
        word_le_nat_alt not_less not_le length_blit split: if_splits)
  then show ?thesis using assms(1) by (simp add: mem_wf_def)
qed

interpretation mem: reliable_block_device "mem_vt p" data mem_wf
proof (unfold_locales, goal_cases)
  case (1 d b buf)
  then show ?case using mem_read_in_range [of d b buf p] by (auto simp: length_slice)
next
  case (2 d b buf)
  then show ?case
    using mem_write_in_range [of d b buf p] mem_write_wf [OF 2(1), of p b buf]
    by (intro exI [of _ "Inr (u32_of_u64 (slice_len buf div u64_of_u32 (mem_block_size d)))"]
          exI [of _ "d\<lparr>data := blit (unat b * unat (mem_block_size d)) buf (data d)\<rparr>"]
          exI [of _ "length buf"]) simp
next
  case (3 d)
  then show ?case by (simp add: mem_flush_def)
next
  case (4 d b buf r buf' d')
  then show ?case using mem_read_in_range [of d b buf p] by auto
next
  case (5 d b buf r d')
  then show ?case using mem_write_in_range [of d b buf p] by auto
qed

section \<open>Properties\<close>

text \<open>
  C8: the in-memory device is a disk: any sequence of callback reads and writes within its size
  succeeds, in both build profiles, and its replies and final content are those of a flat byte
  array on which each write replaces exactly the addressed blocks.
\<close>

theorem mem_refines_disk:
  assumes "mem_wf d"
    and "\<forall>c \<in> set cs. cb_in_range (unat (mem_block_size d)) (length (data d)) c"
  shows "\<exists>rs d'. cb_run p (mem_vt p) cs d = Done (rs, d') \<and> mem_wf d' \<and> (\<forall>r \<in> set rs. fst r = 0) \<and>
    (map snd rs, data d') = disk_run (unat (mem_block_size d)) cs (data d)"
  using mem.run_ok [OF assms(1), of cs p p] assms(2) by simp

theorem mem_refines_disk_witness:
  "\<exists>rs d'. cb_run Debug (mem_vt Debug) [CbWrite 1 1 [7, 8], CbRead 0 2 [0, 0, 0, 0]]
      \<lparr>data = [1, 2, 3, 4], mem_block_size = 2, mem_block_count = 2\<rparr> = Done (rs, d') \<and>
    map snd rs = [[7, 8], [1, 2, 7, 8]]"
  using mem_refines_disk [of "\<lparr>data = [1, 2, 3, 4], mem_block_size = 2, mem_block_count = 2\<rparr>"
      "[CbWrite 1 1 [7, 8], CbRead 0 2 [0, 0, 0, 0]]" Debug]
  by (fastforce simp: mem_wf_def isize_max_def slice_def blit_def)

text \<open>
  Construction by size: \<open>new\<close> panics exactly when the block size is 0 or the rounded size
  exceeds what a vector can hold, and otherwise gives a well-formed device of as many whole blocks
  as fit, all of whose bytes are 0.
\<close>

theorem mem_new_spec:
  "case MemoryBlockDevice_new p sz bs of
     Panic \<Rightarrow> bs = 0 \<or> isize_max < unat sz div unat bs * unat bs
   | Done d \<Rightarrow> mem_wf d \<and> mem_block_size d = bs \<and> unat (mem_block_count d) = unat sz div unat bs \<and>
       as_slice d = replicate (unat sz div unat bs * unat bs) 0 \<and> length (as_slice d) \<le> unat sz"
  using mem_new_wf [of p sz bs]
  by (simp add: mem_new_cases as_slice_def unat_div_word)

text \<open>
  Wrapping existing data: \<open>from_vec\<close> panics exactly when the block size is 0 or the length is
  not a multiple of it, and otherwise \<open>into_vec\<close> gives the data back unchanged.
\<close>

theorem mem_from_vec_spec:
  assumes "length xs \<le> isize_max"
  shows "case MemoryBlockDevice_from_vec xs bs of
     Panic \<Rightarrow> bs = 0 \<or> \<not> unat bs dvd length xs
   | Done d \<Rightarrow> bs \<noteq> 0 \<and> unat bs dvd length xs \<and> mem_wf d \<and> into_vec d = xs"
proof -
  have len: "unat (slice_len xs) = length xs" using assms by (rule unat_slice_len_isize)
  have "unat (slice_len xs mod u64_of_u32 bs) = length xs mod unat bs"
    by (simp add: unat_mod len)
  then have dvd: "slice_len xs mod u64_of_u32 bs = 0 \<longleftrightarrow> unat bs dvd length xs"
    using unat_eq_zero [of "slice_len xs mod u64_of_u32 bs"] by (simp add: dvd_eq_mod_eq_0)
  show ?thesis
    using mem_from_vec_wf [of xs bs] assms dvd
    by (auto simp: MemoryBlockDevice_from_vec_def div_u64_def into_vec_def split: rust.splits if_splits)
qed

theorem mem_from_vec_spec_witness:
  "case MemoryBlockDevice_from_vec [1, 2, 3, 4] 2 of
     Panic \<Rightarrow> False
   | Done d \<Rightarrow> mem_wf d \<and> into_vec d = [1, 2, 3, 4]"
  using mem_from_vec_spec [of "[1, 2, 3, 4]" 2]
  by (simp add: isize_max_def split: rust.splits)

text \<open>
  An access whose last byte lies beyond the device, but whose address does not overflow, is
  rejected with an end-of-file error; the buffer of the read and the device stay as they were.
\<close>

theorem mem_out_of_range_rejected:
  assumes "mem_wf d" and "length buf \<le> isize_max"
    and "unat b * unat (mem_block_size d) + length buf < 2 ^ 64"
    and "length (data d) < unat b * unat (mem_block_size d) + length buf"
  shows "(\<exists>m. mem_read_blocks p b buf d = Done ((Inl (Io (Simple UnexpectedEof m)), buf), d)) \<and>
    (\<exists>m. mem_write_blocks p b buf d = Done (Inl (Io (Simple UnexpectedEof m)), d))"
proof -
  have "unat (slice_len (data d)) = length (data d)" and "unat (slice_len buf) = length buf"
    using assms by (auto simp: mem_wf_def unat_slice_len_isize)
  with assms show ?thesis
    by (simp add: mem_read_blocks_def mem_write_blocks_def mul_u64_ok add_u64_ok unat_mul_u64
        unat_add_u64 word_less_nat_alt Let_def)
qed

theorem mem_out_of_range_rejected_witness:
  "(\<exists>m. mem_write_blocks Debug 2 [9, 9]
      \<lparr>data = [1, 2, 3, 4], mem_block_size = 2, mem_block_count = 2\<rparr>
    = Done (Inl (Io (Simple UnexpectedEof m)),
      \<lparr>data = [1, 2, 3, 4], mem_block_size = 2, mem_block_count = 2\<rparr>))"
  using mem_out_of_range_rejected
    [of "\<lparr>data = [1, 2, 3, 4], mem_block_size = 2, mem_block_count = 2\<rparr>" "[9, 9]" 2 Debug]
  by (simp add: mem_wf_def isize_max_def)

text \<open>
  C37: the bounds check is made on the wrapped offset: in a build without overflow checks, a block
  number that is 2^55 too large addresses the same 512-byte block, so a write far beyond the end
  of the device succeeds and overwrites block \<open>b\<close>; with overflow checks it panics.
\<close>

theorem mem_write_offset_wraps:
  assumes "mem_wf d" and "mem_block_size d = 512" and "length buf = 512"
    and "unat b < unat (mem_block_count d)" and "unat b < 2 ^ 55"
  shows "mem_write_blocks Release (b + 2 ^ 55) buf d =
      Done (Inr 1, d\<lparr>data := blit (unat b * 512) buf (data d)\<rparr>) \<and>
    mem_write_blocks Debug (b + 2 ^ 55) buf d = Panic"
proof -
  have u512: "u64_of_u32 512 = 512" by (simp add: u64_of_u32_def)
  have len: "slice_len buf = 512" using assms(3) by (simp add: slice_len_def)
  have "(unat b + 1) * 512 \<le> unat (mem_block_count d) * 512"
    using assms(4) by (intro mult_le_mono1) simp
  then have rng: "unat b * unat (mem_block_size d) + length buf \<le> length (data d)"
    using assms(1,2,3) by (simp add: mem_wf_def)
  have "(2 ^ 55 * 512 :: u64) = 0" by code_simp
  then have same: "(b + 2 ^ 55) * 512 = b * 512" by (simp only: distrib_right add_0_right)
  have "mem_write_blocks Release (b + 2 ^ 55) buf d = mem_write_blocks Release b buf d"
    using same by (intro mem_write_same_offset) (simp only: mul_u64_def assms(2) u512, simp)
  also have "\<dots> = Done (Inr 1, d\<lparr>data := blit (unat b * 512) buf (data d)\<rparr>)"
    using mem_write_in_range [OF assms(1) rng, of Release] assms(2)
    by (simp add: u512 len u32_of_u64_def)
  finally have rel: "mem_write_blocks Release (b + 2 ^ 55) buf d =
      Done (Inr 1, d\<lparr>data := blit (unat b * 512) buf (data d)\<rparr>)" .
  have "unat (b + 2 ^ 55) = unat b + 2 ^ 55"
    using assms(5) unat_add_u64 [of b "2 ^ 55"] by simp
  then have "mul_u64 Debug (b + 2 ^ 55) (u64_of_u32 (mem_block_size d)) = Panic"
    by (simp add: mul_u64_def assms(2))
  then have "mem_write_blocks Debug (b + 2 ^ 55) buf d = Panic"
    by (simp add: mem_write_blocks_def)
  with rel show ?thesis by blast
qed

theorem mem_write_offset_wraps_witness:
  "mem_write_blocks Release (0 + 2 ^ 55) (replicate 512 0xAA)
      \<lparr>data = replicate 512 0, mem_block_size = 512, mem_block_count = 1\<rparr> =
    Done (Inr 1, \<lparr>data = blit 0 (replicate 512 0xAA) (replicate 512 0), mem_block_size = 512,
      mem_block_count = 1\<rparr>)"
  using mem_write_offset_wraps [of "\<lparr>data = replicate 512 0, mem_block_size = 512,
      mem_block_count = 1\<rparr>" "replicate 512 0xAA" 0]
  by (simp add: mem_wf_def isize_max_def)

end
