(* ===== verification/Wrapper.thy ===== *)
theory Wrapper
  imports Sys MemoryDev
begin

text \<open>
  \<open>blockdev/mod.rs\<close>: the wrapper that makes a Rust device usable from C. The boxes it allocates
  live in an explicit heap, because what makes the callbacks correct is that the pointers set up by
  \<open>BlockDeviceWrapper::new\<close> lead back from the C structure to the wrapper.
\<close>

section \<open>Heap\<close>

record 'd BlockDeviceWrapper =
  w_device :: 'd
  w_vt :: "'d block_device"
  w_buffer :: addr
  w_bdif :: addr
  w_bdev :: addr

record 'd rheap =
  h_bufs :: "addr \<rightharpoonup> bytes"
  h_bdifs :: "addr \<rightharpoonup> ext4_blockdev_iface"
  h_bdevs :: "addr \<rightharpoonup> ext4_blockdev"
  h_wrappers :: "addr \<rightharpoonup> 'd BlockDeviceWrapper"
  h_next :: addr

definition empty_heap :: "'d rheap" where
  "empty_heap = \<lparr>h_bufs = Map.empty, h_bdifs = Map.empty, h_bdevs = Map.empty,
     h_wrappers = Map.empty, h_next = 1\<rparr>"

section \<open>Construction\<close>

text \<open>
  The four boxes are allocated in the order of the code, with null pointers where the code
  says that they are set later; then the three assignments of the fix-up block.
\<close>

definition BlockDeviceWrapper_new ::
  "profile \<Rightarrow> 'd block_device \<Rightarrow> 'd \<Rightarrow> ('d rheap, addr) comp" where
  "BlockDeviceWrapper_new p V device = (\<lambda>h.
     let block_size = vt_block_size V device;
         block_count = vt_block_count V device;
         buffer = h_next h;
         h = h\<lparr>h_bufs := (h_bufs h)(buffer \<mapsto> replicate (unat block_size) 0), h_next := h_next h + 1\<rparr>;
         bdif = h_next h;
         h = h\<lparr>h_bdifs := (h_bdifs h)(bdif \<mapsto>
               \<lparr>if_open = Some Blockdev_open, if_bread = Some Blockdev_bread,
                if_bwrite = Some Blockdev_bwrite, if_close = Some Blockdev_close,
                if_lock = Some Blockdev_lock, if_unlock = Some Blockdev_unlock,
                ph_bsize = block_size, ph_bcnt = block_count, ph_bbuf = 0, ph_refctr = 0,
                bread_ctr = 0, bwrite_ctr = 0, p_user = 0\<rparr>), h_next := h_next h + 1\<rparr> in
     bind_rust (mul_u64 p block_count (u64_of_u32 block_size)) (\<lambda>part_sz.
     let bdev = h_next h;
         h = h\<lparr>h_bdevs := (h_bdevs h)(bdev \<mapsto>
               \<lparr>bd_bdif = 0, part_offset = 0, part_size = part_sz, bd_bc = 0, lg_bsize = 0,
                lg_bcnt = 0, cache_write_back = 0, bd_fs = 0, bd_journal = 0\<rparr>),
               h_next := h_next h + 1\<rparr>;
         wrapper = h_next h;
         h = h\<lparr>h_wrappers := (h_wrappers h)(wrapper \<mapsto>
               \<lparr>w_device = device, w_vt = V, w_buffer = buffer, w_bdif = bdif, w_bdev = bdev\<rparr>),
               h_next := h_next h + 1\<rparr>;
         h = h\<lparr>h_bdifs := (h_bdifs h)(bdif := map_option (\<lambda>i. i\<lparr>ph_bbuf := buffer\<rparr>) (h_bdifs h bdif))\<rparr>;
         h = h\<lparr>h_bdifs := (h_bdifs h)(bdif := map_option (\<lambda>i. i\<lparr>p_user := wrapper\<rparr>) (h_bdifs h bdif))\<rparr>;
         h = h\<lparr>h_bdevs := (h_bdevs h)(bdev := map_option (\<lambda>b. b\<lparr>bd_bdif := bdif\<rparr>) (h_bdevs h bdev))\<rparr>
     in Done (wrapper, h)))"

text \<open>Dropping the \<open>Pin<Box<Self>>\<close> frees the wrapper and the boxes it owns.\<close>

definition BlockDeviceWrapper_drop :: "addr \<Rightarrow> 'd rheap \<Rightarrow> 'd rheap" where
  "BlockDeviceWrapper_drop a h = (case h_wrappers h a of
     None \<Rightarrow> h
   | Some w \<Rightarrow> h\<lparr>h_bufs := (h_bufs h)(w_buffer w := None), h_bdifs := (h_bdifs h)(w_bdif w := None),
                h_bdevs := (h_bdevs h)(w_bdev w := None), h_wrappers := (h_wrappers h)(a := None)\<rparr>)"

text \<open>\<open>None\<close> is a null or dangling pointer.\<close>

definition as_bdev_ptr :: "'d rheap \<Rightarrow> addr \<Rightarrow> addr option" where
  "as_bdev_ptr h a = map_option w_bdev (h_wrappers h a)"

text \<open>
  \<open>device_mut\<close> borrows the device: its value, and the heap once the borrower has stored another.
\<close>

definition device_mut :: "'d rheap \<Rightarrow> addr \<Rightarrow> ('d \<times> ('d \<Rightarrow> 'd rheap)) option" where
  "device_mut h a = map_option (\<lambda>w. (w_device w,
     \<lambda>d. h\<lparr>h_wrappers := (h_wrappers h)(a \<mapsto> w\<lparr>w_device := d\<rparr>)\<rparr>)) (h_wrappers h a)"

section \<open>Callbacks\<close>

definition get_wrapper :: "'d rheap \<Rightarrow> addr \<Rightarrow> addr option" where
  "get_wrapper h bdev =
     Option.bind (h_bdevs h bdev) (\<lambda>b.
     Option.bind (h_bdifs h (bd_bdif b)) (\<lambda>i.
       if h_wrappers h (p_user i) = None then None else Some (p_user i)))"

text \<open>
  A callback finds the wrapper and runs a computation on its device. \<open>None\<close>: the pointer chain
  is broken, which is undefined behaviour in the code.
\<close>

definition with_device ::
  "addr \<Rightarrow> ('d block_device \<Rightarrow> ('d, 'r) comp) \<Rightarrow> 'd rheap \<Rightarrow> ('r \<times> 'd rheap) rust option" where
  "with_device bdev m h =
     Option.bind (get_wrapper h bdev) (\<lambda>a.
     Option.bind (h_wrappers h a) (\<lambda>w.
       Some (bind_rust (m (w_vt w) (w_device w)) (\<lambda>(r, d).
         Done (r, h\<lparr>h_wrappers := (h_wrappers h)(a \<mapsto> w\<lparr>w_device := d\<rparr>)\<rparr>)))))"

definition blockdev_open :: "addr \<Rightarrow> 'd rheap \<Rightarrow> (i32 \<times> 'd rheap) rust option" where
  "blockdev_open bdev = with_device bdev dev_open"

definition blockdev_bread ::
  "profile \<Rightarrow> addr \<Rightarrow> bytes \<Rightarrow> u64 \<Rightarrow> u32 \<Rightarrow> 'd rheap \<Rightarrow> ((i32 \<times> bytes) \<times> 'd rheap) rust option" where
  "blockdev_bread p bdev buf blk_id blk_cnt = with_device bdev (\<lambda>V. dev_bread p V buf blk_id blk_cnt)"

definition blockdev_bwrite ::
  "profile \<Rightarrow> addr \<Rightarrow> bytes \<Rightarrow> u64 \<Rightarrow> u32 \<Rightarrow> 'd rheap \<Rightarrow> (i32 \<times> 'd rheap) rust option" where
  "blockdev_bwrite p bdev buf blk_id blk_cnt =
     with_device bdev (\<lambda>V. dev_bwrite p V buf blk_id blk_cnt)"

definition blockdev_close :: "addr \<Rightarrow> 'd rheap \<Rightarrow> (i32 \<times> 'd rheap) rust option" where
  "blockdev_close bdev = with_device bdev dev_close"

definition blockdev_lock :: "addr \<Rightarrow> i32" where
  "blockdev_lock bdev = 0"

definition blockdev_unlock :: "addr \<Rightarrow> i32" where
  "blockdev_unlock bdev = 0"

section \<open>Well-formed heaps\<close>

text \<open>
  Every live wrapper owns its three boxes, its pointers lead back to it, and everything live is
  below the allocation mark and not null. (Two wrappers cannot share a box: its pointers
  lead to one wrapper only.)
\<close>

definition wired :: "'d rheap \<Rightarrow> addr \<Rightarrow> 'd BlockDeviceWrapper \<Rightarrow> bool" where
  "wired h a w \<longleftrightarrow>
     (\<exists>b i buf. h_bdevs h (w_bdev w) = Some b \<and> bd_bdif b = w_bdif w \<and>
        h_bdifs h (w_bdif w) = Some i \<and> p_user i = a \<and> ph_bbuf i = w_buffer w \<and>
        h_bufs h (w_buffer w) = Some buf \<and> w_bdev w \<noteq> 0)"

definition below_mark :: "'d rheap \<Rightarrow> bool" where
  "below_mark h \<longleftrightarrow>
     (\<forall>x. h_next h \<le> x \<longrightarrow> h_bufs h x = None \<and> h_bdifs h x = None \<and> h_bdevs h x = None \<and>
        h_wrappers h x = None) \<and> 0 < h_next h"

definition heap_wf :: "'d rheap \<Rightarrow> bool" where
  "heap_wf h \<longleftrightarrow> below_mark h \<and> (\<forall>a w. h_wrappers h a = Some w \<longrightarrow> wired h a w) \<and>
     (\<forall>a1 a2 w1 w2. h_wrappers h a1 = Some w1 \<and> h_wrappers h a2 = Some w2 \<and>
        w_buffer w1 = w_buffer w2 \<longrightarrow> a1 = a2)"

lemma heap_wf_empty: "heap_wf empty_heap"
  by (simp add: heap_wf_def below_mark_def empty_heap_def)

lemma below_markD:
  assumes "below_mark h" and "h_next h \<le> x"
  shows "h_bufs h x = None" "h_bdifs h x = None" "h_bdevs h x = None" "h_wrappers h x = None"
  using assms by (auto simp: below_mark_def)

lemma live_below_mark:
  assumes "below_mark h"
  shows "h_bufs h x = Some y1 \<Longrightarrow> x < h_next h" "h_bdifs h x = Some y2 \<Longrightarrow> x < h_next h"
    "h_bdevs h x = Some y3 \<Longrightarrow> x < h_next h" "h_wrappers h x = Some y4 \<Longrightarrow> x < h_next h"
  using below_markD [OF assms, of x] by (metis not_less option.distinct(1))+

lemma heap_wf_wired: "heap_wf h \<Longrightarrow> h_wrappers h a = Some w \<Longrightarrow> wired h a w"
  by (simp add: heap_wf_def)

lemma wired_get_wrapper:
  "wired h a w \<Longrightarrow> h_wrappers h a = Some w \<Longrightarrow> get_wrapper h (w_bdev w) = Some a"
  by (auto simp: wired_def get_wrapper_def)

lemma wired_inject_bdev:
  "wired h a w \<Longrightarrow> wired h a' w' \<Longrightarrow> w_bdev w = w_bdev w' \<or> w_bdif w = w_bdif w' \<Longrightarrow> a = a'"
  by (auto simp: wired_def)

text \<open>What construction does to the heap, in closed form.\<close>

definition fresh_iface :: "'d block_device \<Rightarrow> 'd \<Rightarrow> addr \<Rightarrow> addr \<Rightarrow> ext4_blockdev_iface" where
  "fresh_iface V d buffer wrapper =
     \<lparr>if_open = Some Blockdev_open, if_bread = Some Blockdev_bread,
      if_bwrite = Some Blockdev_bwrite, if_close = Some Blockdev_close,
      if_lock = Some Blockdev_lock, if_unlock = Some Blockdev_unlock,
      ph_bsize = vt_block_size V d, ph_bcnt = vt_block_count V d, ph_bbuf = buffer, ph_refctr = 0,
      bread_ctr = 0, bwrite_ctr = 0, p_user = wrapper\<rparr>"

definition fresh_bdev :: "u64 \<Rightarrow> addr \<Rightarrow> ext4_blockdev" where
  "fresh_bdev sz bdif =
     \<lparr>bd_bdif = bdif, part_offset = 0, part_size = sz, bd_bc = 0, lg_bsize = 0,
      lg_bcnt = 0, cache_write_back = 0, bd_fs = 0, bd_journal = 0\<rparr>"

lemma wrapper_new_eq:
  "BlockDeviceWrapper_new p V d h =
     bind_rust (mul_u64 p (vt_block_count V d) (u64_of_u32 (vt_block_size V d))) (\<lambda>sz.
       let n = h_next h in
       Done (n + 3, h\<lparr>h_bufs := (h_bufs h)(n \<mapsto> replicate (unat (vt_block_size V d)) 0),
         h_bdifs := (h_bdifs h)(n + 1 \<mapsto> fresh_iface V d n (n + 3)),
         h_bdevs := (h_bdevs h)(n + 2 \<mapsto> fresh_bdev sz (n + 1)),
         h_wrappers := (h_wrappers h)(n + 3 \<mapsto>
            \<lparr>w_device = d, w_vt = V, w_buffer = n, w_bdif = n + 1, w_bdev = n + 2\<rparr>),
         h_next := n + 4\<rparr>))"
  by (cases "mul_u64 p (vt_block_count V d) (u64_of_u32 (vt_block_size V d))")
    (simp_all add: BlockDeviceWrapper_new_def Let_def fresh_iface_def fresh_bdev_def
      eval_nat_numeral)

lemma wrapper_new_wf:
  assumes wf: "heap_wf h" and new: "BlockDeviceWrapper_new p V d h = Done (a, h')"
  shows "heap_wf h' \<and> h_wrappers h a = None \<and>
    (\<exists>w. h_wrappers h' = (h_wrappers h)(a \<mapsto> w) \<and> w_device w = d \<and> w_vt w = V \<and>
       get_wrapper h' (w_bdev w) = Some a)"
proof -
  have bm: "below_mark h" using wf by (simp add: heap_wf_def)
  note fr = below_markD [OF bm] and live = live_below_mark [OF bm]
  let ?n = "h_next h"
  let ?w = "\<lparr>w_device = d, w_vt = V, w_buffer = ?n, w_bdif = ?n + 1, w_bdev = ?n + 2\<rparr>"
  from new obtain sz where a: "a = ?n + 3" and h': "h' = h\<lparr>
      h_bufs := (h_bufs h)(?n \<mapsto> replicate (unat (vt_block_size V d)) 0),
      h_bdifs := (h_bdifs h)(?n + 1 \<mapsto> fresh_iface V d ?n (?n + 3)),
      h_bdevs := (h_bdevs h)(?n + 2 \<mapsto> fresh_bdev sz (?n + 1)),
      h_wrappers := (h_wrappers h)(?n + 3 \<mapsto> ?w), h_next := ?n + 4\<rparr>"
    by (auto simp: wrapper_new_eq bind_rust_Done_iff Let_def)
  have bm': "below_mark h'" using fr by (simp add: h' below_mark_def)
  have old: "wired h' x w" if "wired h x w" for x w
    using that live by (fastforce simp: wired_def h')
  have new_wired: "wired h' a ?w" by (simp add: wired_def h' a fresh_iface_def fresh_bdev_def)
  have bufs: "w_buffer w < ?n" if "h_wrappers h x = Some w" for x w
    using heap_wf_wired [OF wf that] live(1) by (auto simp: wired_def)
  have "heap_wf h'"
    unfolding heap_wf_def
  proof (intro conjI allI impI)
    show "below_mark h'" by (rule bm')
  next
    fix x w assume "h_wrappers h' x = Some w"
    then show "wired h' x w"
      using old new_wired heap_wf_wired [OF wf, of x w] a by (auto simp: h' split: if_splits)
  next
    fix a1 a2 w1 w2
    assume "h_wrappers h' a1 = Some w1 \<and> h_wrappers h' a2 = Some w2 \<and> w_buffer w1 = w_buffer w2"
    then show "a1 = a2"
      using wf bufs [of a1 w1] bufs [of a2 w2] by (auto simp: h' heap_wf_def split: if_splits)
  qed
  moreover have "h_wrappers h' a = Some ?w" by (simp add: h' a)
  ultimately show ?thesis
    using wired_get_wrapper [OF new_wired] fr(4) [of a] a by (auto simp: h')
qed

lemma with_device_wf:
  assumes wf: "heap_wf h" and a: "h_wrappers h a = Some w"
  shows "with_device (w_bdev w) m h = Some (bind_rust (m (w_vt w) (w_device w)) (\<lambda>(r, d).
     Done (r, h\<lparr>h_wrappers := (h_wrappers h)(a \<mapsto> w\<lparr>w_device := d\<rparr>)\<rparr>)))"
  using wired_get_wrapper [OF heap_wf_wired [OF wf a] a] a by (simp add: with_device_def)

lemma heap_wf_set_device:
  assumes wf: "heap_wf h" and a: "h_wrappers h a = Some w"
  shows "heap_wf (h\<lparr>h_wrappers := (h_wrappers h)(a \<mapsto> w\<lparr>w_device := d\<rparr>)\<rparr>)"
proof -
  have "wired h x v \<Longrightarrow> wired (h\<lparr>h_wrappers := W\<rparr>) x v" for x v W by (simp add: wired_def)
  moreover have "wired h a (w\<lparr>w_device := d\<rparr>)" using heap_wf_wired [OF wf a] by (simp add: wired_def)
  moreover have "below_mark (h\<lparr>h_wrappers := (h_wrappers h)(a \<mapsto> w\<lparr>w_device := d\<rparr>)\<rparr>)"
    using wf a live_below_mark(4) [of h a w] by (auto simp: heap_wf_def below_mark_def)
  ultimately show ?thesis
    using wf a unfolding heap_wf_def by (auto split: if_splits)
qed

lemma wrapper_drop_wf:
  assumes wf: "heap_wf h" and a: "h_wrappers h a = Some w"
  shows "heap_wf (BlockDeviceWrapper_drop a h) \<and>
    h_wrappers (BlockDeviceWrapper_drop a h) = (h_wrappers h)(a := None)"
proof -
  let ?h = "BlockDeviceWrapper_drop a h"
  have h: "?h = h\<lparr>h_bufs := (h_bufs h)(w_buffer w := None),
      h_bdifs := (h_bdifs h)(w_bdif w := None), h_bdevs := (h_bdevs h)(w_bdev w := None),
      h_wrappers := (h_wrappers h)(a := None)\<rparr>"
    by (simp add: BlockDeviceWrapper_drop_def a)
  have keep: "wired ?h x v" if v: "h_wrappers h x = Some v" and x: "x \<noteq> a" for x v
  proof -
    note wv = heap_wf_wired [OF wf v] and ww = heap_wf_wired [OF wf a]
    have "w_bdev v \<noteq> w_bdev w" "w_bdif v \<noteq> w_bdif w"
      using wired_inject_bdev [OF wv ww] x by auto
    moreover have "w_buffer v \<noteq> w_buffer w"
      using wf v a x by (auto simp: heap_wf_def)
    ultimately show ?thesis using wv by (auto simp: wired_def h)
  qed
  have "below_mark ?h" using wf by (auto simp: heap_wf_def below_mark_def h)
  with keep wf show ?thesis by (auto simp: heap_wf_def h split: if_splits)
qed

section \<open>Properties\<close>

text \<open>
  The wrapper's pointers are wired correctly and stay so: in a well-formed heap construction
  allocates a wrapper at an unused address, whose C structure leads back to it, keeps every other
  wrapper as it was, and leaves a well-formed heap.
\<close>

theorem wrapper_new_wires:
  assumes "heap_wf h" and "BlockDeviceWrapper_new p V d h = Done (a, h')"
  shows "heap_wf h' \<and> h_wrappers h a = None \<and>
    (\<exists>bdev w. as_bdev_ptr h' a = Some bdev \<and> get_wrapper h' bdev = Some a \<and>
       h_wrappers h' a = Some w \<and> w_device w = d \<and> w_vt w = V) \<and>
    (\<forall>x. x \<noteq> a \<longrightarrow> h_wrappers h' x = h_wrappers h x)"
  using wrapper_new_wf [OF assms] by (auto simp: as_bdev_ptr_def)

theorem wrapper_new_wires_witness:
  "\<exists>a h' bdev w. BlockDeviceWrapper_new Debug (mem_vt Debug)
       \<lparr>data = [1, 2, 3, 4], mem_block_size = 2, mem_block_count = 2\<rparr> empty_heap = Done (a, h') \<and>
     heap_wf h' \<and> as_bdev_ptr h' a = Some bdev \<and> get_wrapper h' bdev = Some a \<and>
     h_wrappers h' a = Some w \<and> data (w_device w) = [1, 2, 3, 4]"
proof -
  let ?d = "\<lparr>data = [1, 2, 3, 4], mem_block_size = 2, mem_block_count = 2\<rparr>"
  obtain a h' where "BlockDeviceWrapper_new Debug (mem_vt Debug) ?d empty_heap = Done (a, h')"
    by (simp add: wrapper_new_eq mul_u64_def Let_def u64_of_u32_def)
  with wrapper_new_wires [OF heap_wf_empty this] show ?thesis by fastforce
qed

text \<open>
  C30: callbacks of different devices do not interfere: a read or write through one wrapper's C
  structure never meets a broken pointer, changes that wrapper's device only, leaves every other
  wrapper's device untouched and the heap well-formed, and answers what the device half answers.
\<close>

theorem callbacks_isolated:
  assumes "heap_wf h" and "h_wrappers h a = Some w" and "as_bdev_ptr h a = Some bdev"
  shows "blockdev_bread p bdev buf b n h = Some (bind_rust (dev_bread p (w_vt w) buf b n (w_device w))
      (\<lambda>(r, d). Done (r, h\<lparr>h_wrappers := (h_wrappers h)(a \<mapsto> w\<lparr>w_device := d\<rparr>)\<rparr>))) \<and>
    blockdev_bwrite p bdev buf b n h = Some (bind_rust (dev_bwrite p (w_vt w) buf b n (w_device w))
      (\<lambda>(r, d). Done (r, h\<lparr>h_wrappers := (h_wrappers h)(a \<mapsto> w\<lparr>w_device := d\<rparr>)\<rparr>))) \<and>
    (\<forall>r h'. blockdev_bwrite p bdev buf b n h = Some (Done (r, h')) \<longrightarrow>
       heap_wf h' \<and> (\<forall>x. x \<noteq> a \<longrightarrow> h_wrappers h' x = h_wrappers h x))"
proof -
  have bdev: "bdev = w_bdev w" using assms(2,3) by (simp add: as_bdev_ptr_def)
  have "blockdev_bwrite p bdev buf b n h = Some (Done (r, h')) \<Longrightarrow>
      heap_wf h' \<and> (\<forall>x. x \<noteq> a \<longrightarrow> h_wrappers h' x = h_wrappers h x)" for r h'
    using heap_wf_set_device [OF assms(1,2)]
    by (auto simp: blockdev_bwrite_def bdev with_device_wf [OF assms(1,2)] bind_rust_Done_iff)
  then show ?thesis
    by (simp add: blockdev_bread_def blockdev_bwrite_def bdev with_device_wf [OF assms(1,2)])
qed

theorem callbacks_isolated_witness:
  "\<exists>a (h :: MemoryBlockDevice rheap) bdev r h'. h_wrappers h a \<noteq> None \<and>
     blockdev_bwrite Debug bdev [7, 8] 1 1 h = Some (Done (r, h')) \<and> r = 0 \<and> heap_wf h' \<and>
     map_option (data \<circ> w_device) (h_wrappers h' a) = Some [1, 2, 7, 8]"
proof -
  let ?d = "\<lparr>data = [1, 2, 3, 4], mem_block_size = 2, mem_block_count = 2\<rparr>"
  have "BlockDeviceWrapper_new Debug (mem_vt Debug) ?d empty_heap \<noteq> Panic"
    by (simp add: wrapper_new_eq mul_u64_def Let_def u64_of_u32_def)
  then obtain a h where new: "BlockDeviceWrapper_new Debug (mem_vt Debug) ?d empty_heap = Done (a, h)"
    by (cases "BlockDeviceWrapper_new Debug (mem_vt Debug) ?d empty_heap") auto
  from wrapper_new_wf [OF heap_wf_empty new] obtain w where
    h: "heap_wf h" "h_wrappers h a = Some w" "w_device w = ?d" "w_vt w = mem_vt Debug"
    by auto
  have "dev_bwrite Debug (mem_vt Debug) [7, 8] 1 1 ?d =
      Done (0, \<lparr>data = [1, 2, 7, 8], mem_block_size = 2, mem_block_count = 2\<rparr>)"
    by (simp add: dev_bwrite_def rust_simps seq_st_def mem_write_in_range mem_wf_def isize_max_def blit_def)
  moreover have bdev: "as_bdev_ptr h a = Some (w_bdev w)" using h(2) by (simp add: as_bdev_ptr_def)
  moreover define h' where "h' = h\<lparr>h_wrappers := (h_wrappers h)(a \<mapsto> w\<lparr>w_device :=
        \<lparr>data = [1, 2, 7, 8], mem_block_size = 2, mem_block_count = 2\<rparr>\<rparr>)\<rparr>"
  ultimately have run: "blockdev_bwrite Debug (w_bdev w) [7, 8] 1 1 h = Some (Done (0, h'))"
    using callbacks_isolated [OF h(1,2) bdev, of Debug "[7, 8]" 1 1] h(3,4) by simp
  then have "heap_wf h'" using callbacks_isolated [OF h(1,2) bdev] by blast
  moreover have "map_option (data \<circ> w_device) (h_wrappers h' a) = Some [1, 2, 7, 8]"
    by (simp add: h'_def)
  moreover have "h_wrappers h a \<noteq> None" using h(2) by simp
  ultimately show ?thesis using run by blast
qed

end
