(* ===== verification/FsCore.thy ===== *)
theory FsCore
  imports Wrapper
begin

text \<open>
  The handle of a mounted file system (\<open>fs.rs\<close>): unique names from the static counter,
  \<open>mount\<close> with its clean-up, \<open>umount\<close> and the destructor, and the path every operation
  passes to lwext4.
\<close>

section \<open>The handle\<close>

text \<open>What lwext4 reaches: its own state and the boxes of the wrappers.\<close>

record ('s, 'd) cworld =
  lib :: 's
  heap :: "'d rheap"

type_synonym ('s, 'd) process = "('s, 'd) cworld world"

record Ext4Fs =
  wrapper :: addr
  device_name :: string
  mount_point :: string
  read_only :: bool
  journal_active :: bool

definition dev_name :: "u64 \<Rightarrow> string" where
  "dev_name did = ''ext4dev'' @ decimal (unat did)"

definition mp_name :: "u64 \<Rightarrow> string" where
  "mp_name did = ''/mp'' @ decimal (unat did) @ ''/''"

section \<open>Building blocks\<close>

text \<open>\<open>DEVICE_COUNTER.fetch_add(1, SeqCst)\<close>: the old value; the counter wraps.\<close>

definition fetch_add_counter :: "('w world, u64) comp" where
  "fetch_add_counter = (\<lambda>w. Done (counter w, w\<lparr>counter := counter w + 1\<rparr>))"

definition unwrap_res :: "'e + 'a \<Rightarrow> ('s, 'a) comp" where
  "unwrap_res r = (\<lambda>s. case r of Inl e \<Rightarrow> Panic | Inr x \<Rightarrow> Done (x, s))"

definition lift_rust :: "'a rust \<Rightarrow> ('s, 'a) comp" where
  "lift_rust m = (\<lambda>s. bind_rust m (\<lambda>x. Done (x, s)))"

definition alloc_wrapper ::
  "profile \<Rightarrow> 'd block_device \<Rightarrow> 'd \<Rightarrow> (('s, 'd) process, addr) comp" where
  "alloc_wrapper p V device = (\<lambda>w.
     bind_rust (BlockDeviceWrapper_new p V device (heap (cst w))) (\<lambda>(a, h).
       Done (a, w\<lparr>cst := (cst w)\<lparr>heap := h\<rparr>\<rparr>)))"

definition free_wrapper :: "addr \<Rightarrow> (('s, 'd) process, unit) comp" where
  "free_wrapper a = (\<lambda>w.
     Done ((), w\<lparr>cst := (cst w)\<lparr>heap := BlockDeviceWrapper_drop a (heap (cst w))\<rparr>\<rparr>))"

text \<open>\<open>wrapper.as_bdev_ptr()\<close> of a live wrapper.\<close>

definition bdev_ptr :: "addr \<Rightarrow> (('s, 'd) process, addr) comp" where
  "bdev_ptr a = (\<lambda>w. case as_bdev_ptr (heap (cst w)) a of
     None \<Rightarrow> Panic | Some bdev \<Rightarrow> Done (bdev, w))"

text \<open>A call whose return code is ignored.\<close>

definition ignore :: "('s, 'r) comp \<Rightarrow> ('s, unit) comp" where
  "ignore m = seq_st m (\<lambda>_. ret_st ())"

definition when_st :: "bool \<Rightarrow> ('s, unit) comp \<Rightarrow> ('s, unit) comp" where
  "when_st b m = (if b then m else ret_st ())"

section \<open>mount, umount, drop\<close>

text \<open>
  Each early return drops the wrapper, as does the destructor of the handle after its body.
\<close>

definition mount ::
  "profile \<Rightarrow> ('s, 'd) cworld lwext4 \<Rightarrow> 'd block_device \<Rightarrow> 'd \<Rightarrow> bool \<Rightarrow>
   (('s, 'd) process, error + Ext4Fs) comp" where
  "mount p L V device ro =
     seq_st fetch_add_counter (\<lambda>did.
     seq_st (unwrap_res (cstring_new (dev_name did))) (\<lambda>dev.
     seq_st (unwrap_res (cstring_new (mp_name did))) (\<lambda>mp.
     seq_st (alloc_wrapper p V device) (\<lambda>wr.
     seq_st (bdev_ptr wr) (\<lambda>bdev.
     seq_st (ext4_device_register L bdev dev) (\<lambda>ret.
     seq_st (lift_rust (check_errno ret)) (\<lambda>r. case r of
       Inl e \<Rightarrow> seq_st (free_wrapper wr) (\<lambda>_. ret_st (Inl e))
     | Inr _ \<Rightarrow>
     seq_st (ext4_mount L dev mp ro) (\<lambda>ret.
     if ret \<noteq> 0 then
       seq_st (ext4_device_unregister L dev) (\<lambda>_.
       seq_st (lift_rust (error_from ret)) (\<lambda>e.
       seq_st (free_wrapper wr) (\<lambda>_. ret_st (Inl e))))
     else
     seq_st (ext4_recover L mp) (\<lambda>_.
     seq_st (if \<not> ro then seq_st (ext4_journal_start L mp) (\<lambda>ret. ret_st (ret = 0))
             else ret_st False) (\<lambda>journal.
     ret_st (Inr \<lparr>wrapper = wr, device_name = dev, mount_point = mp, read_only = ro,
                  journal_active = journal\<rparr>)))))))))))"

definition Ext4Fs_drop ::
  "('s, 'd) cworld lwext4 \<Rightarrow> Ext4Fs \<Rightarrow> (('s, 'd) process, unit) comp" where
  "Ext4Fs_drop L self =
     seq_st (when_st (journal_active self) (ignore (ext4_journal_stop L (mount_point self)))) (\<lambda>_.
     seq_st (ext4_cache_flush L (mount_point self)) (\<lambda>_.
     seq_st (ext4_umount L (mount_point self)) (\<lambda>_.
     seq_st (ext4_device_unregister L (device_name self)) (\<lambda>_.
     free_wrapper (wrapper self)))))"

text \<open>\<open>umount\<close> takes the handle by value, so the destructor runs on every way out of it.\<close>

definition umount_body ::
  "('s, 'd) cworld lwext4 \<Rightarrow> Ext4Fs \<Rightarrow> (('s, 'd) process, error + unit) comp" where
  "umount_body L self =
     seq_st (when_st (journal_active self) (ignore (ext4_journal_stop L (mount_point self)))) (\<lambda>_.
     seq_st (ext4_cache_flush L (mount_point self)) (\<lambda>_.
     seq_st (ext4_umount L (mount_point self)) (\<lambda>ret.
     try_st (lift_rust (check_errno ret)) (\<lambda>_.
     seq_st (ext4_device_unregister L (device_name self)) (\<lambda>ret.
     try_st (lift_rust (check_errno ret)) (\<lambda>_.
     ret_st (Inr ())))))))"

definition umount ::
  "('s, 'd) cworld lwext4 \<Rightarrow> Ext4Fs \<Rightarrow> (('s, 'd) process, error + unit) comp" where
  "umount L self = seq_st (umount_body L self) (\<lambda>r. seq_st (Ext4Fs_drop L self) (\<lambda>_. ret_st r))"

section \<open>Paths\<close>

definition Ext4Fs_mount_point :: "Ext4Fs \<Rightarrow> string" where
  "Ext4Fs_mount_point self = mount_point self"

definition make_path :: "Ext4Fs \<Rightarrow> string \<Rightarrow> error + string" where
  "make_path self path =
     (let path = strip_slash path in
      case from_utf8 (bytes_of_str (mount_point self)) of
        None \<Rightarrow> Inl (InvalidArgument ''invalid mount point'')
      | Some mp \<Rightarrow> (let full_path = mp @ path in
          case cstring_new full_path of Inl e \<Rightarrow> Inl (NulError e) | Inr c \<Rightarrow> Inr c))"

definition is_read_only :: "Ext4Fs \<Rightarrow> bool" where
  "is_read_only self = read_only self"

section \<open>Facts\<close>

lemma unwrap_res_Inr [simp, rust_simps]: "unwrap_res (Inr x) s = Done (x, s)"
  by (simp add: unwrap_res_def)

lemma lift_rust_Done [simp, rust_simps]: "lift_rust (Done x) s = Done (x, s)"
  by (simp add: lift_rust_def)

lemma lift_rust_Panic [simp, rust_simps]: "lift_rust Panic s = Panic"
  by (simp add: lift_rust_def)

lemma seq_ret [simp, rust_simps]: "seq_st (ret_st x) k s = k x s"
  by (simp add: seq_st_def)

lemma ignore_ffi [rust_simps]:
  "ignore (ffi c f) w = Done ((), w\<lparr>cst := snd (f (cst w)), calls := calls w @ [c]\<rparr>)"
  by (simp add: ignore_def rust_simps)

lemma ascii_mp: "\<forall>c \<in> set (mp_name did). (of_char c :: nat) < 128"
  by (auto simp: mp_name_def dest: decimal_ascii)

lemma mp_name_is_str: "from_utf8 (bytes_of_str (mp_name did)) = Some (mp_name did)"
proof -
  have "\<forall>b \<in> set (bytes_of_str (mp_name did)). b < 0x80"
    using ascii_mp [of did] by (auto simp: bytes_of_str_def word_less_nat_alt unat_of_nat)
  then show ?thesis by (simp add: from_utf8_def utf8_valid_ascii)
qed

lemma mp_name_no_NUL: "NUL \<notin> set (mp_name did)"
  using decimal_no_NUL [of "unat did"] by (simp add: mp_name_def)

lemma dev_name_no_NUL: "NUL \<notin> set (dev_name did)"
  using decimal_no_NUL [of "unat did"] by (simp add: dev_name_def)

lemma unat_u64_inject [simp]: "unat (a :: u64) = unat b \<longleftrightarrow> a = b"
  by (metis word_unat_eq_iff)

lemma dev_name_inject [simp]: "dev_name a = dev_name b \<longleftrightarrow> a = b"
  by (simp add: dev_name_def)

lemma append_sep_inject:
  assumes "xs @ c # us = ys @ c # vs" and "c \<notin> set xs" and "c \<notin> set ys"
  shows "xs = ys \<and> us = vs"
proof -
  have tw: "takeWhile (\<lambda>x. x \<noteq> c) (zs @ c # ws) = zs" if "c \<notin> set zs" for zs ws
    using that by (induction zs) auto
  have "xs = ys" using assms tw [of xs us] tw [of ys vs] by metis
  with assms(1) show ?thesis by simp
qed

text \<open>Mount points are prefix-free because of their trailing slash.\<close>

lemma mp_name_prefix_free:
  "mp_name a @ x = mp_name b @ y \<longleftrightarrow> a = b \<and> x = y"
proof
  assume "mp_name a @ x = mp_name b @ y"
  then have "decimal (unat a) @ CHR ''/'' # x = decimal (unat b) @ CHR ''/'' # y"
    by (simp add: mp_name_def)
  from append_sep_inject [OF this decimal_no_slash decimal_no_slash]
  show "a = b \<and> x = y" by simp
qed simp

lemma mp_name_inject [simp]: "mp_name a = mp_name b \<longleftrightarrow> a = b"
  using mp_name_prefix_free [of a "[]" b "[]"] by simp

text \<open>
  What \<open>mount\<close> and \<open>make_path\<close> rely on in the names made from the counter: different numbers give
  different names, no name has a NUL (so the \<open>unwrap\<close> of its \<open>CString\<close> never panics), and for
  names that are prepended to paths, no path under one name is a path under another.
\<close>

locale fresh_names =
  fixes name :: "u64 \<Rightarrow> string"
  assumes inject: "name a = name b \<longleftrightarrow> a = b" and no_NUL: "NUL \<notin> set (name a)"
begin

lemma unwrap_ok: "unwrap_res (cstring_new (name a)) s = Done (name a, s)"
  by (simp add: cstring_new_ok no_NUL)

end

locale path_roots = fresh_names +
  assumes prefix_free: "name a @ x = name b @ y \<longleftrightarrow> a = b \<and> x = y"
begin

lemma isolated: "a \<noteq> b \<Longrightarrow> \<not> (\<exists>y. name a @ x = name b @ y)"
  by (simp add: prefix_free)

end

interpretation dev: fresh_names dev_name
  by unfold_locales (rule dev_name_inject, rule dev_name_no_NUL)

interpretation mp: path_roots mp_name
  by unfold_locales (rule mp_name_inject, rule mp_name_no_NUL, rule mp_name_prefix_free)

lemma make_path_eq:
  assumes "mount_point fs = mp_name did"
  shows "make_path fs path =
    (if NUL \<in> set path
     then Inl (NulError (NulErr (length (mp_name did) + the (position is_nul (strip_slash path)))
            (mp_name did @ strip_slash path)))
     else Inr (mp_name did @ strip_slash path))"
proof (cases "NUL \<in> set path")
  case True
  then obtain n where "position is_nul (strip_slash path) = Some n"
    using position_nul [of "strip_slash path"] set_strip_slash [of path] by auto
  moreover have "position is_nul (mp_name did) = None"
    using mp_name_no_NUL by (simp add: position_nul)
  ultimately show ?thesis using True assms
    by (simp add: make_path_def mp_name_is_str cstring_new_def position_append)
next
  case False
  then show ?thesis using assms set_strip_slash [of path] mp_name_no_NUL [of did]
    by (simp add: make_path_def mp_name_is_str cstring_new_ok)
qed

section \<open>The ways through mount\<close>

lemma error_from_eq: "errno \<noteq> 0 \<Longrightarrow> error_from errno = Done (err_of errno)"
  using error_from_total [of errno] by (auto simp: err_of_def)

text \<open>\<open>mount\<close> with the calls made explicit.\<close>

definition new_mount :: "u64 \<Rightarrow> addr \<Rightarrow> bool \<Rightarrow> bool \<Rightarrow> Ext4Fs" where
  "new_mount did a ro journal = \<lparr>wrapper = a, device_name = dev_name did, mount_point = mp_name did,
     read_only = ro, journal_active = journal\<rparr>"

lemma mount_register_fails:
  assumes "BlockDeviceWrapper_new p V d (heap (cst w)) = Done (a, h)" and "as_bdev_ptr h a = Some bd"
    and "l_device_register (mount_fns L) bd (dev_name (counter w)) ((cst w)\<lparr>heap := h\<rparr>) = (r, s)"
    and "r \<noteq> 0"
  shows "mount p L V d ro w = Done (Inl (err_of r), w\<lparr>counter := counter w + 1,
     cst := s\<lparr>heap := BlockDeviceWrapper_drop a (heap s)\<rparr>,
     calls := calls w @ [C_device_register bd (dev_name (counter w))]\<rparr>)"
  using assms
  by (simp add: mount_def fetch_add_counter_def dev.unwrap_ok mp.unwrap_ok alloc_wrapper_def bdev_ptr_def
      free_wrapper_def ffi_defs rust_simps)

lemma mount_mount_fails:
  assumes "BlockDeviceWrapper_new p V d (heap (cst w)) = Done (a, h)" and "as_bdev_ptr h a = Some bd"
    and "l_device_register (mount_fns L) bd (dev_name (counter w)) ((cst w)\<lparr>heap := h\<rparr>) = (0, s1)"
    and "l_mount (mount_fns L) (dev_name (counter w)) (mp_name (counter w)) ro s1 = (r, s2)"
    and "r \<noteq> 0" and "l_device_unregister (mount_fns L) (dev_name (counter w)) s2 = (r', s)"
  shows "mount p L V d ro w = Done (Inl (err_of r), w\<lparr>counter := counter w + 1,
     cst := s\<lparr>heap := BlockDeviceWrapper_drop a (heap s)\<rparr>,
     calls := calls w @ [C_device_register bd (dev_name (counter w)),
       C_mount (dev_name (counter w)) (mp_name (counter w)) ro,
       C_device_unregister (dev_name (counter w))]\<rparr>)"
  using assms
  by (simp add: mount_def fetch_add_counter_def dev.unwrap_ok mp.unwrap_ok alloc_wrapper_def bdev_ptr_def
      free_wrapper_def ffi_defs rust_simps error_from_eq)

lemma mount_succeeds:
  assumes "BlockDeviceWrapper_new p V d (heap (cst w)) = Done (a, h)" and "as_bdev_ptr h a = Some bd"
    and "l_device_register (mount_fns L) bd (dev_name (counter w)) ((cst w)\<lparr>heap := h\<rparr>) = (0, s1)"
    and "l_mount (mount_fns L) (dev_name (counter w)) (mp_name (counter w)) ro s1 = (0, s2)"
    and "l_recover (mount_fns L) (mp_name (counter w)) s2 = (rr, s3)"
    and "l_journal_start (mount_fns L) (mp_name (counter w)) s3 = (rj, s4)"
  shows "mount p L V d ro w = Done (Inr (new_mount (counter w) a ro (\<not> ro \<and> rj = 0)),
     w\<lparr>counter := counter w + 1, cst := (if ro then s3 else s4),
       calls := calls w @ [C_device_register bd (dev_name (counter w)),
         C_mount (dev_name (counter w)) (mp_name (counter w)) ro,
         C_recover (mp_name (counter w))] @
         (if ro then [] else [C_journal_start (mp_name (counter w))])\<rparr>)"
  using assms
  by (simp add: mount_def fetch_add_counter_def dev.unwrap_ok mp.unwrap_ok alloc_wrapper_def bdev_ptr_def
      ffi_defs rust_simps new_mount_def)

lemma mount_panics:
  assumes "BlockDeviceWrapper_new p V d (heap (cst w)) = Panic"
  shows "mount p L V d ro w = Panic"
  using assms
  by (simp add: mount_def fetch_add_counter_def dev.unwrap_ok mp.unwrap_ok alloc_wrapper_def rust_simps)

end
