(* ===== verification/FileOps.thy ===== *)
theory FileOps
  imports FsCore
begin

text \<open>
  \<open>file.rs\<close>: file handles. A method with \<open>&mut self\<close> is a computation on the pair of the handle
  and the process; the loops of \<open>read_to_end\<close> and \<open>write_all\<close> have the value \<open>None\<close> when they
  never stop, which depends on the C library alone.
\<close>

section \<open>Handles\<close>

record File =
  ffs :: Ext4Fs
  inner :: ext4_file
  fpath :: string

type_synonym 'w file_state = "File \<times> 'w world"

definition File_open ::
  "'w lwext4 \<Rightarrow> Ext4Fs \<Rightarrow> string \<Rightarrow> OpenFlags \<Rightarrow> ('w world, error + File) comp" where
  "File_open L self path flags =
     try_res (make_path self path) (\<lambda>full_path.
     seq_st (ext4_fopen2 L ext4_file_default full_path (OpenFlags_to_raw flags)) (\<lambda>(ret, f).
     try_st (lift_rust (check_errno_with_path ret path)) (\<lambda>_.
     ret_st (Inr \<lparr>ffs = self, inner = f, fpath = path\<rparr>))))"

text \<open>A call on the handle's C structure that stores the structure it returns.\<close>

definition File_read :: "'w lwext4 \<Rightarrow> bytes \<Rightarrow> ('w file_state, (error + usize) \<times> bytes) comp" where
  "File_read L buf = (\<lambda>(self, w).
     bind_rust (ext4_fread L (inner self) buf (slice_len buf) 0 w) (\<lambda>((ret, f, buf, rcnt), w).
     bind_rust (check_errno ret) (\<lambda>r.
       Done ((case r of Inl e \<Rightarrow> Inl e | Inr _ \<Rightarrow> Inr rcnt, buf), (self\<lparr>inner := f\<rparr>, w)))))"

definition File_write :: "'w lwext4 \<Rightarrow> bytes \<Rightarrow> ('w file_state, error + usize) comp" where
  "File_write L buf = (\<lambda>(self, w).
     bind_rust (ext4_fwrite L (inner self) buf (slice_len buf) 0 w) (\<lambda>((ret, f, wcnt), w).
     bind_rust (check_errno ret) (\<lambda>r.
       Done (case r of Inl e \<Rightarrow> Inl e | Inr _ \<Rightarrow> Inr wcnt, (self\<lparr>inner := f\<rparr>, w)))))"

definition File_position :: "'w lwext4 \<Rightarrow> ('w file_state, u64) comp" where
  "File_position L = (\<lambda>(self, w).
     bind_rust (ext4_ftell L (inner self) w) (\<lambda>(n, w). Done (n, (self, w))))"

definition File_size :: "'w lwext4 \<Rightarrow> ('w file_state, u64) comp" where
  "File_size L = (\<lambda>(self, w).
     bind_rust (ext4_fsize L (inner self) w) (\<lambda>(n, w). Done (n, (self, w))))"

definition File_seek :: "'w lwext4 \<Rightarrow> SeekFrom \<Rightarrow> ('w file_state, error + u64) comp" where
  "File_seek L pos = (\<lambda>(self, w).
     case SeekFrom_to_raw pos of (offset, origin) \<Rightarrow>
     bind_rust (ext4_fseek L (inner self) offset origin w) (\<lambda>((ret, f), w).
       try_st (lift_rust (check_errno ret))
         (\<lambda>_. seq_st (File_position L) (\<lambda>n. ret_st (Inr n))) (self\<lparr>inner := f\<rparr>, w)))"

definition File_truncate :: "'w lwext4 \<Rightarrow> u64 \<Rightarrow> ('w file_state, error + unit) comp" where
  "File_truncate L n = (\<lambda>(self, w).
     bind_rust (ext4_ftruncate L (inner self) n w) (\<lambda>((ret, f), w).
     bind_rust (check_errno ret) (\<lambda>r. Done (r, (self\<lparr>inner := f\<rparr>, w)))))"

definition File_flush :: "('w file_state, error + unit) comp" where
  "File_flush = ret_st (Inr ())"

definition File_drop :: "'w lwext4 \<Rightarrow> File \<Rightarrow> ('w world, unit) comp" where
  "File_drop L self = ignore (ext4_fclose L (inner self))"

section \<open>Loops\<close>

text \<open>
  \<open>reserve\<close> and \<open>extend_from_slice\<close> panic when the vector would exceed \<open>isize::MAX\<close> bytes,
  \<open>&chunk[..n]\<close> when \<open>n\<close> exceeds the chunk.
\<close>

partial_function (option) read_loop ::
  "profile \<Rightarrow> 'w lwext4 \<Rightarrow> bytes \<Rightarrow> bytes \<Rightarrow> usize \<Rightarrow> 'w file_state \<Rightarrow>
   (((error + usize) \<times> bytes) \<times> 'w file_state) rust option" where
  "read_loop p L chunk buf tot st =
     (case File_read L chunk st of
        Panic \<Rightarrow> Some Panic
      | Done ((r, chunk), st) \<Rightarrow> (case r of
          Inl e \<Rightarrow> Some (Done ((Inl e, buf), st))
        | Inr n \<Rightarrow>
            if n = 0 then Some (Done ((Inr tot, buf), st))
            else if length chunk < unat n then Some Panic
            else if isize_max < length buf + unat n then Some Panic
            else (case add_u64 p tot n of
                Panic \<Rightarrow> Some Panic
              | Done tot \<Rightarrow> read_loop p L chunk (buf @ take (unat n) chunk) tot st)))"

definition File_read_to_end ::
  "profile \<Rightarrow> 'w lwext4 \<Rightarrow> bytes \<Rightarrow> 'w file_state \<Rightarrow>
   (((error + usize) \<times> bytes) \<times> 'w file_state) rust option" where
  "File_read_to_end p L buf st =
     (case File_size L st of
        Panic \<Rightarrow> Some Panic
      | Done (sz, st) \<Rightarrow>
          if isize_max < length buf + unat sz then Some Panic
          else (case File_seek L (Start 0) st of
              Panic \<Rightarrow> Some Panic
            | Done (Inl e, st) \<Rightarrow> Some (Done ((Inl e, buf), st))
            | Done (Inr _, st) \<Rightarrow> read_loop p L (replicate 8192 0) buf 0 st))"

definition File_read_to_string ::
  "profile \<Rightarrow> 'w lwext4 \<Rightarrow> string \<Rightarrow> 'w file_state \<Rightarrow>
   (((error + usize) \<times> string) \<times> 'w file_state) rust option" where
  "File_read_to_string p L buf st =
     map_option (\<lambda>m. bind_rust m (\<lambda>((r, bytes), st). Done
       ((case r of
           Inl e \<Rightarrow> (Inl e, buf)
         | Inr n \<Rightarrow> (case from_utf8 bytes of
              None \<Rightarrow> (Inl (InvalidArgument ''file contains invalid UTF-8''), buf)
            | Some s \<Rightarrow> (Inr n, s))), st)))
     (File_read_to_end p L [] st)"

partial_function (option) write_loop ::
  "profile \<Rightarrow> 'w lwext4 \<Rightarrow> bytes \<Rightarrow> usize \<Rightarrow> 'w file_state \<Rightarrow>
   ((error + unit) \<times> 'w file_state) rust option" where
  "write_loop p L buf written st =
     (if \<not> written < slice_len buf then Some (Done (Inr (), st))
      else (case File_write L (drop (unat written) buf) st of
          Panic \<Rightarrow> Some Panic
        | Done (Inl e, st) \<Rightarrow> Some (Done (Inl e, st))
        | Done (Inr n, st) \<Rightarrow>
            if n = 0
            then Some (Done (Inl (Io (Simple WriteZero ''failed to write whole buffer'')), st))
            else (case add_u64 p written n of
                Panic \<Rightarrow> Some Panic
              | Done written \<Rightarrow> write_loop p L buf written st)))"

definition File_write_all ::
  "profile \<Rightarrow> 'w lwext4 \<Rightarrow> bytes \<Rightarrow> 'w file_state \<Rightarrow>
   ((error + unit) \<times> 'w file_state) rust option" where
  "File_write_all p L buf st = write_loop p L buf 0 st"

section \<open>The std::io adapters\<close>

definition map_err :: "('e \<Rightarrow> 'f) \<Rightarrow> 'e + 'a \<Rightarrow> 'f + 'a" where
  "map_err g r = (case r of Inl e \<Rightarrow> Inl (g e) | Inr x \<Rightarrow> Inr x)"

definition io_read :: "'w lwext4 \<Rightarrow> bytes \<Rightarrow> ('w file_state, (io_error + usize) \<times> bytes) comp" where
  "io_read L buf = seq_st (File_read L buf) (\<lambda>(r, buf). ret_st (map_err (Wrapped Other) r, buf))"

definition io_write :: "'w lwext4 \<Rightarrow> bytes \<Rightarrow> ('w file_state, io_error + usize) comp" where
  "io_write L buf = seq_st (File_write L buf) (\<lambda>r. ret_st (map_err (Wrapped Other) r))"

definition io_flush :: "('w file_state, io_error + unit) comp" where
  "io_flush = seq_st File_flush (\<lambda>r. ret_st (map_err (Wrapped Other) r))"

datatype io_SeekFrom = IoStart u64 | IoEnd i64 | IoCurrent i64

definition io_seek :: "'w lwext4 \<Rightarrow> io_SeekFrom \<Rightarrow> ('w file_state, io_error + u64) comp" where
  "io_seek L pos =
     (let pos = (case pos of IoStart n \<Rightarrow> Start n | IoEnd n \<Rightarrow> End n | IoCurrent n \<Rightarrow> Current n)
      in seq_st (File_seek L pos) (\<lambda>r. ret_st (map_err (Wrapped Other) r)))"

end
