(* ===== verification/HostFile.thy ===== *)
theory HostFile
  imports Errors
begin

text \<open>
  \<open>std::fs::File\<close> on a regular file of the host, as far as \<open>blockdev/file.rs\<close> uses it: opening,
  \<open>set_len\<close>, \<open>metadata().len()\<close>, \<open>seek\<close>, the loops of \<open>read_exact\<close> and \<open>write_all\<close>, and
  \<open>sync_all\<close>. The operating system is a schedule of events, one per system call: the call works,
  transfers fewer bytes than asked, or fails with an error code. An exhausted schedule means that
  every further call works; in particular calls are interrupted finitely often, and the loops that
  repeat them end. No other process touches the file.
\<close>

section \<open>System calls\<close>

datatype io_event = EvOk | EvShort nat | EvErr i32

record host_file =
  h_data :: bytes
  h_pos :: nat
  h_read :: bool
  h_write :: bool
  h_sched :: "io_event list"

fun next_event :: "io_event list \<Rightarrow> io_event \<times> io_event list" where
  "next_event [] = (EvOk, [])"
| "next_event (e # es) = (e, es)"

text \<open>Calls that std repeats while they are interrupted.\<close>

fun next_event_retry :: "io_event list \<Rightarrow> io_event \<times> io_event list" where
  "next_event_retry [] = (EvOk, [])"
| "next_event_retry (e # es) = (if e = EvErr EINTR then next_event_retry es else (e, es))"

definition sys_read :: "host_file \<Rightarrow> nat \<Rightarrow> (i32 + bytes) \<times> host_file" where
  "sys_read f n =
     (case next_event (h_sched f) of (ev, es) \<Rightarrow>
        let f = f\<lparr>h_sched := es\<rparr> in
        if \<not> h_read f then (Inl EBADF, f)
        else (case ev of
            EvErr e \<Rightarrow> (Inl e, f)
          | EvShort k \<Rightarrow> (let xs = slice (h_pos f) (min k n) (h_data f)
                          in (Inr xs, f\<lparr>h_pos := h_pos f + length xs\<rparr>))
          | EvOk \<Rightarrow> (let xs = slice (h_pos f) n (h_data f)
                     in (Inr xs, f\<lparr>h_pos := h_pos f + length xs\<rparr>))))"

text \<open>Writing beyond the end leaves a gap of zeros; writing nothing changes nothing.\<close>

definition write_at :: "nat \<Rightarrow> bytes \<Rightarrow> bytes \<Rightarrow> bytes" where
  "write_at pos xs d =
     (if xs = [] then d else blit pos xs (d @ replicate (pos - length d) 0))"

definition sys_write :: "host_file \<Rightarrow> bytes \<Rightarrow> (i32 + nat) \<times> host_file" where
  "sys_write f buf =
     (case next_event (h_sched f) of (ev, es) \<Rightarrow>
        let f = f\<lparr>h_sched := es\<rparr> in
        if \<not> h_write f then (Inl EBADF, f)
        else (case ev of
            EvErr e \<Rightarrow> (Inl e, f)
          | EvShort k \<Rightarrow> (let n = min k (length buf)
              in (Inr n, f\<lparr>h_data := write_at (h_pos f) (take n buf) (h_data f),
                           h_pos := h_pos f + n\<rparr>))
          | EvOk \<Rightarrow> (Inr (length buf),
              f\<lparr>h_data := write_at (h_pos f) buf (h_data f), h_pos := h_pos f + length buf\<rparr>)))"

section \<open>The standard library's operations\<close>

text \<open>\<open>seek(SeekFrom::Start(n))\<close>: an offset beyond \<open>i64::MAX\<close> is negative for the kernel.\<close>

definition file_seek_start :: "host_file \<Rightarrow> u64 \<Rightarrow> (io_error + u64) \<times> host_file" where
  "file_seek_start f n =
     (case next_event (h_sched f) of (ev, es) \<Rightarrow>
        let f = f\<lparr>h_sched := es\<rparr> in
        (case ev of
            EvErr e \<Rightarrow> (Inl (Os e), f)
          | _ \<Rightarrow> if unat n < 2 ^ 63 then (Inr n, f\<lparr>h_pos := unat n\<rparr>) else (Inl (Os EINVAL), f)))"

text \<open>
  The loop of \<open>read_exact\<close>: \<open>n\<close> bytes of the buffer are still to be filled, \<open>acc\<close> is the filled
  front. An interrupted read is repeated, reading 0 bytes is the end of the file.
\<close>

lemma next_event_length: "length (snd (next_event es)) \<le> length es"
  by (cases es) auto

lemma sys_read_sched:
  "sys_read f n = (r, f') \<Longrightarrow> length (h_sched f') \<le> length (h_sched f)"
  using next_event_length [of "h_sched f"]
  by (auto simp: sys_read_def Let_def split: prod.splits io_event.splits if_splits)

lemma sys_read_err:
  "sys_read f n = (Inl EINTR, f') \<Longrightarrow> length (h_sched f') < length (h_sched f)"
  by (cases "h_sched f")
    (auto simp: sys_read_def Let_def EINTR_def EBADF_def split: prod.splits io_event.splits if_splits)

function read_exact_loop ::
  "host_file \<Rightarrow> nat \<Rightarrow> bytes \<Rightarrow> (io_error option \<times> bytes) \<times> host_file" where
  "read_exact_loop f n acc =
     (if n = 0 then ((None, acc), f)
      else (case sys_read f n of
          (Inl e, f') \<Rightarrow>
            if e = EINTR then read_exact_loop f' n acc else ((Some (Os e), acc), f')
        | (Inr xs, f') \<Rightarrow>
            if xs = [] then ((Some (Simple UnexpectedEof ''failed to fill whole buffer''), acc), f')
            else read_exact_loop f' (n - length xs) (acc @ xs)))"
  by pat_completeness auto
termination
proof (relation "measure (\<lambda>(f, n, acc). length (h_sched f) + n)", goal_cases)
  case (2 f n acc x f' e)
  then show ?case using sys_read_err [of f n f'] by auto
next
  case (3 f n acc x f' xs)
  moreover have "length (h_sched f') \<le> length (h_sched f)"
    using 3 sys_read_sched [of f n "Inr xs" f'] by simp
  ultimately show ?case by (cases xs) auto
qed simp

declare read_exact_loop.simps [simp del]

lemma read_exact_loop_0 [simp]: "read_exact_loop f 0 acc = ((None, acc), f)"
  by (simp add: read_exact_loop.simps)

definition file_read_exact :: "host_file \<Rightarrow> bytes \<Rightarrow> (io_error option \<times> bytes) \<times> host_file" where
  "file_read_exact f buf =
     (case read_exact_loop f (length buf) [] of
        ((r, acc), f') \<Rightarrow> ((r, acc @ drop (length acc) buf), f'))"

lemma sys_write_sched:
  "sys_write f buf = (r, f') \<Longrightarrow> length (h_sched f') \<le> length (h_sched f)"
  using next_event_length [of "h_sched f"]
  by (auto simp: sys_write_def Let_def split: prod.splits io_event.splits if_splits)

lemma sys_write_err:
  "sys_write f buf = (Inl EINTR, f') \<Longrightarrow> length (h_sched f') < length (h_sched f)"
  by (cases "h_sched f")
    (auto simp: sys_write_def Let_def EINTR_def EBADF_def split: prod.splits io_event.splits if_splits)

text \<open>The loop of \<open>write_all\<close> over the rest of the buffer.\<close>

function file_write_all :: "host_file \<Rightarrow> bytes \<Rightarrow> io_error option \<times> host_file" where
  "file_write_all f buf =
     (if buf = [] then (None, f)
      else (case sys_write f buf of
          (Inl e, f') \<Rightarrow> if e = EINTR then file_write_all f' buf else (Some (Os e), f')
        | (Inr n, f') \<Rightarrow>
            if n = 0 then (Some (Simple WriteZero ''failed to write whole buffer''), f')
            else file_write_all f' (drop n buf)))"
  by pat_completeness auto
termination
proof (relation "measure (\<lambda>(f, buf). length (h_sched f) + length buf)", goal_cases)
  case (2 f buf x f' e)
  then show ?case using sys_write_err [of f buf f'] by auto
next
  case (3 f buf x f' n)
  moreover have "length (h_sched f') \<le> length (h_sched f)"
    using 3 sys_write_sched [of f buf "Inr n" f'] by simp
  ultimately show ?case by (cases buf) auto
qed simp

declare file_write_all.simps [simp del]

lemma file_write_all_Nil [simp]: "file_write_all f [] = (None, f)"
  by (simp add: file_write_all.simps)

definition file_sync_all :: "host_file \<Rightarrow> io_error option \<times> host_file" where
  "file_sync_all f =
     (case next_event_retry (h_sched f) of (ev, es) \<Rightarrow>
        ((case ev of EvErr e \<Rightarrow> Some (Os e) | _ \<Rightarrow> None), f\<lparr>h_sched := es\<rparr>))"

text \<open>\<open>set_len\<close>: the size must be an \<open>i64\<close>; the file is cut or extended with zeros.\<close>

definition resize :: "nat \<Rightarrow> bytes \<Rightarrow> bytes" where
  "resize n d = take n d @ replicate (n - length d) 0"

definition file_set_len :: "host_file \<Rightarrow> u64 \<Rightarrow> io_error option \<times> host_file" where
  "file_set_len f n =
     (if \<not> unat n < 2 ^ 63
      then (Some (Simple InvalidInput ''out of range integral type conversion attempted''), f)
      else (case next_event_retry (h_sched f) of (ev, es) \<Rightarrow>
        (case ev of
           EvErr e \<Rightarrow> (Some (Os e), f\<lparr>h_sched := es\<rparr>)
         | _ \<Rightarrow> (None, f\<lparr>h_sched := es, h_data := resize (unat n) (h_data f)\<rparr>))))"

definition file_metadata_len :: "host_file \<Rightarrow> (io_error + u64) \<times> host_file" where
  "file_metadata_len f =
     (case next_event (h_sched f) of (ev, es) \<Rightarrow>
        ((case ev of EvErr e \<Rightarrow> Inl (Os e) | _ \<Rightarrow> Inr (of_nat (length (h_data f)))),
         f\<lparr>h_sched := es\<rparr>))"

text \<open>
  \<open>OpenOptions::open\<close> of a path that holds \<open>existing\<close> (\<open>None\<close> when nothing is there): what the
  code sets is read, write and create-with-truncate.
\<close>

definition host_open ::
  "bool \<Rightarrow> bool \<Rightarrow> bool \<Rightarrow> bytes option \<Rightarrow> io_event list \<Rightarrow> io_error + host_file" where
  "host_open rd wr create_trunc existing sched =
     (case next_event_retry sched of (ev, es) \<Rightarrow>
        (case ev of
           EvErr e \<Rightarrow> Inl (Os e)
         | _ \<Rightarrow> (case existing of
              None \<Rightarrow> if create_trunc
                then Inr \<lparr>h_data = [], h_pos = 0, h_read = rd, h_write = wr, h_sched = es\<rparr>
                else Inl (Os ENOENT)
            | Some d \<Rightarrow> Inr \<lparr>h_data = (if create_trunc then [] else d), h_pos = 0,
                             h_read = rd, h_write = wr, h_sched = es\<rparr>)))"

section \<open>Facts\<close>

text \<open>What every operation keeps, and that no reported code is the success code.\<close>

definition sched_ok :: "io_event list \<Rightarrow> bool" where
  "sched_ok es \<longleftrightarrow> EvErr 0 \<notin> set es"

lemma sched_ok_Nil [simp]: "sched_ok []"
  by (simp add: sched_ok_def)

lemma next_event_ok:
  "sched_ok es \<Longrightarrow> next_event es = (ev, es') \<Longrightarrow> sched_ok es' \<and> ev \<noteq> EvErr 0"
  by (cases es) (auto simp: sched_ok_def)

lemma next_event_retry_ok:
  "sched_ok es \<Longrightarrow> next_event_retry es = (ev, es') \<Longrightarrow> sched_ok es' \<and> ev \<noteq> EvErr 0"
  by (induction es) (auto simp: sched_ok_def split: if_splits)

lemma sys_read_spec:
  assumes "sys_read f n = (r, f')" and "sched_ok (h_sched f)"
  shows "h_data f' = h_data f \<and> h_read f' = h_read f \<and> h_write f' = h_write f \<and>
    sched_ok (h_sched f') \<and>
    (case r of Inl e \<Rightarrow> e \<noteq> 0 \<and> h_pos f' = h_pos f
     | Inr xs \<Rightarrow> xs = slice (h_pos f) (length xs) (h_data f) \<and> h_pos f' = h_pos f + length xs \<and>
               length xs \<le> n)"
  using assms next_event_ok [OF assms(2)]
  by (auto simp: sys_read_def Let_def EBADF_def intro: order_trans [OF length_slice_le]
      split: prod.splits io_event.splits if_splits)

lemma read_exact_loop_spec:
  assumes "read_exact_loop f n acc = ((r, acc'), f')" and "sched_ok (h_sched f)"
  shows "h_data f' = h_data f \<and> h_read f' = h_read f \<and> h_write f' = h_write f \<and>
    sched_ok (h_sched f') \<and>
    (\<exists>m \<le> n. acc' = acc @ slice (h_pos f) m (h_data f) \<and> length acc' = length acc + m \<and>
       (r = None \<longrightarrow> m = n)) \<and> (\<forall>e. r = Some (Os e) \<longrightarrow> e \<noteq> 0)"
  using assms
proof (induction f n acc arbitrary: r acc' f' rule: read_exact_loop.induct)
  case (1 f n acc)
  show ?case
  proof (cases "n = 0")
    case True
    with "1.prems" show ?thesis by auto
  next
    case False
    obtain x f1 where x: "sys_read f n = (x, f1)" by fastforce
    note sp = sys_read_spec [OF x "1.prems"(2)]
    show ?thesis
    proof (cases x)
      case (Inl e)
      show ?thesis
      proof (cases "e = EINTR")
        case True
        with Inl False x "1.prems"(1) have "read_exact_loop f1 n acc = ((r, acc'), f')"
          by (simp add: read_exact_loop.simps [of f n acc])
        from "1.IH"(1) [OF False x [symmetric] _ True this] Inl sp
        show ?thesis by auto
      next
        case e: False
        with Inl False x "1.prems"(1) sp show ?thesis
          by (auto simp: read_exact_loop.simps [of f n acc] slice_def intro!: exI [of _ 0])
      qed
    next
      case (Inr xs)
      show ?thesis
      proof (cases "xs = []")
        case True
        with Inr False x "1.prems"(1) sp show ?thesis
          by (auto simp: read_exact_loop.simps [of f n acc] slice_def intro!: exI [of _ 0])
      next
        case xs: False
        with Inr False x "1.prems"(1)
        have "read_exact_loop f1 (n - length xs) (acc @ xs) = ((r, acc'), f')"
          by (simp add: read_exact_loop.simps [of f n acc])
        note ih = "1.IH"(2) [OF False x [symmetric] Inr xs this]
        from sp Inr have s1: "h_data f1 = h_data f" "h_read f1 = h_read f" "h_write f1 = h_write f"
          "sched_ok (h_sched f1)" "xs = slice (h_pos f) (length xs) (h_data f)"
          "h_pos f1 = h_pos f + length xs" "length xs \<le> n"
          by simp_all
        from ih [OF s1(4)] obtain m where
          m: "h_data f' = h_data f" "h_read f' = h_read f" "h_write f' = h_write f"
            "sched_ok (h_sched f')" "m \<le> n - length xs"
            "acc' = (acc @ xs) @ slice (h_pos f + length xs) m (h_data f)"
            "length acc' = length (acc @ xs) + m" "r = None \<longrightarrow> m = n - length xs"
            "\<forall>e. r = Some (Os e) \<longrightarrow> e \<noteq> 0"
          unfolding s1(1,2,3,6) by blast
        have "acc' = acc @ slice (h_pos f) (length xs + m) (h_data f)"
          using m(6) s1(5) by (simp add: slice_append [of "h_pos f" "length xs" m])
        with m s1(7) show ?thesis by (auto intro!: exI [of _ "length xs + m"])
      qed
    qed
  qed
qed

lemma file_read_exact_spec:
  assumes "file_read_exact f buf = ((r, buf'), f')" and "sched_ok (h_sched f)"
  shows "h_data f' = h_data f \<and> h_read f' = h_read f \<and> h_write f' = h_write f \<and>
    sched_ok (h_sched f') \<and> length buf' = length buf \<and>
    (r = None \<longrightarrow> buf' = slice (h_pos f) (length buf) (h_data f)) \<and>
    (\<forall>e. r = Some (Os e) \<longrightarrow> e \<noteq> 0)"
proof -
  obtain acc where l: "read_exact_loop f (length buf) [] = ((r, acc), f')"
    and b: "buf' = acc @ drop (length acc) buf"
    using assms(1) by (auto simp: file_read_exact_def split: prod.splits)
  show ?thesis using read_exact_loop_spec [OF l assms(2)] b by auto
qed

lemma sys_write_spec:
  assumes "sys_write f buf = (r, f')" and "sched_ok (h_sched f)"
  shows "h_read f' = h_read f \<and> h_write f' = h_write f \<and> sched_ok (h_sched f') \<and>
    (case r of Inl e \<Rightarrow> e \<noteq> 0 \<and> h_pos f' = h_pos f \<and> h_data f' = h_data f
     | Inr n \<Rightarrow> n \<le> length buf \<and> h_pos f' = h_pos f + n \<and>
         h_data f' = write_at (h_pos f) (take n buf) (h_data f))"
  using assms next_event_ok [OF assms(2)]
  by (auto simp: sys_write_def Let_def EBADF_def split: prod.splits io_event.splits if_splits)

lemma write_at_inside: "pos + length xs \<le> length d \<Longrightarrow> write_at pos xs d = blit pos xs d"
  by (auto simp: write_at_def)

lemma write_at_append:
  assumes "xs \<noteq> []"
  shows "write_at (pos + length xs) ys (write_at pos xs d) = write_at pos (xs @ ys) d"
proof -
  let ?d = "d @ replicate (pos - length d) 0"
  have "pos + length xs \<le> length (blit pos xs ?d)" by (simp add: blit_def)
  then have "write_at (pos + length xs) ys (write_at pos xs d) = blit (pos + length xs) ys (blit pos xs ?d)"
    using assms by (simp add: write_at_def)
  also have "\<dots> = blit pos (xs @ ys) ?d" by (rule blit_append) simp
  finally show ?thesis using assms by (simp add: write_at_def)
qed

lemma file_write_all_spec:
  assumes "file_write_all f buf = (r, f')" and "sched_ok (h_sched f)"
  shows "h_read f' = h_read f \<and> h_write f' = h_write f \<and> sched_ok (h_sched f') \<and>
    (\<exists>k \<le> length buf. h_data f' = write_at (h_pos f) (take k buf) (h_data f) \<and>
       (r = None \<longrightarrow> k = length buf)) \<and> (\<forall>e. r = Some (Os e) \<longrightarrow> e \<noteq> 0)"
  using assms
proof (induction f buf arbitrary: r f' rule: file_write_all.induct)
  case (1 f buf)
  show ?case
  proof (cases "buf = []")
    case True
    with "1.prems" show ?thesis by (auto simp: write_at_def)
  next
    case False
    obtain x f1 where x: "sys_write f buf = (x, f1)" by fastforce
    note sp = sys_write_spec [OF x "1.prems"(2)]
    show ?thesis
    proof (cases x)
      case (Inl e)
      show ?thesis
      proof (cases "e = EINTR")
        case True
        with Inl False x "1.prems"(1) have "file_write_all f1 buf = (r, f')"
          by (simp add: file_write_all.simps [of f buf])
        from "1.IH"(1) [OF False x [symmetric] _ True this] Inl sp show ?thesis by auto
      next
        case e: False
        with Inl False x "1.prems"(1) sp show ?thesis
          by (auto simp: file_write_all.simps [of f buf] write_at_def intro!: exI [of _ 0])
      qed
    next
      case (Inr n)
      show ?thesis
      proof (cases "n = 0")
        case True
        with Inr False x "1.prems"(1) sp show ?thesis
          by (auto simp: file_write_all.simps [of f buf] write_at_def intro!: exI [of _ 0])
      next
        case n: False
        with Inr False x "1.prems"(1) have "file_write_all f1 (drop n buf) = (r, f')"
          by (simp add: file_write_all.simps [of f buf])
        note ih = "1.IH"(2) [OF False x [symmetric] Inr n this]
        from sp Inr have s1: "h_read f1 = h_read f" "h_write f1 = h_write f"
          "sched_ok (h_sched f1)" "n \<le> length buf" "h_pos f1 = h_pos f + n"
          "h_data f1 = write_at (h_pos f) (take n buf) (h_data f)"
          by simp_all
        from ih [OF s1(3)] obtain k where
          k: "h_read f' = h_read f" "h_write f' = h_write f" "sched_ok (h_sched f')"
            "k \<le> length buf - n"
            "h_data f' = write_at (h_pos f + n) (take k (drop n buf))
               (write_at (h_pos f) (take n buf) (h_data f))"
            "r = None \<longrightarrow> k = length buf - n" "\<forall>e. r = Some (Os e) \<longrightarrow> e \<noteq> 0"
          unfolding s1(1,2,5,6) by auto
        have "h_data f' = write_at (h_pos f) (take (n + k) buf) (h_data f)"
          using k(5) write_at_append [of "take n buf" "h_pos f" "take k (drop n buf)" "h_data f"]
            n False s1(4) by (simp add: take_add min_absorb2)
        with k n s1(4) show ?thesis by (auto intro!: exI [of _ "n + k"])
      qed
    qed
  qed
qed

text \<open>With an exhausted schedule each loop finishes in one call.\<close>

lemma file_read_exact_quiet:
  assumes "h_sched f = []" and "h_read f" and "h_pos f + length buf \<le> length (h_data f)"
  shows "file_read_exact f buf =
    ((None, slice (h_pos f) (length buf) (h_data f)), f\<lparr>h_pos := h_pos f + length buf\<rparr>)"
proof (cases "buf = []")
  case True
  then show ?thesis by (simp add: file_read_exact_def read_exact_loop.simps slice_def)
next
  case False
  have l: "length (slice (h_pos f) (length buf) (h_data f)) = length buf"
    using assms(3) by (rule length_slice)
  then have "slice (h_pos f) (length buf) (h_data f) \<noteq> []" using False by auto
  then show ?thesis using assms False l
    by (simp add: file_read_exact_def read_exact_loop.simps [of f] sys_read_def Let_def
        read_exact_loop.simps [of _ 0])
qed

lemma file_write_all_quiet:
  assumes "h_sched f = []" and "h_write f"
  shows "file_write_all f buf = (None,
    f\<lparr>h_data := write_at (h_pos f) buf (h_data f), h_pos := h_pos f + length buf\<rparr>)"
proof (cases "buf = []")
  case True
  then show ?thesis by (simp add: file_write_all.simps write_at_def)
next
  case False
  then show ?thesis using assms
    by (simp add: file_write_all.simps [of f buf] sys_write_def Let_def
        file_write_all.simps [of _ "[]"])
qed

end
