(* ===== verification/FileProps.thy ===== *)
theory FileProps
  imports FileOps HostFile
begin

text \<open>
  What the loops of \<open>file.rs\<close> guarantee over a C library whose file functions behave as
  documented: reads and writes may be short and may fail at any call. The contract is stated for
  the content of the file a C handle is open on and the handle's position \<open>f_fpos\<close>.
\<close>

section \<open>The contract of the file functions\<close>

abbreviation fpos :: "ext4_file \<Rightarrow> nat" where
  "fpos f \<equiv> unat (f_fpos f)"

type_synonym 'w content = "ext4_file \<Rightarrow> 'w \<Rightarrow> bytes"

text \<open>
  A successful \<open>ext4_fread\<close> delivers at least one byte, unless none was asked for or the position
  is at the end, and advances the position by what it delivered.
\<close>

definition fread_contract :: "'w content \<Rightarrow> 'w lwext4 \<Rightarrow> bool" where
  "fread_contract C L \<longleftrightarrow> (\<forall>f buf n w. length buf = unat n \<longrightarrow>
     (let ((r, f', buf', k), w') = l_fread (file_fns L) f buf n 0 w in
      C f' w' = C f w \<and> length buf' = length buf \<and>
      (r = 0 \<longrightarrow> unat k \<le> unat n \<and> unat k \<le> length (C f w) - fpos f \<and>
         (k = 0 \<longrightarrow> n = 0 \<or> length (C f w) \<le> fpos f) \<and>
         take (unat k) buf' = slice (fpos f) (unat k) (C f w) \<and> fpos f' = fpos f + unat k)))"

text \<open>
  \<open>ext4_fwrite\<close> writes at the position, or at the end of the file when the handle is in append mode:
  when it succeeds what it reports, when it fails some prefix.
\<close>

definition write_start :: "ext4_file \<Rightarrow> bytes \<Rightarrow> nat" where
  "write_start f d = (if f_flags f AND O_APPEND = 0 then fpos f else length d)"

definition fwrite_contract :: "'w content \<Rightarrow> 'w lwext4 \<Rightarrow> bool" where
  "fwrite_contract C L \<longleftrightarrow> (\<forall>f buf w.
     let ((r, f', k), w') = l_fwrite (file_fns L) f buf (slice_len buf) 0 w in
      f_flags f' = f_flags f \<and>
      (if r = 0 then unat k \<le> length buf \<and>
         C f' w' = write_at (write_start f (C f w)) (take (unat k) buf) (C f w) \<and>
         fpos f' = write_start f (C f w) + unat k
       else \<exists>m \<le> length buf. C f' w' = write_at (write_start f (C f w)) (take m buf) (C f w)))"

text \<open>\<open>ext4_fseek\<close> to the start, \<open>ext4_fsize\<close> and \<open>ext4_ftell\<close>.\<close>

definition fseek_contract :: "'w content \<Rightarrow> 'w lwext4 \<Rightarrow> bool" where
  "fseek_contract C L \<longleftrightarrow> (\<forall>f w. let ((r, f'), w') = l_fseek (file_fns L) f 0 SEEK_SET w in
     C f' w' = C f w \<and> (r = 0 \<longrightarrow> fpos f' = 0))"

definition fsize_contract :: "'w content \<Rightarrow> 'w lwext4 \<Rightarrow> bool" where
  "fsize_contract C L \<longleftrightarrow> (\<forall>f w.
     (let (n, w') = l_fsize (file_fns L) f w in C f w' = C f w \<and> unat n = length (C f w)) \<and>
     (let (n, w') = l_ftell (file_fns L) f w in C f w' = C f w))"

definition read_contract :: "'w content \<Rightarrow> 'w lwext4 \<Rightarrow> bool" where
  "read_contract C L \<longleftrightarrow> fread_contract C L \<and> fseek_contract C L \<and> fsize_contract C L"

text \<open>A library none of whose reads and rewinds fails.\<close>

definition reads_succeed :: "'w lwext4 \<Rightarrow> bool" where
  "reads_succeed L \<longleftrightarrow> (\<forall>f buf n w. fst (fst (l_fread (file_fns L) f buf n 0 w)) = 0) \<and>
     (\<forall>f w. fst (fst (l_fseek (file_fns L) f 0 SEEK_SET w)) = 0)"

text \<open>The content of the file a Rust handle is open on.\<close>

definition contents :: "'w content \<Rightarrow> 'w file_state \<Rightarrow> bytes" where
  "contents C st = C (inner (fst st)) (cst (snd st))"

definition position_of :: "'w file_state \<Rightarrow> nat" where
  "position_of st = fpos (inner (fst st))"

text \<open>Where its next write goes.\<close>

definition start_of :: "'w content \<Rightarrow> 'w file_state \<Rightarrow> nat" where
  "start_of C st = write_start (inner (fst st)) (contents C st)"

lemma length_write_at_end: "length (write_at (length d) xs d) = length d + length xs"
  by (simp add: write_at_def blit_def)

section \<open>Single calls\<close>

lemma File_read_spec:
  assumes "fread_contract C L" and "length chunk < 2 ^ 64"
  shows "\<exists>r chunk' st'. File_read L chunk st = Done ((r, chunk'), st') \<and>
    contents C st' = contents C st \<and> length chunk' = length chunk \<and>
    (reads_succeed L \<longrightarrow> (\<exists>n. r = Inr n)) \<and>
    (case r of Inl e \<Rightarrow> True
     | Inr k \<Rightarrow> unat k \<le> length chunk \<and> unat k \<le> length (contents C st) - position_of st \<and>
         (k = 0 \<longrightarrow> chunk = [] \<or> length (contents C st) \<le> position_of st) \<and>
         take (unat k) chunk' = slice (position_of st) (unat k) (contents C st) \<and>
         position_of st' = position_of st + unat k)"
proof -
  obtain self w where st: "st = (self, w)" by (cases st)
  obtain r f' buf' k s where c:
    "l_fread (file_fns L) (inner self) chunk (slice_len chunk) 0 (cst w) = ((r, f', buf', k), s)"
    by (metis surj_pair)
  have n: "unat (slice_len chunk) = length chunk" using assms(2) by (rule unat_slice_len)
  then have "slice_len chunk = 0 \<longleftrightarrow> chunk = []" by (metis length_0_conv unat_0 unat_eq_zero)
  moreover have "r = 0" if "reads_succeed L"
    using that c unfolding reads_succeed_def by (metis fst_conv)
  ultimately show ?thesis
    using assms(1) [unfolded fread_contract_def, rule_format, of chunk "slice_len chunk" "inner self"
        "cst w"] c n
    by (cases "r = 0") (auto simp: File_read_def st ffi_defs rust_simps contents_def position_of_def)
qed

lemma File_write_spec:
  assumes "fwrite_contract C L"
  shows "\<exists>r st' m. File_write L buf st = Done (r, st') \<and> m \<le> length buf \<and>
    contents C st' = write_at (start_of C st) (take m buf) (contents C st) \<and>
    f_flags (inner (fst st')) = f_flags (inner (fst st)) \<and>
    (case r of Inl e \<Rightarrow> True | Inr k \<Rightarrow> m = unat k \<and> position_of st' = start_of C st + unat k \<and>
       start_of C st' = start_of C st + unat k)"
proof -
  obtain self w where st: "st = (self, w)" by (cases st)
  obtain r f' k s where c:
    "l_fwrite (file_fns L) (inner self) buf (slice_len buf) 0 (cst w) = ((r, f', k), s)"
    by (metis surj_pair)
  note k = assms(1) [unfolded fwrite_contract_def, rule_format, of "inner self" buf "cst w", unfolded c, simplified]
  let ?i = "write_start (inner self) (C (inner self) (cst w))"
  show ?thesis
  proof (cases "r = 0")
    case True
    with k have "write_start f' (C f' s) = ?i + unat k"
      by (auto simp: write_start_def length_write_at_end)
    with True k c show ?thesis
      by (auto simp: File_write_def st ffi_defs rust_simps contents_def position_of_def start_of_def
          intro!: exI [of _ "unat k"])
  next
    case False
    with k obtain m where "m \<le> length buf"
      "C f' s = write_at ?i (take m buf) (C (inner self) (cst w))" by auto
    with False k c show ?thesis
      by (auto simp: File_write_def st ffi_defs rust_simps contents_def position_of_def start_of_def
          intro!: exI [of _ m])
  qed
qed

section \<open>The loops\<close>

lemma read_loop_spec:
  assumes C: "fread_contract C L" and chunk: "0 < length chunk" "length chunk < 2 ^ 64"
    and j: "position_of st = j" "unat tot = j" "j \<le> length (contents C st)"
    and sz: "length buf0 + length (contents C st) \<le> isize_max"
  shows "\<exists>r k st'. read_loop p L chunk (buf0 @ take j (contents C st)) tot st =
      Some (Done ((r, buf0 @ take k (contents C st)), st')) \<and>
    contents C st' = contents C st \<and> (reads_succeed L \<longrightarrow> (\<exists>n. r = Inr n)) \<and>
    (\<forall>n. r = Inr n \<longrightarrow> k = length (contents C st) \<and> unat n = length (contents C st))"
  using chunk j sz
proof (induction "length (contents C st) - j" arbitrary: chunk tot st j rule: less_induct)
  case less
  let ?d = "contents C st"
  obtain r chunk' st1 where rd: "File_read L chunk st = Done ((r, chunk'), st1)"
    and c1: "contents C st1 = ?d" "length chunk' = length chunk"
    and ok: "reads_succeed L \<longrightarrow> (\<exists>n. r = Inr n)"
    and res: "case r of Inl e \<Rightarrow> True
     | Inr k \<Rightarrow> unat k \<le> length chunk \<and> unat k \<le> length ?d - position_of st \<and>
         (k = 0 \<longrightarrow> chunk = [] \<or> length ?d \<le> position_of st) \<and>
         take (unat k) chunk' = slice (position_of st) (unat k) ?d \<and>
         position_of st1 = position_of st + unat k"
    using File_read_spec [OF C less.prems(2), of st] by blast
  show ?case
  proof (cases r)
    case (Inl e)
    then have "read_loop p L chunk (buf0 @ take j ?d) tot st =
        Some (Done ((Inl e, buf0 @ take j ?d), st1))"
      by (simp add: read_loop.simps [of p L chunk] rd)
    then show ?thesis using c1 ok Inl by blast
  next
    case (Inr k)
    with res less.prems(1,3) have k: "unat k \<le> length chunk" "unat k \<le> length ?d - j"
      "k = 0 \<Longrightarrow> length ?d \<le> j" "take (unat k) chunk' = slice j (unat k) ?d"
      "position_of st1 = j + unat k" by auto
    show ?thesis
    proof (cases "k = 0")
      case True
      then have "read_loop p L chunk (buf0 @ take j ?d) tot st =
          Some (Done ((Inr tot, buf0 @ take j ?d), st1))"
        by (simp add: read_loop.simps [of p L chunk] rd Inr)
      moreover have "j = length ?d" using k(3) True less.prems(5) by simp
      ultimately show ?thesis using c1(1) less.prems(4)
        by (intro exI [of _ "Inr tot"] exI [of _ j] exI [of _ st1]) simp
    next
      case False
      then have pos: "0 < unat k" using unat_gt_0 by blast
      have "isize_max < 2 ^ 64" by (simp add: isize_max_def)
      then have add: "add_u64 p tot k = Done (tot + k)" "unat (tot + k) = j + unat k"
        using k(2) less.prems(4,5,6) by (auto simp: add_u64_ok unat_add_u64)
      have small: "\<not> isize_max < length (buf0 @ take j ?d) + unat k"
        using k(2) less.prems(5,6) by simp
      have app: "(buf0 @ take j ?d) @ take (unat k) chunk' = buf0 @ take (j + unat k) ?d"
        by (simp add: k(4) slice_def take_add)
      have "read_loop p L chunk (buf0 @ take j ?d) tot st =
          read_loop p L chunk' (buf0 @ take (j + unat k) ?d) (tot + k) st1"
        using k(1) small False add(1) c1(2) app
        by (simp add: read_loop.simps [of p L chunk] rd Inr)
      moreover have "length (contents C st1) - (j + unat k) < length ?d - j"
        using pos k(2) c1(1) by simp
      ultimately show ?thesis
        using less.hyps [of st1 "j + unat k" chunk' "tot + k"] less.prems k(2,5) add(2) c1
        by simp
    qed
  qed
qed

lemma write_at_chain:
  "write_at (i + length xs) ys (write_at i xs d) = write_at i (xs @ ys) d"
  by (cases "xs = []") (simp_all add: write_at_append, simp add: write_at_def)

lemma write_loop_spec:
  assumes C: "fwrite_contract C L" and len: "length buf \<le> isize_max"
    and j: "j \<le> length buf" "unat written = j" "start_of C st = i + j"
      "0 < j \<longrightarrow> position_of st = i + j"
    and data: "contents C st = write_at i (take j buf) d"
  shows "\<exists>r m st'. write_loop p L buf written st = Some (Done (r, st')) \<and> m \<le> length buf \<and>
    contents C st' = write_at i (take m buf) d \<and>
    f_flags (inner (fst st')) = f_flags (inner (fst st)) \<and>
    (r = Inr () \<longrightarrow> m = length buf \<and> start_of C st' = i + length buf \<and>
       (buf \<noteq> [] \<longrightarrow> position_of st' = i + length buf))"
  using j data
proof (induction "length buf - j" arbitrary: written st j rule: less_induct)
  case less
  have sl: "unat (slice_len buf) = length buf" using len by (rule unat_slice_len_isize)
  show ?case
  proof (cases "j < length buf")
    case False
    then have "\<not> written < slice_len buf" using less.prems(2) by (simp add: word_less_nat_alt sl)
    then show ?thesis using False less.prems
      by (intro exI [of _ "Inr ()"] exI [of _ j] exI [of _ st]) (simp add: write_loop.simps)
  next
    case True
    then have w: "written < slice_len buf" using less.prems(2) by (simp add: word_less_nat_alt sl)
    obtain r st1 m where wr: "File_write L (drop j buf) st = Done (r, st1)"
      and m: "m \<le> length (drop j buf)"
      and c1: "contents C st1 = write_at (start_of C st) (take m (drop j buf)) (contents C st)"
      and f1: "f_flags (inner (fst st1)) = f_flags (inner (fst st))"
      and res: "case r of Inl e \<Rightarrow> True
        | Inr k \<Rightarrow> m = unat k \<and> position_of st1 = start_of C st + unat k \<and>
            start_of C st1 = start_of C st + unat k"
      using File_write_spec [OF C, of "drop j buf" st] by blast
    have "length (take j buf) = j" using less.prems(1) by simp
    with write_at_chain [of i "take j buf" "take m (drop j buf)" d]
    have c1: "contents C st1 = write_at i (take (j + m) buf) d"
      using c1 less.prems(3,5) by (simp only: take_add)
    note step = write_loop.simps [of p L buf written st] w wr less.prems(2)
    show ?thesis
    proof (cases r)
      case (Inl e)
      then show ?thesis using c1 f1 m True step
        by (intro exI [of _ "Inl e"] exI [of _ "j + m"] exI [of _ st1]) simp
    next
      case (Inr k)
      with res less.prems(3) have k: "m = unat k" "start_of C st1 = i + (j + unat k)"
        "position_of st1 = i + (j + unat k)" by simp_all
      show ?thesis
      proof (cases "k = 0")
        case True
        with Inr k c1 f1 m \<open>j < length buf\<close> step show ?thesis
          by (intro exI [of _ "Inl (Io (Simple WriteZero ''failed to write whole buffer''))"]
              exI [of _ j] exI [of _ st1]) simp
      next
        case False
        then have pos: "0 < unat k" using unat_gt_0 by blast
        have "isize_max < 2 ^ 64" by (simp add: isize_max_def)
        then have add: "add_u64 p written k = Done (written + k)" "unat (written + k) = j + unat k"
          using m k(1) len less.prems(2) True by (auto simp: add_u64_ok unat_add_u64)
        have "write_loop p L buf written st = write_loop p L buf (written + k) st1"
          using step Inr False add(1) by simp
        moreover have "length buf - (j + unat k) < length buf - j" using pos True by simp
        ultimately show ?thesis
          using less.hyps [of "j + unat k" "written + k" st1] add(2) c1 f1 k m True by simp
      qed
    qed
  qed
qed

text \<open>What every call keeps, the loops keep.\<close>

lemma read_loop_keeps:
  assumes step: "\<And>b st r st'. P st \<Longrightarrow> File_read L b st = Done (r, st') \<Longrightarrow> P st'"
    and run: "read_loop p L chunk buf tot st = Some (Done (x, st'))" and "P st"
  shows "P st'"
proof -
  have "L = L \<longrightarrow> P st \<longrightarrow> (\<forall>x' st''. Done (x, st') = Done (x', st'') \<longrightarrow> P st'')"
  proof (rule read_loop.raw_induct [where P = "\<lambda>p K chunk buf tot st y. K = L \<longrightarrow> P st \<longrightarrow>
        (\<forall>x st'. y = Done (x, st') \<longrightarrow> P st')", OF _ run], goal_cases)
    case (1 rl p K chunk buf tot st y)
    with step show ?case by (fastforce split: rust.splits prod.splits sum.splits if_splits)
  qed
  with assms(3) show ?thesis by blast
qed

lemma write_loop_keeps:
  assumes step: "\<And>b st r st'. P st \<Longrightarrow> File_write L b st = Done (r, st') \<Longrightarrow> P st'"
    and run: "write_loop p L buf n st = Some (Done (x, st'))" and "P st"
  shows "P st'"
proof -
  have "L = L \<longrightarrow> P st \<longrightarrow> (\<forall>x' st''. Done (x, st') = Done (x', st'') \<longrightarrow> P st'')"
  proof (rule write_loop.raw_induct [where P = "\<lambda>p K buf n st y. K = L \<longrightarrow> P st \<longrightarrow>
        (\<forall>x st'. y = Done (x, st') \<longrightarrow> P st')", OF _ run], goal_cases)
    case (1 rl p K buf n st y)
    with step show ?case by (fastforce split: rust.splits prod.splits sum.splits if_splits)
  qed
  with assms(3) show ?thesis by blast
qed

lemma read_to_end_keeps:
  assumes "\<And>b st r st'. P st \<Longrightarrow> File_read L b st = Done (r, st') \<Longrightarrow> P st'"
    and "\<And>st r st'. P st \<Longrightarrow> File_size L st = Done (r, st') \<Longrightarrow> P st'"
    and "\<And>s st r st'. P st \<Longrightarrow> File_seek L s st = Done (r, st') \<Longrightarrow> P st'"
    and run: "File_read_to_end p L buf st = Some (Done (x, st'))" and "P st"
  shows "P st'"
proof -
  obtain n st1 where 1: "File_size L st = Done (n, st1)"
    using run by (auto simp: File_read_to_end_def split: rust.splits)
  then have "P st1" by (rule assms(2) [OF \<open>P st\<close>])
  obtain r st2 where 2: "File_seek L (Start 0) st1 = Done (r, st2)"
    using run 1 by (auto simp: File_read_to_end_def split: rust.splits if_splits)
  then have "P st2" by (rule assms(3) [OF \<open>P st1\<close>])
  show ?thesis
  proof (cases r)
    case (Inl e)
    with run 1 2 \<open>P st2\<close> show ?thesis by (auto simp: File_read_to_end_def split: if_splits)
  next
    case (Inr m)
    with run 1 2 have "read_loop p L (replicate 8192 0) buf 0 st2 = Some (Done (x, st'))"
      by (auto simp: File_read_to_end_def split: if_splits)
    then show ?thesis using read_loop_keeps [of P L] assms(1) \<open>P st2\<close> by blast
  qed
qed

section \<open>A library with one file\<close>

text \<open>
  A C library that satisfies the contracts: one file, whose bytes are the whole state, with calls
  that move at most two bytes. The witnesses run on it.
\<close>

definition one_content :: "bytes content" where
  "one_content f w = take isize_max w"

definition one_fread ::
  "ext4_file \<Rightarrow> bytes \<Rightarrow> usize \<Rightarrow> usize \<Rightarrow> (bytes, i32 \<times> ext4_file \<times> bytes \<times> usize) cfun" where
  "one_fread f buf n r w =
     (let d = take isize_max w; m = min 2 (min (unat n) (length d - fpos f)) in
      ((0, f\<lparr>f_fpos := f_fpos f + of_nat m\<rparr>, slice (fpos f) m d @ drop m buf, of_nat m), w))"

definition one_fwrite ::
  "ext4_file \<Rightarrow> bytes \<Rightarrow> usize \<Rightarrow> usize \<Rightarrow> (bytes, i32 \<times> ext4_file \<times> usize) cfun" where
  "one_fwrite f buf n r w =
     (let d = take isize_max w; m = min 2 (length buf); i = write_start f d in
      if isize_max < i + m then ((ENOSPC, f, 0), w)
      else ((0, f\<lparr>f_fpos := of_nat (i + m)\<rparr>, of_nat m), write_at i (take m buf) d))"

definition one_file :: "bytes lwext4" where
  "one_file = \<lparr>
     mount_fns = \<lparr>l_device_register = (\<lambda>bd n w. (0, w)), l_device_unregister = (\<lambda>n w. (0, w)),
       l_mount = (\<lambda>dev mp ro w. (0, w)), l_umount = (\<lambda>mp w. (0, w)),
       l_mount_point_stats = (\<lambda>mp st w. ((0, st), w)), l_journal_start = (\<lambda>mp w. (0, w)),
       l_journal_stop = (\<lambda>mp w. (0, w)), l_recover = (\<lambda>mp w. (0, w)), l_cache_flush = (\<lambda>mp w. (0, w))\<rparr>,
     file_fns = \<lparr>l_fopen2 = (\<lambda>f path flags w. ((0, f\<lparr>f_flags := flags\<rparr>), w)), l_fclose = (\<lambda>f w. ((0, f), w)),
       l_ftruncate = (\<lambda>f n w. ((0, f), resize (unat n) w)), l_fread = one_fread, l_fwrite = one_fwrite,
       l_fseek = (\<lambda>f off org w. ((0, f\<lparr>f_fpos := off\<rparr>), w)), l_ftell = (\<lambda>f w. (f_fpos f, w)),
       l_fsize = (\<lambda>f w. (of_nat (length (take isize_max w)), w))\<rparr>,
     path_fns = \<lparr>l_fremove = (\<lambda>x w. (0, w)), l_flink = (\<lambda>x y w. (0, w)),
       l_frename = (\<lambda>x y w. (0, w)), l_fsymlink = (\<lambda>x y w. (0, w)),
       l_readlink = (\<lambda>x buf n r w. ((0, buf, 0), w)), l_dir_mk = (\<lambda>x w. (0, w)),
       l_dir_rm = (\<lambda>x w. (0, w)), l_mode_get = (\<lambda>x m w. ((0, 0x81A4), w)),
       l_mode_set = (\<lambda>x m w. (0, w)), l_owner_get = (\<lambda>x u g w. ((0, u, g), w)),
       l_owner_set = (\<lambda>x u g w. (0, w)), l_atime_get = (\<lambda>x t w. ((0, 1), w)),
       l_mtime_get = (\<lambda>x t w. ((0, 2), w)), l_ctime_get = (\<lambda>x t w. ((0, 3), w)),
       l_inode_exist = (\<lambda>x ty w. (0, w))\<rparr>,
     dir_fns = \<lparr>l_dir_open = (\<lambda>d path w. ((0, d), w)), l_dir_close = (\<lambda>d w. ((0, d), w)),
       l_dir_entry_next = (\<lambda>d w. ((None, d), w)), l_dir_entry_rewind = (\<lambda>d w. (d, w))\<rparr>,
     mkfs_fns = \<lparr>l_sizeof_ext4_fs = (\<lambda>w. (8, w)), l_mkfs = (\<lambda>b bd i ty w. ((0, i), w))\<rparr>\<rparr>"

lemma isize_max_bounds: "isize_max < 2 ^ 64" "2 \<le> isize_max"
  by (simp_all add: isize_max_def)

lemma fpos_advance:
  assumes "fpos f + m \<le> isize_max"
  shows "unat (f_fpos f + of_nat m) = fpos f + m" "unat (of_nat m :: usize) = m"
proof -
  show 1: "unat (of_nat m :: usize) = m"
    using assms isize_max_bounds(1) by (simp add: unat_of_nat)
  show "unat (f_fpos f + of_nat m) = fpos f + m"
    using assms isize_max_bounds(1) 1 by (simp add: unat_add_u64)
qed

lemma one_file_reads: "read_contract one_content one_file"
proof -
  have "fread_contract one_content one_file"
    unfolding fread_contract_def
  proof (intro allI impI)
    fix f :: ext4_file and buf :: bytes and n :: usize and w :: bytes
    assume len: "length buf = unat n"
    let ?d = "take isize_max w"
    define m where "m = min 2 (min (unat n) (length ?d - fpos f))"
    have m: "m \<le> unat n" "m \<le> length ?d - fpos f" "m = 0 \<longrightarrow> unat n = 0 \<or> length ?d \<le> fpos f"
      by (auto simp: m_def)
    have adv: "unat (f_fpos f + of_nat m) = fpos f + m" "unat (of_nat m :: usize) = m"
    proof -
      show "unat (f_fpos f + of_nat m) = fpos f + m"
        using m(2) fpos_advance [of f m] by (cases "m = 0") auto
      show "unat (of_nat m :: usize) = m"
        using m(2) fpos_advance [of f m] by (cases "m = 0") auto
    qed
    have nz: "n = 0 \<longleftrightarrow> unat n = 0" for n :: usize by (simp add: unat_eq_zero)
    have z: "(of_nat m :: usize) = 0 \<longleftrightarrow> m = 0" by (simp only: nz adv(2))
    have call: "l_fread (file_fns one_file) f buf n 0 w =
        ((0, f\<lparr>f_fpos := f_fpos f + of_nat m\<rparr>, slice (fpos f) m ?d @ drop m buf, of_nat m), w)"
      by (simp add: one_file_def one_fread_def Let_def m_def)
    have "length (slice (fpos f) m ?d) = m" using m(2) by (cases "m = 0") (auto simp: slice_def)
    then show "let ((r, f', buf', k), w') = l_fread (file_fns one_file) f buf n 0 w in
      one_content f' w' = one_content f w \<and> length buf' = length buf \<and>
      (r = 0 \<longrightarrow> unat k \<le> unat n \<and> unat k \<le> length (one_content f w) - fpos f \<and>
         (k = 0 \<longrightarrow> n = 0 \<or> length (one_content f w) \<le> fpos f) \<and>
         take (unat k) buf' = slice (fpos f) (unat k) (one_content f w) \<and> fpos f' = fpos f + unat k)"
      using m adv z nz [of n] len
      by (simp add: call one_content_def)
  qed
  moreover have "unat (of_nat (min (length w) isize_max) :: u64) = min (length w) isize_max" for w :: bytes
    using isize_max_bounds(1) by (simp add: unat_of_nat min_def)
  ultimately show ?thesis
    by (simp add: read_contract_def fseek_contract_def fsize_contract_def one_file_def one_content_def)
qed

lemma one_file_writes: "fwrite_contract one_content one_file"
  unfolding fwrite_contract_def
proof (intro allI)
  fix f :: ext4_file and buf w :: bytes
  let ?d = "take isize_max w"
  define i where "i = write_start f ?d"
  define m where "m = min 2 (length buf)"
  have m: "m \<le> length buf" by (simp add: m_def)
  show "let ((r, f', k), w') = l_fwrite (file_fns one_file) f buf (slice_len buf) 0 w in
      f_flags f' = f_flags f \<and>
      (if r = 0 then unat k \<le> length buf \<and>
         one_content f' w' = write_at (write_start f (one_content f w)) (take (unat k) buf) (one_content f w) \<and>
         fpos f' = write_start f (one_content f w) + unat k
       else \<exists>m \<le> length buf. one_content f' w' =
         write_at (write_start f (one_content f w)) (take m buf) (one_content f w))"
  proof (cases "isize_max < i + m")
    case True
    then have "l_fwrite (file_fns one_file) f buf (slice_len buf) 0 w = ((ENOSPC, f, 0), w)"
      by (simp add: one_file_def one_fwrite_def Let_def m_def i_def)
    then show ?thesis
      by (auto simp: one_content_def write_at_def ENOSPC_def intro!: exI [of _ 0])
  next
    case False
    then have fit: "i + m \<le> isize_max" by simp
    then have "length (write_at i (take m buf) ?d) \<le> isize_max"
      by (auto simp: write_at_def blit_def)
    moreover have "l_fwrite (file_fns one_file) f buf (slice_len buf) 0 w =
        ((0, f\<lparr>f_fpos := of_nat (i + m)\<rparr>, of_nat m), write_at i (take m buf) ?d)"
      using fit by (simp add: one_file_def one_fwrite_def Let_def m_def i_def)
    moreover have "unat (of_nat (i + m) :: u64) = i + m" "unat (of_nat m :: u64) = m"
      using fit isize_max_bounds(1) by (simp_all add: unat_of_nat del: of_nat_add)
    ultimately show ?thesis using m by (simp add: one_content_def i_def del: of_nat_add)
  qed
qed

lemma one_file_succeeds: "reads_succeed one_file"
  by (simp add: reads_succeed_def one_file_def one_fread_def Let_def)

definition one_handle :: File where
  "one_handle = \<lparr>ffs = new_mount 0 1 False True, inner = ext4_file_default, fpath = ''a''\<rparr>"

definition one_state :: "bytes \<Rightarrow> bytes file_state" where
  "one_state d = (one_handle, \<lparr>counter = 1, cst = d, calls = []\<rparr>)"

section \<open>Properties\<close>

lemma rewind_spec:
  assumes "fseek_contract C L" and "fsize_contract C L"
  shows "\<exists>r st'. File_seek L (Start 0) st = Done (r, st') \<and> contents C st' = contents C st \<and>
    (reads_succeed L \<longrightarrow> (\<exists>n. r = Inr n)) \<and> (\<forall>n. r = Inr n \<longrightarrow> position_of st' = 0)"
proof -
  obtain self w where st: "st = (self, w)" by (cases st)
  obtain r f' s where c: "l_fseek (file_fns L) (inner self) 0 SEEK_SET (cst w) = ((r, f'), s)"
    by (metis surj_pair)
  obtain n s' where t: "l_ftell (file_fns L) f' s = (n, s')" by fastforce
  have "r = 0" if "reads_succeed L" using that c unfolding reads_succeed_def by (metis fst_conv)
  moreover have "C f' s = C (inner self) (cst w)" "r = 0 \<longrightarrow> fpos f' = 0"
    using assms(1) [unfolded fseek_contract_def, rule_format, of "inner self" "cst w"] c by auto
  moreover have "C f' s' = C f' s"
    using assms(2) [unfolded fsize_contract_def, rule_format, of f' s] t by auto
  ultimately show ?thesis using c t
    by (cases "r = 0")
      (auto simp: File_seek_def File_position_def st ffi_defs rust_simps seek_defs contents_def
        position_of_def try_st_def seq_st_def)
qed

lemma File_size_spec:
  assumes "fsize_contract C L"
  shows "\<exists>n st'. File_size L st = Done (n, st') \<and> contents C st' = contents C st \<and>
    unat n = length (contents C st)"
proof -
  obtain self w where st: "st = (self, w)" by (cases st)
  obtain n s where c: "l_fsize (file_fns L) (inner self) (cst w) = (n, s)" by fastforce
  then show ?thesis
    using assms [unfolded fsize_contract_def, rule_format, of "inner self" "cst w"]
    by (auto simp: File_size_def st ffi_defs rust_simps contents_def)
qed

lemma read_to_end_spec:
  assumes "read_contract C L" and sz: "length buf + length (contents C st) \<le> isize_max"
  shows "\<exists>r k st'. File_read_to_end p L buf st =
      Some (Done ((r, buf @ take k (contents C st)), st')) \<and>
    contents C st' = contents C st \<and> (reads_succeed L \<longrightarrow> (\<exists>n. r = Inr n)) \<and>
    (\<forall>n. r = Inr n \<longrightarrow> k = length (contents C st) \<and> unat n = length (contents C st))"
proof -
  have C: "fread_contract C L" "fseek_contract C L" "fsize_contract C L"
    using assms(1) by (simp_all add: read_contract_def)
  obtain n st1 where 1: "File_size L st = Done (n, st1)" "contents C st1 = contents C st"
    "unat n = length (contents C st)" using File_size_spec [OF C(3)] by blast
  obtain r st2 where 2: "File_seek L (Start 0) st1 = Done (r, st2)" "contents C st2 = contents C st1"
    "reads_succeed L \<longrightarrow> (\<exists>n. r = Inr n)" "\<forall>n. r = Inr n \<longrightarrow> position_of st2 = 0"
    using rewind_spec [OF C(2,3)] by blast
  have fits: "\<not> isize_max < length buf + unat n" using 1(3) sz by simp
  show ?thesis
  proof (cases r)
    case (Inl e)
    then have "File_read_to_end p L buf st = Some (Done ((Inl e, buf @ take 0 (contents C st)), st2))"
      using 1(1) 2(1) fits by (simp add: File_read_to_end_def)
    then show ?thesis using 1(2) 2(2,3) Inl
      by (intro exI [of _ "Inl e"] exI [of _ 0] exI [of _ st2]) auto
  next
    case (Inr m)
    have "File_read_to_end p L buf st = read_loop p L (replicate 8192 0) (buf @ take 0 (contents C st2)) 0 st2"
      using 1(1) 2(1) fits Inr by (simp add: File_read_to_end_def)
    then show ?thesis
      using read_loop_spec [OF C(1), of "replicate 8192 0" st2 0 0 buf p] 2(2,4) 1(2) sz Inr by simp
  qed
qed

text \<open>
  C14: reading a whole file terminates, never panics and loses nothing: over any library whose reads
  may be short or fail, \<open>read_to_end\<close> of a file that fits into a vector with the bytes already
  there returns, wherever the handle stood before; on success it has appended exactly the content
  of the file and returns its length, on an error it has appended a prefix of it; the file is
  unchanged, and it succeeds if no call fails.
\<close>

theorem read_to_end_total:
  assumes "read_contract C L" and "length buf + length (contents C st) \<le> isize_max"
  shows "\<exists>r k st'. File_read_to_end p L buf st =
      Some (Done ((r, buf @ take k (contents C st)), st')) \<and>
    contents C st' = contents C st \<and> (reads_succeed L \<longrightarrow> (\<exists>n. r = Inr n)) \<and>
    (\<forall>n. r = Inr n \<longrightarrow> k = length (contents C st) \<and> unat n = length (contents C st))"
  by (rule read_to_end_spec [OF assms])

theorem read_to_end_total_witness:
  "\<exists>n st'. File_read_to_end Debug one_file [9] (one_state [1, 2, 3, 4, 5]) =
     Some (Done ((Inr n, [9, 1, 2, 3, 4, 5]), st')) \<and> unat n = 5"
proof -
  have d: "contents one_content (one_state [1, 2, 3, 4, 5]) = [1, 2, 3, 4, 5]"
    by (simp add: contents_def one_state_def one_content_def isize_max_def)
  show ?thesis
    using read_to_end_total [OF one_file_reads, of "[9]" "one_state [1, 2, 3, 4, 5]" Debug]
      one_file_succeeds by (auto simp: d isize_max_def)
qed

lemma write_all_spec:
  assumes "fwrite_contract C L" and "length buf \<le> isize_max"
  shows "\<exists>r m st'. File_write_all p L buf st = Some (Done (r, st')) \<and> m \<le> length buf \<and>
    contents C st' = write_at (start_of C st) (take m buf) (contents C st) \<and>
    f_flags (inner (fst st')) = f_flags (inner (fst st)) \<and>
    (r = Inr () \<longrightarrow> m = length buf \<and> start_of C st' = start_of C st + length buf \<and>
       (buf \<noteq> [] \<longrightarrow> position_of st' = start_of C st + length buf))"
proof -
  have "contents C st = write_at (start_of C st) (take 0 buf) (contents C st)"
    by (simp add: write_at_def)
  from write_loop_spec [OF assms _ _ _ _ this, of 0 p] show ?thesis
    by (simp add: File_write_all_def)
qed

text \<open>
  C15: \<open>write_all\<close> terminates, never panics and writes all or reports: over any library whose writes
  may be short or fail it returns, even if a write makes no progress; on success the whole buffer
  stands in the file at the old position, or at the end of the file if the handle is in append
  mode, and the position is behind it; on an error a prefix of the buffer stands there and the
  rest of the file is as it was.
\<close>

theorem write_all_total:
  assumes "fwrite_contract C L" and "length buf \<le> isize_max"
  shows "\<exists>r m st'. File_write_all p L buf st = Some (Done (r, st')) \<and> m \<le> length buf \<and>
    contents C st' = write_at (start_of C st) (take m buf) (contents C st) \<and>
    f_flags (inner (fst st')) = f_flags (inner (fst st)) \<and>
    (r = Inr () \<longrightarrow> m = length buf \<and> start_of C st' = start_of C st + length buf \<and>
       (buf \<noteq> [] \<longrightarrow> position_of st' = start_of C st + length buf))"
  by (rule write_all_spec [OF assms])

theorem write_all_total_witness:
  "\<exists>r m st'. File_write_all Debug one_file [7, 8, 9] (one_state [1, 2]) = Some (Done (r, st')) \<and>
     (r = Inr () \<longrightarrow> contents one_content st' = [7, 8, 9]) \<and> m \<le> (3 :: nat)"
proof -
  have d: "contents one_content (one_state [1, 2]) = [1, 2]" "start_of one_content (one_state [1, 2]) = 0"
    by (simp_all add: contents_def one_state_def one_content_def isize_max_def start_of_def write_start_def
        one_handle_def ext4_file_default_def)
  have "length [7, 8, 9 :: u8] \<le> isize_max" by (simp add: isize_max_def)
  from write_all_total [OF one_file_writes this, of Debug "one_state [1, 2]"] show ?thesis
    by (auto simp: d write_at_def blit_def)
qed

text \<open>
  C16: what was written is read back, in its place: after \<open>write_all\<close> of a buffer succeeded on an
  open file, \<open>read_to_end\<close> on the same handle returns, and if it succeeds delivers the content the
  file had, with the buffer at the place where the write began: at the position of the handle, or
  at the end of the file in append mode, zeros filling the gap if that lay behind the end. A file
  that was empty and written from its beginning is read back as exactly the buffer. Reading
  succeeds if no call fails.
\<close>

theorem write_then_read_roundtrip:
  assumes "read_contract C L" and "fwrite_contract C L"
    and "length (contents C st) \<le> isize_max" and "start_of C st + length buf \<le> isize_max"
    and "File_write_all p L buf st = Some (Done (Inr (), st1))"
  shows "\<exists>r out st2. File_read_to_end p L [] st1 = Some (Done ((r, out), st2)) \<and>
    (reads_succeed L \<longrightarrow> (\<exists>n. r = Inr n)) \<and>
    (\<forall>n. r = Inr n \<longrightarrow> unat n = length out \<and>
       out = (if buf = [] then contents C st
              else take (start_of C st) (contents C st) @
                replicate (start_of C st - length (contents C st)) 0 @ buf @
                drop (start_of C st + length buf) (contents C st)))"
proof -
  let ?i = "start_of C st" and ?d = "contents C st"
  have "contents C st1 = write_at ?i buf ?d"
    using write_all_spec [OF assms(2), of buf p st] assms(4,5) by auto
  also have "\<dots> = (if buf = [] then ?d
      else take ?i ?d @ replicate (?i - length ?d) 0 @ buf @ drop (?i + length buf) ?d)"
    by (simp add: write_at_def blit_def)
  finally have c: "contents C st1 = \<dots>" .
  then have "length (contents C st1) \<le> isize_max" using assms(3,4) by auto
  with read_to_end_spec [OF assms(1), of "[]" st1 p] obtain r k st2 where
    "File_read_to_end p L [] st1 = Some (Done ((r, take k (contents C st1)), st2))"
    "reads_succeed L \<longrightarrow> (\<exists>n. r = Inr n)"
    "\<forall>n. r = Inr n \<longrightarrow> k = length (contents C st1) \<and> unat n = length (contents C st1)" by auto
  then show ?thesis unfolding c [symmetric] by (intro exI conjI) auto
qed

lemma one_file_write:
  assumes "f_flags (inner self) = 0" and "fpos (inner self) + min 2 (length buf) \<le> isize_max"
  shows "File_write one_file buf (self, w) = Done (Inr (of_nat (min 2 (length buf))),
    (self\<lparr>inner := (inner self)\<lparr>f_fpos := of_nat (fpos (inner self) + min 2 (length buf))\<rparr>\<rparr>,
     w\<lparr>cst := write_at (fpos (inner self)) (take (min 2 (length buf)) buf) (take isize_max (cst w)),
       calls := calls w @ [C_fwrite (inner self) buf]\<rparr>))"
  using assms
  by (simp add: File_write_def ffi_defs rust_simps one_file_def one_fwrite_def Let_def write_start_def
    del: of_nat_add)

lemma write_loop_step:
  assumes "written < slice_len buf" and "File_write L (drop (unat written) buf) st = Done (Inr n, st')"
    and "n \<noteq> 0" and "add_u64 p written n = Done written'"
  shows "write_loop p L buf written st = write_loop p L buf written' st'"
  using assms by (simp add: write_loop.simps [of p L buf written st])

lemma one_file_write_all:
  "\<exists>st'. File_write_all Debug one_file [7, 8, 9] (one_state []) = Some (Done (Inr (), st'))"
proof -
  have big: "2 \<le> isize_max" "3 \<le> isize_max" by (simp_all add: isize_max_def)
  obtain s1 where 1: "File_write one_file (drop (unat (0 :: u64)) [7, 8, 9]) (one_state []) = Done (Inr 2, s1)"
    "fpos (inner (fst s1)) = 2" "f_flags (inner (fst s1)) = 0"
    using big by (simp add: one_state_def one_file_write one_handle_def ext4_file_default_def)
  obtain s2 where 2: "File_write one_file (drop (unat (2 :: u64)) [7, 8, 9]) s1 = Done (Inr 1, s2)"
  proof -
    have "unat (2 :: u64) = 2" by simp
    then have "drop (unat (2 :: u64)) [7, 8, 9] = [9 :: u8]" by (simp only: numeral_2_eq_2 drop_Suc_Cons drop0)
    with that big 1(2,3) show ?thesis by (cases s1) (simp add: one_file_write)
  qed
  have "write_loop Debug one_file [7, 8, 9] 0 (one_state []) = write_loop Debug one_file [7, 8, 9] 2 s1"
    by (rule write_loop_step [OF _ 1(1)]) (simp_all add: slice_len_def add_u64_def)
  also have "\<dots> = write_loop Debug one_file [7, 8, 9] 3 s2"
    by (rule write_loop_step [OF _ 2]) (simp_all add: slice_len_def add_u64_def)
  also have "\<dots> = Some (Done (Inr (), s2))" by (subst write_loop.simps) (simp add: slice_len_def)
  finally show ?thesis by (simp add: File_write_all_def)
qed

theorem write_then_read_roundtrip_witness:
  "\<exists>st1 n st2. File_write_all Debug one_file [7, 8, 9] (one_state []) = Some (Done (Inr (), st1)) \<and>
     File_read_to_end Debug one_file [] st1 = Some (Done ((Inr n, [7, 8, 9]), st2)) \<and> unat n = 3"
proof -
  obtain st1 where w: "File_write_all Debug one_file [7, 8, 9] (one_state []) = Some (Done (Inr (), st1))"
    using one_file_write_all by blast
  have d: "contents one_content (one_state []) = []" "start_of one_content (one_state []) = 0"
    by (simp_all add: contents_def one_state_def one_content_def start_of_def write_start_def
        one_handle_def ext4_file_default_def)
  have b: "length (contents one_content (one_state [])) \<le> isize_max"
    "start_of one_content (one_state []) + length [7, 8, 9 :: u8] \<le> isize_max"
    by (simp_all add: d isize_max_def)
  from write_then_read_roundtrip [OF one_file_reads one_file_writes b w] obtain r out st2 where
    "File_read_to_end Debug one_file [] st1 = Some (Done ((r, out), st2))" "\<exists>n. r = Inr n"
    "\<forall>n. r = Inr n \<longrightarrow> unat n = length out \<and> out = [7, 8, 9]"
    using one_file_succeeds by (auto simp: d)
  with w show ?thesis by auto
qed

lemma read_to_string_spec:
  assumes "read_contract C L" and "length (contents C st) \<le> isize_max"
  shows "\<exists>r s st'. File_read_to_string p L old st = Some (Done ((r, s), st')) \<and>
    (case r of
       Inr n \<Rightarrow> is_str s \<and> bytes_of_str s = contents C st \<and> unat n = length (contents C st)
     | Inl e \<Rightarrow> s = old) \<and>
    (reads_succeed L \<longrightarrow> (if utf8_valid (contents C st) then \<exists>n. r = Inr n
       else r = Inl (InvalidArgument ''file contains invalid UTF-8'')))"
proof -
  from read_to_end_spec [OF assms(1), of "[]" st p] assms(2) obtain r k st' where
    1: "File_read_to_end p L [] st = Some (Done ((r, take k (contents C st)), st'))"
      "reads_succeed L \<longrightarrow> (\<exists>n. r = Inr n)"
      "\<forall>n. r = Inr n \<longrightarrow> k = length (contents C st) \<and> unat n = length (contents C st)"
    by auto
  show ?thesis
  proof (cases r)
    case (Inl e)
    with 1 show ?thesis by (simp add: File_read_to_string_def)
  next
    case (Inr n)
    with 1(3) have n: "take k (contents C st) = contents C st" "unat n = length (contents C st)" by auto
    show ?thesis
    proof (cases "from_utf8 (contents C st)")
      case None
      then have "\<not> utf8_valid (contents C st)" by (simp add: from_utf8_def split: if_splits)
      with 1(1) n Inr None show ?thesis by (simp add: File_read_to_string_def)
    next
      case (Some s)
      then have "utf8_valid (contents C st)" by (simp add: from_utf8_def split: if_splits)
      with 1(1) n Inr Some from_utf8_is_str [OF Some] show ?thesis
        by (simp add: File_read_to_string_def)
    qed
  qed
qed

text \<open>
  \<open>read_to_string\<close> never delivers a broken string: on success the string is valid UTF-8 and its
  bytes are exactly the content of the file; on an error the caller's string keeps its old value;
  a file that is not UTF-8 is an invalid-argument error whenever reading it succeeds.
\<close>

theorem read_to_string_valid:
  assumes "read_contract C L" and "length (contents C st) \<le> isize_max"
  shows "\<exists>r s st'. File_read_to_string p L old st = Some (Done ((r, s), st')) \<and>
    (case r of
       Inr n \<Rightarrow> is_str s \<and> bytes_of_str s = contents C st \<and> unat n = length (contents C st)
     | Inl e \<Rightarrow> s = old) \<and>
    (reads_succeed L \<longrightarrow> (if utf8_valid (contents C st) then \<exists>n. r = Inr n
       else r = Inl (InvalidArgument ''file contains invalid UTF-8'')))"
  by (rule read_to_string_spec [OF assms])

theorem read_to_string_valid_witness:
  "\<exists>r st'. File_read_to_string Debug one_file ''old'' (one_state [0x61, 0xFF]) =
     Some (Done ((r, ''old''), st')) \<and> r = Inl (InvalidArgument ''file contains invalid UTF-8'')"
proof -
  have d: "contents one_content (one_state [0x61, 0xFF]) = [0x61, 0xFF]"
    by (simp add: contents_def one_state_def one_content_def isize_max_def)
  have bad: "\<not> utf8_valid [0x61, 0xFF]" by code_simp
  have "length (contents one_content (one_state [0x61, 0xFF])) \<le> isize_max"
    by (simp add: d isize_max_def)
  from read_to_string_valid [OF one_file_reads this, of Debug "''old''"] one_file_succeeds bad
  show ?thesis by (auto simp: d)
qed

text \<open>
  \<open>seek\<close> makes one call with the offset and origin the variant names, then reports the position
  lwext4 has after it, or the decoded error without asking; an offset from the start of \<open>2 ^ 63\<close>
  or more reaches lwext4 as a negative number.
\<close>

theorem seek_passes_offset:
  "\<exists>r self' w' off org. File_seek L pos (self, w) = Done (r, (self', w')) \<and>
     (case pos of
        Start n \<Rightarrow> org = SEEK_SET \<and> sint off = (if unat n < 2 ^ 63 then int (unat n) else int (unat n) - 2 ^ 64)
      | Current k \<Rightarrow> org = SEEK_CUR \<and> off = k
      | End k \<Rightarrow> org = SEEK_END \<and> off = k) \<and>
     (case fst (l_fseek (file_fns L) (inner self) off org (cst w)) of (ret, f) \<Rightarrow>
        inner self' = f \<and>
        (if ret = 0 then r = Inr (fst (l_ftell (file_fns L) f
             (snd (l_fseek (file_fns L) (inner self) off org (cst w))))) \<and>
           calls w' = calls w @ [C_fseek (inner self) off org, C_ftell f]
         else r = Inl (err_of ret) \<and> calls w' = calls w @ [C_fseek (inner self) off org]))"
proof -
  obtain off org where raw: "SeekFrom_to_raw pos = (off, org)" by fastforce
  have "case pos of
        Start n \<Rightarrow> org = SEEK_SET \<and> sint off = (if unat n < 2 ^ 63 then int (unat n) else int (unat n) - 2 ^ 64)
      | Current k \<Rightarrow> org = SEEK_CUR \<and> off = k
      | End k \<Rightarrow> org = SEEK_END \<and> off = k"
    using raw by (cases pos) (auto simp: sint_u64)
  moreover obtain ret f s where c: "l_fseek (file_fns L) (inner self) off org (cst w) = ((ret, f), s)"
    by (metis surj_pair)
  moreover obtain n s' where t: "l_ftell (file_fns L) f s = (n, s')" by fastforce
  moreover have "File_seek L pos (self, w) = Done
      (if ret = 0 then Inr n else Inl (err_of ret), self\<lparr>inner := f\<rparr>,
       w\<lparr>cst := (if ret = 0 then s' else s),
         calls := calls w @ C_fseek (inner self) off org # (if ret = 0 then [C_ftell f] else [])\<rparr>)"
    using c t
    by (simp add: File_seek_def File_position_def raw ffi_defs rust_simps try_st_def seq_st_def)
  ultimately show ?thesis
    by (intro exI [of _ "if ret = 0 then Inr n else Inl (err_of ret)"] exI [of _ "self\<lparr>inner := f\<rparr>"]
        exI [of _ "w\<lparr>cst := (if ret = 0 then s' else s),
           calls := calls w @ C_fseek (inner self) off org # (if ret = 0 then [C_ftell f] else [])\<rparr>"]
        exI [of _ off] exI [of _ org]) simp
qed

end
