(* ===== verification/DirOps.thy ===== *)
theory DirOps
  imports FsCore
begin

text \<open>\<open>dir.rs\<close>: directory handles and the entries they deliver.\<close>

section \<open>Handles and entries\<close>

record Dir =
  dfs :: Ext4Fs
  dinner :: ext4_dir

record DirEntry =
  ent_name :: string
  ent_inode :: u64
  ent_file_type :: FileType

type_synonym 'w dir_state = "Dir \<times> 'w world"

definition Dir_open :: "'w lwext4 \<Rightarrow> Ext4Fs \<Rightarrow> string \<Rightarrow> ('w world, error + Dir) comp" where
  "Dir_open L self path =
     try_res (make_path self path) (\<lambda>full_path.
     seq_st (ext4_dir_open L ext4_dir_default full_path) (\<lambda>(ret, d).
     try_st (lift_rust (check_errno_with_path ret path)) (\<lambda>_.
     ret_st (Inr \<lparr>dfs = self, dinner = d\<rparr>))))"

text \<open>What \<open>next_entry\<close> makes of the entry lwext4 points to; the slice may panic.\<close>

definition entry_of_raw :: "ext4_direntry \<Rightarrow> DirEntry rust" where
  "entry_of_raw e =
     (let name_len = unat (de_name_length e) in
      if length (de_name e) < name_len then Panic
      else (let name_bytes = take name_len (de_name e);
                name = (case from_utf8 name_bytes of
                    Some s \<Rightarrow> s | None \<Rightarrow> from_utf8_lossy name_bytes)
            in Done \<lparr>ent_name = name, ent_inode = u64_of_u32 (de_inode e),
                     ent_file_type = FileType_from_raw (de_inode_type e)\<rparr>))"

definition Dir_next_entry :: "'w lwext4 \<Rightarrow> ('w dir_state, (error + DirEntry) option) comp" where
  "Dir_next_entry L = (\<lambda>(self, w).
     bind_rust (ext4_dir_entry_next L (dinner self) w) (\<lambda>((ptr, d), w).
     let st = (self\<lparr>dinner := d\<rparr>, w) in
     case ptr of
       None \<Rightarrow> Done (None, st)
     | Some e \<Rightarrow> bind_rust (entry_of_raw e) (\<lambda>entry. Done (Some (Inr entry), st))))"

definition Dir_rewind :: "'w lwext4 \<Rightarrow> ('w dir_state, unit) comp" where
  "Dir_rewind L = (\<lambda>(self, w).
     bind_rust (ext4_dir_entry_rewind L (dinner self) w) (\<lambda>(d, w).
       Done ((), (self\<lparr>dinner := d\<rparr>, w))))"

definition Dir_drop :: "'w lwext4 \<Rightarrow> Dir \<Rightarrow> ('w world, unit) comp" where
  "Dir_drop L self = ignore (ext4_dir_close L (dinner self))"

definition Dir_next :: "'w lwext4 \<Rightarrow> ('w dir_state, (error + DirEntry) option) comp" where
  "Dir_next L = Dir_next_entry L"

definition DirEntry_name :: "DirEntry \<Rightarrow> string" where
  "DirEntry_name e = ent_name e"

definition DirEntry_inode :: "DirEntry \<Rightarrow> u64" where
  "DirEntry_inode e = ent_inode e"

definition DirEntry_file_type :: "DirEntry \<Rightarrow> FileType" where
  "DirEntry_file_type e = ent_file_type e"

definition DirEntry_is_file :: "DirEntry \<Rightarrow> bool" where
  "DirEntry_is_file e = FileType_is_file (ent_file_type e)"

definition DirEntry_is_dir :: "DirEntry \<Rightarrow> bool" where
  "DirEntry_is_dir e = FileType_is_dir (ent_file_type e)"

definition DirEntry_is_symlink :: "DirEntry \<Rightarrow> bool" where
  "DirEntry_is_symlink e = FileType_is_symlink (ent_file_type e)"

section \<open>Properties\<close>

text \<open>
  Decoding a directory entry never panics, whatever lwext4 stored in its 255-byte name array:
  the name is always valid UTF-8, is the stored bytes themselves when they are valid, keeps the
  inode number and decodes the type.
\<close>

theorem entry_of_raw_total:
  assumes "length (de_name e) = 255"
  shows "\<exists>d. entry_of_raw e = Done d \<and> is_str (ent_name d) \<and>
    (utf8_valid (take (unat (de_name_length e)) (de_name e)) \<longrightarrow>
       bytes_of_str (ent_name d) = take (unat (de_name_length e)) (de_name e)) \<and>
    unat (ent_inode d) = unat (de_inode e) \<and>
    ent_file_type d = FileType_from_raw (de_inode_type e)"
  using unat_u8_lt [of "de_name_length e"] assms
  by (auto simp: entry_of_raw_def Let_def from_utf8_lossy_is_str dest: from_utf8_is_str
      split: option.splits) (simp add: from_utf8_def split: if_splits)

theorem entry_of_raw_total_witness:
  "\<exists>d. entry_of_raw \<lparr>de_inode = 12, de_entry_length = 16, de_name_length = 2, de_inode_type = 1,
       de_name = 0x61 # 0xFF # replicate 253 0\<rparr> = Done d \<and> is_str (ent_name d) \<and>
     ent_file_type d = RegularFile"
  using entry_of_raw_total [of "\<lparr>de_inode = 12, de_entry_length = 16, de_name_length = 2,
       de_inode_type = 1, de_name = 0x61 # 0xFF # replicate 253 0\<rparr>"]
  by (auto simp: FileType_from_raw_def de_defs)

end
