(* ===== verification/FsOps.thy ===== *)
theory FsOps
  imports FileOps DirOps
begin

text \<open>
  The operations of \<open>Ext4Fs\<close> (\<open>fs.rs\<close>) on a mounted file system, in the order of the code.
\<close>

section \<open>Statistics\<close>

text \<open>The bytes before the first NUL of the 16-byte name field, decoded lossily.\<close>

definition volume_name_of :: "bytes \<Rightarrow> string" where
  "volume_name_of name_bytes =
     (let len = (case position (\<lambda>c. c = 0) name_bytes of Some n \<Rightarrow> n | None \<Rightarrow> 16)
      in from_utf8_lossy (take len name_bytes))"

definition stats_of_raw :: "ext4_mount_stats \<Rightarrow> FsStats" where
  "stats_of_raw st = \<lparr>block_size = ms_block_size st, total_blocks = ms_blocks_count st,
     free_blocks = ms_free_blocks_count st, total_inodes = u64_of_u32 (ms_inodes_count st),
     free_inodes = u64_of_u32 (ms_free_inodes_count st),
     block_group_count = ms_block_group_count st, blocks_per_group = ms_blocks_per_group st,
     inodes_per_group = ms_inodes_per_group st,
     volume_name = volume_name_of (ms_volume_name st)\<rparr>"

definition stat :: "'w lwext4 \<Rightarrow> Ext4Fs \<Rightarrow> ('w world, error + FsStats) comp" where
  "stat L self =
     seq_st (ext4_mount_point_stats L (mount_point self) ext4_mount_stats_default) (\<lambda>(ret, st).
     try_st (lift_rust (check_errno ret)) (\<lambda>_. ret_st (Inr (stats_of_raw st))))"

section \<open>Handles\<close>

definition open_file ::
  "'w lwext4 \<Rightarrow> Ext4Fs \<Rightarrow> string \<Rightarrow> OpenFlags \<Rightarrow> ('w world, error + File) comp" where
  "open_file L self path flags = File_open L self path flags"

definition open_dir :: "'w lwext4 \<Rightarrow> Ext4Fs \<Rightarrow> string \<Rightarrow> ('w world, error + Dir) comp" where
  "open_dir L self path = Dir_open L self path"

section \<open>Changes\<close>

definition set_permissions ::
  "'w lwext4 \<Rightarrow> Ext4Fs \<Rightarrow> string \<Rightarrow> u32 \<Rightarrow> ('w world, error + unit) comp" where
  "set_permissions L self path m =
     (if read_only self then ret_st (Inl ReadOnly)
      else try_res (make_path self path) (\<lambda>full_path.
        seq_st (ext4_mode_set L full_path m) (\<lambda>ret. lift_rust (check_errno_with_path ret path))))"

definition mkdir :: "'w lwext4 \<Rightarrow> Ext4Fs \<Rightarrow> string \<Rightarrow> u32 \<Rightarrow> ('w world, error + unit) comp" where
  "mkdir L self path m =
     (if read_only self then ret_st (Inl ReadOnly)
      else try_res (make_path self path) (\<lambda>full_path.
        seq_st (ext4_dir_mk L full_path) (\<lambda>ret.
        try_st (lift_rust (check_errno_with_path ret path)) (\<lambda>_.
        if m \<noteq> 0 then try_st (set_permissions L self path m) (\<lambda>_. ret_st (Inr ()))
        else ret_st (Inr ())))))"

definition remove :: "'w lwext4 \<Rightarrow> Ext4Fs \<Rightarrow> string \<Rightarrow> ('w world, error + unit) comp" where
  "remove L self path =
     (if read_only self then ret_st (Inl ReadOnly)
      else try_res (make_path self path) (\<lambda>full_path.
        seq_st (ext4_fremove L full_path) (\<lambda>ret. lift_rust (check_errno_with_path ret path))))"

definition rmdir :: "'w lwext4 \<Rightarrow> Ext4Fs \<Rightarrow> string \<Rightarrow> ('w world, error + unit) comp" where
  "rmdir L self path =
     (if read_only self then ret_st (Inl ReadOnly)
      else try_res (make_path self path) (\<lambda>full_path.
        seq_st (ext4_dir_rm L full_path) (\<lambda>ret. lift_rust (check_errno_with_path ret path))))"

definition rename :: "'w lwext4 \<Rightarrow> Ext4Fs \<Rightarrow> string \<Rightarrow> string \<Rightarrow> ('w world, error + unit) comp" where
  "rename L self src dst =
     (if read_only self then ret_st (Inl ReadOnly)
      else try_res (make_path self src) (\<lambda>from_path.
        try_res (make_path self dst) (\<lambda>to_path.
        seq_st (ext4_frename L from_path to_path) (\<lambda>ret.
          lift_rust (check_errno_with_path ret src)))))"

definition link :: "'w lwext4 \<Rightarrow> Ext4Fs \<Rightarrow> string \<Rightarrow> string \<Rightarrow> ('w world, error + unit) comp" where
  "link L self src dst =
     (if read_only self then ret_st (Inl ReadOnly)
      else try_res (make_path self src) (\<lambda>src_path.
        try_res (make_path self dst) (\<lambda>dst_path.
        seq_st (ext4_flink L src_path dst_path) (\<lambda>ret.
          lift_rust (check_errno_with_path ret src)))))"

definition symlink :: "'w lwext4 \<Rightarrow> Ext4Fs \<Rightarrow> string \<Rightarrow> string \<Rightarrow> ('w world, error + unit) comp" where
  "symlink L self target path =
     (if read_only self then ret_st (Inl ReadOnly)
      else try_res (map_err NulError (cstring_new target)) (\<lambda>target_cstr.
        try_res (make_path self path) (\<lambda>path_full.
        seq_st (ext4_fsymlink L target_cstr path_full) (\<lambda>ret.
          lift_rust (check_errno_with_path ret path)))))"

definition set_owner ::
  "'w lwext4 \<Rightarrow> Ext4Fs \<Rightarrow> string \<Rightarrow> u32 \<Rightarrow> u32 \<Rightarrow> ('w world, error + unit) comp" where
  "set_owner L self path u g =
     (if read_only self then ret_st (Inl ReadOnly)
      else try_res (make_path self path) (\<lambda>full_path.
        seq_st (ext4_owner_set L full_path u g) (\<lambda>ret. lift_rust (check_errno_with_path ret path))))"

section \<open>Queries\<close>

definition readlink :: "'w lwext4 \<Rightarrow> Ext4Fs \<Rightarrow> string \<Rightarrow> ('w world, error + string) comp" where
  "readlink L self path =
     try_res (make_path self path) (\<lambda>full_path.
     let buf = replicate 4096 0 in
     seq_st (ext4_readlink L full_path buf (slice_len buf) 0) (\<lambda>(ret, buf, rcnt).
     try_st (lift_rust (check_errno_with_path ret path)) (\<lambda>_.
     ret_st (case from_utf8 (take (unat rcnt) buf) of
         None \<Rightarrow> Inl (InvalidArgument ''invalid UTF-8 in symlink'') | Some s \<Rightarrow> Inr s))))"

definition inode_check :: "'w lwext4 \<Rightarrow> Ext4Fs \<Rightarrow> string \<Rightarrow> FileType \<Rightarrow> ('w world, bool) comp" where
  "inode_check L self path ty =
     (case make_path self path of
        Inl _ \<Rightarrow> ret_st False
      | Inr full_path \<Rightarrow>
          seq_st (ext4_inode_exist L full_path (ucast (FileType_to_raw ty))) (\<lambda>ret. ret_st (ret = 0)))"

definition is_file :: "'w lwext4 \<Rightarrow> Ext4Fs \<Rightarrow> string \<Rightarrow> ('w world, bool) comp" where
  "is_file L self path = inode_check L self path RegularFile"

definition is_dir :: "'w lwext4 \<Rightarrow> Ext4Fs \<Rightarrow> string \<Rightarrow> ('w world, bool) comp" where
  "is_dir L self path = inode_check L self path Directory"

definition file_type_of_mode :: "u32 \<Rightarrow> FileType" where
  "file_type_of_mode m =
     (let t = m AND 0xF000 in
      if t = 0x8000 then RegularFile
      else if t = 0x4000 then Directory
      else if t = 0xA000 then Symlink
      else if t = 0x6000 then BlockDevice
      else if t = 0x2000 then CharDevice
      else if t = 0x1000 then Fifo
      else if t = 0xC000 then Socket
      else Unknown)"

text \<open>The size of a regular file: opened for reading, asked, and closed by the destructor.\<close>

definition size_of_path :: "'w lwext4 \<Rightarrow> Ext4Fs \<Rightarrow> string \<Rightarrow> ('w world, u64) comp" where
  "size_of_path L self path =
     seq_st (File_open L self path READ) (\<lambda>r. case r of
       Inl _ \<Rightarrow> ret_st 0
     | Inr f \<Rightarrow> (\<lambda>w. bind_rust (File_size L (f, w)) (\<lambda>(n, (f, w)).
         seq_st (File_drop L f) (\<lambda>_. ret_st n) w)))"

definition metadata :: "'w lwext4 \<Rightarrow> Ext4Fs \<Rightarrow> string \<Rightarrow> ('w world, error + Metadata) comp" where
  "metadata L self path =
     try_res (make_path self path) (\<lambda>full_path.
     seq_st (ext4_mode_get L full_path 0) (\<lambda>(ret, m).
     try_st (lift_rust (check_errno_with_path ret path)) (\<lambda>_.
     let ty = file_type_of_mode m in
     seq_st (ext4_owner_get L full_path 0 0) (\<lambda>(_, u, g).
     seq_st (ext4_atime_get L full_path 0) (\<lambda>(_, at).
     seq_st (ext4_mtime_get L full_path 0) (\<lambda>(_, mt).
     seq_st (ext4_ctime_get L full_path 0) (\<lambda>(_, ct).
     seq_st (if ty = RegularFile then size_of_path L self path else ret_st 0) (\<lambda>sz.
     ret_st (Inr \<lparr>file_type = ty, size' = sz, blocks = 0, mode = m AND 0xFFF, uid = u, gid = g,
       atime = u64_of_u32 at, mtime = u64_of_u32 mt, ctime = u64_of_u32 ct, nlink = 1\<rparr>)))))))))"

definition exists_path :: "'w lwext4 \<Rightarrow> Ext4Fs \<Rightarrow> string \<Rightarrow> ('w world, bool) comp" where
  "exists_path L self path =
     seq_st (metadata L self path) (\<lambda>r. ret_st (case r of Inl _ \<Rightarrow> False | Inr _ \<Rightarrow> True))"

definition sync :: "'w lwext4 \<Rightarrow> Ext4Fs \<Rightarrow> ('w world, error + unit) comp" where
  "sync L self =
     seq_st (ext4_cache_flush L (mount_point self)) (\<lambda>ret. lift_rust (check_errno ret))"

section \<open>File methods that use the file system\<close>

definition File_sync :: "'w lwext4 \<Rightarrow> ('w file_state, error + unit) comp" where
  "File_sync L = (\<lambda>(self, w). bind_rust (sync L (ffs self) w) (\<lambda>(r, w). Done (r, (self, w))))"

definition File_metadata :: "'w lwext4 \<Rightarrow> ('w file_state, error + Metadata) comp" where
  "File_metadata L = (\<lambda>(self, w).
     bind_rust (metadata L (ffs self) (fpath self) w) (\<lambda>(r, w). Done (r, (self, w))))"

section \<open>Facts\<close>

text \<open>The operations that change the file system through a path, as data.\<close>

datatype fs_op = OpMkdir string u32 | OpRemove string | OpRmdir string | OpRename string string
  | OpLink string string | OpSymlink string string | OpSetPermissions string u32
  | OpSetOwner string u32 u32

fun run_op :: "'w lwext4 \<Rightarrow> Ext4Fs \<Rightarrow> fs_op \<Rightarrow> ('w world, error + unit) comp" where
  "run_op L self (OpMkdir path m) = mkdir L self path m"
| "run_op L self (OpRemove path) = remove L self path"
| "run_op L self (OpRmdir path) = rmdir L self path"
| "run_op L self (OpRename src dst) = rename L self src dst"
| "run_op L self (OpLink src dst) = link L self src dst"
| "run_op L self (OpSymlink target path) = symlink L self target path"
| "run_op L self (OpSetPermissions path m) = set_permissions L self path m"
| "run_op L self (OpSetOwner path u g) = set_owner L self path u g"

fun run_ops :: "'w lwext4 \<Rightarrow> Ext4Fs \<Rightarrow> fs_op list \<Rightarrow> ('w world, (error + unit) list) comp" where
  "run_ops L self [] = ret_st []"
| "run_ops L self (c # cs) =
     seq_st (run_op L self c) (\<lambda>r. seq_st (run_ops L self cs) (\<lambda>rs. ret_st (r # rs)))"

lemmas op_defs = mkdir_def remove_def rmdir_def rename_def link_def symlink_def
  set_permissions_def set_owner_def

end
