(* ===== verification/Mkfs.thy ===== *)
theory Mkfs
  imports FsCore
begin

text \<open>\<open>mkfs.rs\<close>: the options of a new file system, their builders, and formatting a device.
  A UUID is a list of bytes; in the source it is an array of 16.\<close>

section \<open>Options\<close>

record MkfsOptions =
  o_fs_type :: FsType
  o_block_size :: u32
  o_inode_size :: u32
  o_journal :: bool
  o_label :: "string option"
  o_uuid :: "bytes option"

definition MkfsOptions_default :: MkfsOptions where
  "MkfsOptions_default = \<lparr>o_fs_type = Ext4, o_block_size = 4096, o_inode_size = 256,
     o_journal = True, o_label = None, o_uuid = None\<rparr>"

definition MkfsOptions_ext2 :: MkfsOptions where
  "MkfsOptions_ext2 = MkfsOptions_default\<lparr>o_fs_type := Ext2, o_journal := False\<rparr>"

definition MkfsOptions_ext3 :: MkfsOptions where
  "MkfsOptions_ext3 = MkfsOptions_default\<lparr>o_fs_type := Ext3\<rparr>"

definition MkfsOptions_ext4 :: MkfsOptions where
  "MkfsOptions_ext4 = MkfsOptions_default"

definition with_label :: "string \<Rightarrow> MkfsOptions \<Rightarrow> MkfsOptions" where
  "with_label l self = self\<lparr>o_label := Some l\<rparr>"

definition with_uuid :: "bytes \<Rightarrow> MkfsOptions \<Rightarrow> MkfsOptions" where
  "with_uuid u self = self\<lparr>o_uuid := Some u\<rparr>"

definition with_block_size :: "u32 \<Rightarrow> MkfsOptions \<Rightarrow> MkfsOptions" where
  "with_block_size n self = self\<lparr>o_block_size := n\<rparr>"

definition with_journal :: "bool \<Rightarrow> MkfsOptions \<Rightarrow> MkfsOptions" where
  "with_journal b self = self\<lparr>o_journal := b\<rparr>"

section \<open>mkfs\<close>

text \<open>\<open>CString::new(label).unwrap()\<close>: a label with a NUL panics.\<close>

definition label_cstring :: "string option \<Rightarrow> ('s, string option) comp" where
  "label_cstring l = (case l of
     None \<Rightarrow> ret_st None
   | Some s \<Rightarrow> seq_st (unwrap_res (cstring_new s)) (\<lambda>c. ret_st (Some c)))"

definition part_size_of :: "addr \<Rightarrow> (('s, 'd) process, u64) comp" where
  "part_size_of bdev = (\<lambda>w. case h_bdevs (heap (cst w)) bdev of
     None \<Rightarrow> Panic | Some b \<Rightarrow> Done (part_size b, w))"

definition mkfs_info :: "MkfsOptions \<Rightarrow> u64 \<Rightarrow> string option \<Rightarrow> ext4_mkfs_info" where
  "mkfs_info options len label =
     \<lparr>mi_len = len, mi_block_size = o_block_size options, mi_blocks_per_group = 0,
      mi_inodes_per_group = 0, mi_inode_size = o_inode_size options, mi_inodes = 0,
      mi_journal_blocks = 0, mi_feat_ro_compat = 0, mi_feat_compat = 0, mi_feat_incompat = 0,
      mi_bg_desc_reserve_blocks = 0, mi_dsc_size = 0,
      mi_uuid = (case o_uuid options of Some u \<Rightarrow> u | None \<Rightarrow> replicate UUID_SIZE 0),
      mi_journal = (o_journal options \<and> o_fs_type options \<noteq> Ext2), mi_label = label\<rparr>"

definition mkfs ::
  "profile \<Rightarrow> ('s, 'd) cworld lwext4 \<Rightarrow> 'd block_device \<Rightarrow> 'd \<Rightarrow> MkfsOptions \<Rightarrow>
   (('s, 'd) process, error + unit) comp" where
  "mkfs p L V device options =
     seq_st (alloc_wrapper p V device) (\<lambda>wr.
     seq_st (bdev_ptr wr) (\<lambda>bdev.
     seq_st (label_cstring (o_label options)) (\<lambda>label.
     seq_st (part_size_of bdev) (\<lambda>len.
     let info = mkfs_info options len label in
     seq_st (lwext4_sizeof_ext4_fs L) (\<lambda>fs_size.
     seq_st (lift_rust (vec_zero fs_size)) (\<lambda>fs_buf.
     seq_st (ext4_mkfs L fs_buf bdev info (FsType_to_raw (o_fs_type options))) (\<lambda>(ret, info).
     seq_st (lift_rust (check_errno ret)) (\<lambda>r.
     seq_st (free_wrapper wr) (\<lambda>_. ret_st r)))))))))"

end
