(* ===== verification/Lifecycle.thy ===== *)
theory Lifecycle
  imports FsOps Mkfs
begin

text \<open>
  The life of a mounted file system: what \<open>mount\<close>, \<open>umount\<close>, the destructor and \<open>mkfs\<close> do to
  lwext4's tables of devices and mount points and to the boxes those tables point to. The documented
  behaviour of lwext4's tables is the predicate \<open>lib_contract\<close>, the crate's processes are a step
  relation on the live handles and the process state.
\<close>

section \<open>lwext4's tables\<close>

text \<open>
  The device table maps a device name to the address of its C structure, the mount table maps a
  mount point to the C structure of the device mounted there.
\<close>

record 's tables =
  registered :: "'s \<Rightarrow> string \<rightharpoonup> addr"
  mounted :: "'s \<Rightarrow> string \<rightharpoonup> addr"

text \<open>Two maps with the same keys whose values agree under \<open>g\<close>.\<close>

definition agree :: "('v \<Rightarrow> 'u) \<Rightarrow> ('k \<rightharpoonup> 'v) \<Rightarrow> ('k \<rightharpoonup> 'v) \<Rightarrow> bool" where
  "agree g m m' \<longleftrightarrow> (\<forall>x. map_option g (m' x) = map_option g (m x))"

lemma agree_refl [simp]: "agree g m m"
  by (simp add: agree_def)

lemma agree_trans: "agree g m1 m2 \<Longrightarrow> agree g m2 m3 \<Longrightarrow> agree g m1 m3"
  by (simp add: agree_def)

lemma agree_None: "agree g m m' \<Longrightarrow> m' x = None \<longleftrightarrow> m x = None"
  unfolding agree_def by (metis map_option_is_None)

lemma agree_Some: "agree g m m' \<Longrightarrow> m x = Some v \<Longrightarrow> \<exists>v'. m' x = Some v' \<and> g v' = g v"
  unfolding agree_def by (metis map_option_eq_Some option.simps(9))

lemma agree_Some2: "agree g m m' \<Longrightarrow> m' x = Some v' \<Longrightarrow> \<exists>v. m x = Some v \<and> g v' = g v"
  unfolding agree_def by (metis map_option_eq_Some option.simps(9))

text \<open>
  The C library calls back into the devices and writes its own fields of the C structures, but
  neither moves nor frees a box, and leaves the pointers that lead to the wrapper alone.
\<close>

definition pointers :: "'d BlockDeviceWrapper \<Rightarrow> 'd block_device \<times> addr \<times> addr \<times> addr" where
  "pointers w = (w_vt w, w_buffer w, w_bdif w, w_bdev w)"

definition same_wiring :: "'d rheap \<Rightarrow> 'd rheap \<Rightarrow> bool" where
  "same_wiring h h' \<longleftrightarrow> h_next h' = h_next h \<and> agree (\<lambda>_. ()) (h_bufs h) (h_bufs h') \<and>
     agree (\<lambda>i. (p_user i, ph_bbuf i)) (h_bdifs h) (h_bdifs h') \<and>
     agree bd_bdif (h_bdevs h) (h_bdevs h') \<and> agree pointers (h_wrappers h) (h_wrappers h')"

definition quiet_call :: "'s tables \<Rightarrow> (('s, 'd) cworld, 'r) cfun \<Rightarrow> bool" where
  "quiet_call T f \<longleftrightarrow> (\<forall>w. same_wiring (heap w) (heap (snd (f w))) \<and>
     registered T (lib (snd (f w))) = registered T (lib w) \<and>
     mounted T (lib (snd (f w))) = mounted T (lib w))"

text \<open>\<open>ext4_device_register\<close> adds a free name or fails and changes nothing.\<close>

definition register_contract :: "'s tables \<Rightarrow> ('s, 'd) cworld lwext4 \<Rightarrow> bool" where
  "register_contract T L \<longleftrightarrow> (\<forall>bd n w. let (r, w') = l_device_register (mount_fns L) bd n w in
     same_wiring (heap w) (heap w') \<and> mounted T (lib w') = mounted T (lib w) \<and>
     registered T (lib w') =
       (if r = 0 then (registered T (lib w))(n \<mapsto> bd) else registered T (lib w)) \<and>
     (r = 0 \<longrightarrow> registered T (lib w) n = None))"

text \<open>\<open>ext4_device_unregister\<close> removes the name, if it is there.\<close>

definition unregister_contract :: "'s tables \<Rightarrow> ('s, 'd) cworld lwext4 \<Rightarrow> bool" where
  "unregister_contract T L \<longleftrightarrow> (\<forall>n w. let (r, w') = l_device_unregister (mount_fns L) n w in
     same_wiring (heap w) (heap w') \<and> mounted T (lib w') = mounted T (lib w) \<and>
     registered T (lib w') = (registered T (lib w))(n := None))"

text \<open>\<open>ext4_mount\<close> adds the mount point of a registered device, or fails and changes nothing.\<close>

definition mount_contract :: "'s tables \<Rightarrow> ('s, 'd) cworld lwext4 \<Rightarrow> bool" where
  "mount_contract T L \<longleftrightarrow> (\<forall>dev mp ro w. let (r, w') = l_mount (mount_fns L) dev mp ro w in
     same_wiring (heap w) (heap w') \<and> registered T (lib w') = registered T (lib w) \<and>
     mounted T (lib w') =
       (if r = 0 then (mounted T (lib w))(mp := registered T (lib w) dev) else mounted T (lib w)) \<and>
     (r = 0 \<longrightarrow> registered T (lib w) dev \<noteq> None))"

text \<open>\<open>ext4_umount\<close> removes the mount point when it succeeds, and may or may not when it fails.\<close>

definition umount_contract :: "'s tables \<Rightarrow> ('s, 'd) cworld lwext4 \<Rightarrow> bool" where
  "umount_contract T L \<longleftrightarrow> (\<forall>mp w. let (r, w') = l_umount (mount_fns L) mp w in
     same_wiring (heap w) (heap w') \<and> registered T (lib w') = registered T (lib w) \<and>
     (mounted T (lib w') = (mounted T (lib w))(mp := None) \<or>
      r \<noteq> 0 \<and> mounted T (lib w') = mounted T (lib w)))"

text \<open>
  Every other call works inside one mounted file system: it neither registers nor mounts, and the
  boxes stay where they are.
\<close>

definition quiet_mount_fns :: "'s tables \<Rightarrow> ('s, 'd) cworld mount_lib \<Rightarrow> bool" where
  "quiet_mount_fns T M \<longleftrightarrow>
     (\<forall>mp. quiet_call T (l_journal_start M mp)) \<and> (\<forall>mp. quiet_call T (l_journal_stop M mp)) \<and>
     (\<forall>mp. quiet_call T (l_recover M mp)) \<and> (\<forall>mp. quiet_call T (l_cache_flush M mp)) \<and>
     (\<forall>mp st. quiet_call T (l_mount_point_stats M mp st))"

definition quiet_file_fns :: "'s tables \<Rightarrow> ('s, 'd) cworld file_lib \<Rightarrow> bool" where
  "quiet_file_fns T F \<longleftrightarrow>
     (\<forall>f x fl. quiet_call T (l_fopen2 F f x fl)) \<and> (\<forall>f. quiet_call T (l_fclose F f)) \<and>
     (\<forall>f n. quiet_call T (l_ftruncate F f n)) \<and> (\<forall>f b n r. quiet_call T (l_fread F f b n r)) \<and>
     (\<forall>f b n r. quiet_call T (l_fwrite F f b n r)) \<and> (\<forall>f n k. quiet_call T (l_fseek F f n k)) \<and>
     (\<forall>f. quiet_call T (l_ftell F f)) \<and> (\<forall>f. quiet_call T (l_fsize F f))"

definition quiet_path_fns :: "'s tables \<Rightarrow> ('s, 'd) cworld path_lib \<Rightarrow> bool" where
  "quiet_path_fns T P \<longleftrightarrow>
     (\<forall>x. quiet_call T (l_fremove P x)) \<and> (\<forall>x y. quiet_call T (l_flink P x y)) \<and>
     (\<forall>x y. quiet_call T (l_frename P x y)) \<and> (\<forall>x y. quiet_call T (l_fsymlink P x y)) \<and>
     (\<forall>x b n r. quiet_call T (l_readlink P x b n r)) \<and> (\<forall>x. quiet_call T (l_dir_mk P x)) \<and>
     (\<forall>x. quiet_call T (l_dir_rm P x)) \<and> (\<forall>x m. quiet_call T (l_mode_get P x m)) \<and>
     (\<forall>x m. quiet_call T (l_mode_set P x m)) \<and> (\<forall>x u g. quiet_call T (l_owner_get P x u g)) \<and>
     (\<forall>x u g. quiet_call T (l_owner_set P x u g)) \<and> (\<forall>x t. quiet_call T (l_atime_get P x t)) \<and>
     (\<forall>x t. quiet_call T (l_mtime_get P x t)) \<and> (\<forall>x t. quiet_call T (l_ctime_get P x t)) \<and>
     (\<forall>x ty. quiet_call T (l_inode_exist P x ty))"

definition quiet_dir_fns :: "'s tables \<Rightarrow> ('s, 'd) cworld dir_lib \<Rightarrow> bool" where
  "quiet_dir_fns T D \<longleftrightarrow>
     (\<forall>d x. quiet_call T (l_dir_open D d x)) \<and> (\<forall>d. quiet_call T (l_dir_close D d)) \<and>
     (\<forall>d. quiet_call T (l_dir_entry_next D d)) \<and> (\<forall>d. quiet_call T (l_dir_entry_rewind D d))"

definition quiet_mkfs_fns :: "'s tables \<Rightarrow> ('s, 'd) cworld mkfs_lib \<Rightarrow> bool" where
  "quiet_mkfs_fns T K \<longleftrightarrow>
     quiet_call T (l_sizeof_ext4_fs K) \<and> (\<forall>b bd i ty. quiet_call T (l_mkfs K b bd i ty))"

definition quiet_contract :: "'s tables \<Rightarrow> ('s, 'd) cworld lwext4 \<Rightarrow> bool" where
  "quiet_contract T L \<longleftrightarrow> quiet_mount_fns T (mount_fns L) \<and> quiet_file_fns T (file_fns L) \<and>
     quiet_path_fns T (path_fns L) \<and> quiet_dir_fns T (dir_fns L) \<and> quiet_mkfs_fns T (mkfs_fns L)"

lemmas quiet_defs = quiet_contract_def quiet_mount_fns_def quiet_file_fns_def quiet_path_fns_def
  quiet_dir_fns_def quiet_mkfs_fns_def

definition lib_contract :: "'s tables \<Rightarrow> ('s, 'd) cworld lwext4 \<Rightarrow> bool" where
  "lib_contract T L \<longleftrightarrow> register_contract T L \<and> unregister_contract T L \<and> mount_contract T L \<and>
     umount_contract T L \<and> quiet_contract T L"

text \<open>The stronger promise that unmounting what is mounted never fails to remove it.\<close>

definition umount_reliable :: "'s tables \<Rightarrow> ('s, 'd) cworld lwext4 \<Rightarrow> bool" where
  "umount_reliable T L \<longleftrightarrow>
     (\<forall>mp w. mounted T (lib (snd (l_umount (mount_fns L) mp w))) mp = None)"

section \<open>Wiring\<close>

lemma same_wiring_refl [simp]: "same_wiring h h"
  by (simp add: same_wiring_def)

lemma same_wiring_trans: "same_wiring h1 h2 \<Longrightarrow> same_wiring h2 h3 \<Longrightarrow> same_wiring h1 h3"
  unfolding same_wiring_def by (auto intro: agree_trans)

lemma same_wiring_wrapper:
  assumes "same_wiring h h'" and "h_wrappers h' a = Some w'"
  shows "\<exists>w. h_wrappers h a = Some w \<and> pointers w' = pointers w"
  using assms by (auto simp: same_wiring_def dest: agree_Some2)

lemma same_wiring_as_bdev_ptr:
  assumes "same_wiring h h'"
  shows "as_bdev_ptr h' a = as_bdev_ptr h a"
proof -
  have "map_option pointers (h_wrappers h' a) = map_option pointers (h_wrappers h a)"
    using assms by (simp add: same_wiring_def agree_def)
  then have "map_option (\<lambda>(v, u, i, b). b) (map_option pointers (h_wrappers h' a)) =
      map_option (\<lambda>(v, u, i, b). b) (map_option pointers (h_wrappers h a))"
    by simp
  then show ?thesis by (simp add: as_bdev_ptr_def option.map_comp o_def pointers_def)
qed

lemma same_wiringD:
  assumes "same_wiring h h'"
  shows "h_next h' = h_next h" and "agree (\<lambda>_. ()) (h_bufs h) (h_bufs h')"
    and "agree (\<lambda>i. (p_user i, ph_bbuf i)) (h_bdifs h) (h_bdifs h')"
    and "agree bd_bdif (h_bdevs h) (h_bdevs h')" and "agree pointers (h_wrappers h) (h_wrappers h')"
  using assms by (simp_all add: same_wiring_def)

lemma same_wiring_live: "same_wiring h h' \<Longrightarrow> h_wrappers h' a = None \<longleftrightarrow> h_wrappers h a = None"
  by (rule agree_None [OF same_wiringD(5)])

lemma same_wiring_wired:
  assumes sw: "same_wiring h h'" and w: "wired h a w" and p: "pointers w' = pointers w"
  shows "wired h' a w'"
proof -
  from w obtain b i buf where
    h: "h_bdevs h (w_bdev w) = Some b" "bd_bdif b = w_bdif w" "h_bdifs h (w_bdif w) = Some i"
      "p_user i = a" "ph_bbuf i = w_buffer w" "h_bufs h (w_buffer w) = Some buf" "w_bdev w \<noteq> 0"
    by (auto simp: wired_def)
  note sw = same_wiringD [OF sw]
  obtain b' i' buf' where
    "h_bdevs h' (w_bdev w) = Some b'" "bd_bdif b' = bd_bdif b"
    "h_bdifs h' (w_bdif w) = Some i'" "p_user i' = p_user i" "ph_bbuf i' = ph_bbuf i"
    "h_bufs h' (w_buffer w) = Some buf'"
    using agree_Some [OF sw(4) h(1)] agree_Some [OF sw(3) h(3)] agree_Some [OF sw(2) h(6)] by auto
  with h p show ?thesis by (simp add: wired_def pointers_def)
qed

lemma same_wiring_wf:
  assumes sw: "same_wiring h h'" and wf: "heap_wf h"
  shows "heap_wf h'"
proof -
  have "h_bufs h' x = None \<longleftrightarrow> h_bufs h x = None" "h_bdifs h' x = None \<longleftrightarrow> h_bdifs h x = None"
    "h_bdevs h' x = None \<longleftrightarrow> h_bdevs h x = None" "h_wrappers h' x = None \<longleftrightarrow> h_wrappers h x = None" for x
    using agree_None [OF same_wiringD(2) [OF sw]] agree_None [OF same_wiringD(3) [OF sw]]
      agree_None [OF same_wiringD(4) [OF sw]] agree_None [OF same_wiringD(5) [OF sw]] by blast+
  then have bm: "below_mark h'"
    using wf same_wiringD(1) [OF sw] by (simp add: heap_wf_def below_mark_def)
  have wr: "wired h' a w'" if w': "h_wrappers h' a = Some w'" for a w'
    using same_wiring_wrapper [OF sw w'] heap_wf_wired [OF wf] same_wiring_wired [OF sw] by blast
  have "w_buffer w1 = w_buffer w2 \<Longrightarrow> a1 = a2"
    if "h_wrappers h' a1 = Some w1" "h_wrappers h' a2 = Some w2" for a1 a2 w1 w2
    using same_wiring_wrapper [OF sw that(1)] same_wiring_wrapper [OF sw that(2)] wf
    by (auto simp: heap_wf_def pointers_def)
  with bm wr show ?thesis unfolding heap_wf_def by blast
qed

section \<open>The view of a process\<close>

definition regs :: "'s tables \<Rightarrow> ('s, 'd) process \<Rightarrow> string \<rightharpoonup> addr" where
  "regs T w = registered T (lib (cst w))"

definition mnts :: "'s tables \<Rightarrow> ('s, 'd) process \<Rightarrow> string \<rightharpoonup> addr" where
  "mnts T w = mounted T (lib (cst w))"

text \<open>The live wrappers and the C structure of each.\<close>

definition boxes :: "('s, 'd) process \<Rightarrow> addr \<rightharpoonup> addr" where
  "boxes w = as_bdev_ptr (heap (cst w))"

definition process_wf :: "('s, 'd) process \<Rightarrow> bool" where
  "process_wf w \<longleftrightarrow> heap_wf (heap (cst w))"

lemmas view_defs = regs_def mnts_def boxes_def process_wf_def

text \<open>Two boxes never share a C structure.\<close>

lemma boxes_inject:
  assumes "process_wf w" and "boxes w a = Some bd" and "boxes w b = Some bd"
  shows "a = b"
proof -
  obtain u v where "h_wrappers (heap (cst w)) a = Some u" "h_wrappers (heap (cst w)) b = Some v"
    "w_bdev u = bd" "w_bdev v = bd"
    using assms(2,3) by (auto simp: boxes_def as_bdev_ptr_def)
  with assms(1) show ?thesis
    using wired_inject_bdev heap_wf_wired unfolding process_wf_def by metis
qed

lemma contractD:
  assumes "lib_contract T L"
  shows "register_contract T L" "unregister_contract T L" "mount_contract T L" "umount_contract T L"
    "quiet_contract T L"
  using assms by (simp_all add: lib_contract_def)

lemma quiet_view:
  assumes "quiet_call T f"
  shows "same_wiring (heap s) (heap (snd (f s)))"
    and "registered T (lib (snd (f s))) = registered T (lib s)"
    and "mounted T (lib (snd (f s))) = mounted T (lib s)"
  using assms by (simp_all add: quiet_call_def)

text \<open>A quiet call changes nothing of the view.\<close>

definition same_view :: "'s tables \<Rightarrow> ('s, 'd) process \<Rightarrow> ('s, 'd) process \<Rightarrow> bool" where
  "same_view T w w' \<longleftrightarrow> counter w' = counter w \<and> regs T w' = regs T w \<and> mnts T w' = mnts T w \<and>
     boxes w' = boxes w \<and> (process_wf w \<longrightarrow> process_wf w')"

lemma same_view_refl [simp]: "same_view T w w"
  by (simp add: same_view_def)

lemma same_view_trans: "same_view T w1 w2 \<Longrightarrow> same_view T w2 w3 \<Longrightarrow> same_view T w1 w3"
  by (simp add: same_view_def)

lemma wiring_boxes:
  "same_wiring (heap (cst w)) (heap (cst w')) \<Longrightarrow> boxes w' = boxes w \<and> (process_wf w \<longrightarrow> process_wf w')"
  by (auto simp: boxes_def process_wf_def same_wiring_as_bdev_ptr intro: same_wiring_wf)

lemma quiet_same_view:
  "quiet_call T f \<Longrightarrow> same_view T w (w\<lparr>cst := snd (f (cst w)), calls := cs\<rparr>)"
  using quiet_view [of T f "cst w"] wiring_boxes [of w "w\<lparr>cst := snd (f (cst w)), calls := cs\<rparr>"]
  by (simp add: same_view_def regs_def mnts_def)

section \<open>Boxes\<close>

lemma alloc_view:
  assumes "process_wf w" and "BlockDeviceWrapper_new p V d (heap (cst w)) = Done (a, h)"
  shows "\<exists>bd. as_bdev_ptr h a = Some bd \<and> boxes w a = None \<and> heap_wf h \<and>
    as_bdev_ptr h = (boxes w)(a \<mapsto> bd)"
  using wrapper_new_wf [OF assms(1) [unfolded process_wf_def] assms(2)]
  by (auto simp: boxes_def as_bdev_ptr_def fun_eq_iff)

lemma drop_view:
  assumes "heap_wf h"
  shows "heap_wf (BlockDeviceWrapper_drop a h) \<and>
    as_bdev_ptr (BlockDeviceWrapper_drop a h) = (as_bdev_ptr h)(a := None)"
proof (cases "h_wrappers h a")
  case None
  then show ?thesis using assms by (auto simp: BlockDeviceWrapper_drop_def as_bdev_ptr_def)
next
  case (Some w)
  then show ?thesis using wrapper_drop_wf [OF assms Some] by (auto simp: as_bdev_ptr_def)
qed

section \<open>What each call does to the view\<close>

lemma register_view:
  assumes "register_contract T L" and "l_device_register (mount_fns L) bd n s = (r, s')"
  shows "same_wiring (heap s) (heap s')" and "mounted T (lib s') = mounted T (lib s)"
    and "r \<noteq> 0 \<Longrightarrow> registered T (lib s') = registered T (lib s)"
    and "r = 0 \<Longrightarrow> registered T (lib s') = (registered T (lib s))(n \<mapsto> bd)"
    and "r = 0 \<Longrightarrow> registered T (lib s) n = None"
  using assms(1) [unfolded register_contract_def, rule_format, of bd n s] assms(2) by auto

lemma unregister_view:
  assumes "unregister_contract T L" and "l_device_unregister (mount_fns L) n s = (r, s')"
  shows "same_wiring (heap s) (heap s')" and "mounted T (lib s') = mounted T (lib s)"
    and "registered T (lib s') = (registered T (lib s))(n := None)"
  using assms(1) [unfolded unregister_contract_def, rule_format, of n s] assms(2) by auto

lemma mount_call_view:
  assumes "mount_contract T L" and "l_mount (mount_fns L) dev mp ro s = (r, s')"
  shows "same_wiring (heap s) (heap s')" and "registered T (lib s') = registered T (lib s)"
    and "r \<noteq> 0 \<Longrightarrow> mounted T (lib s') = mounted T (lib s)"
    and "r = 0 \<Longrightarrow> mounted T (lib s') = (mounted T (lib s))(mp := registered T (lib s) dev)"
  using assms(1) [unfolded mount_contract_def, rule_format, of dev mp ro s] assms(2) by auto

lemma umount_call_view:
  assumes "umount_contract T L" and "l_umount (mount_fns L) mp s = (r, s')"
  shows "same_wiring (heap s) (heap s')" and "registered T (lib s') = registered T (lib s)"
    and "mounted T (lib s') = (mounted T (lib s))(mp := None) \<or>
      r \<noteq> 0 \<and> mounted T (lib s') = mounted T (lib s)"
  using assms(1) [unfolded umount_contract_def, rule_format, of mp s] assms(2) by auto

lemma free_view:
  assumes "heap_wf h" and "same_wiring h (heap s)"
  shows "heap_wf (BlockDeviceWrapper_drop a (heap s)) \<and>
    as_bdev_ptr (BlockDeviceWrapper_drop a (heap s)) = (as_bdev_ptr h)(a := None)"
  using drop_view [OF same_wiring_wf [OF assms(2,1)], of a]
  by (simp add: fun_eq_iff same_wiring_as_bdev_ptr [OF assms(2)])

text \<open>A failed mount leaves no trace but the used-up number.\<close>

lemma mount_view:
  assumes C: "lib_contract T L" and wf: "process_wf w"
    and new: "BlockDeviceWrapper_new p V d (heap (cst w)) = Done (a, h)"
  shows "\<exists>r w'. mount p L V d ro w = Done (r, w') \<and> counter w' = counter w + 1 \<and> process_wf w' \<and>
    (case r of
       Inl e \<Rightarrow> regs T w' = regs T w \<and> mnts T w' = mnts T w \<and> boxes w' = boxes w
     | Inr fs \<Rightarrow> \<exists>bd journal. fs = new_mount (counter w) a ro journal \<and> (journal \<longrightarrow> \<not> ro) \<and>
         regs T w (device_name fs) = None \<and> regs T w' = (regs T w)(device_name fs \<mapsto> bd) \<and>
         mnts T w' = (mnts T w)(mount_point fs \<mapsto> bd) \<and>
         boxes w a = None \<and> boxes w' = (boxes w)(a \<mapsto> bd))"
proof -
  note C = contractD [OF C]
  let ?dev = "dev_name (counter w)" and ?mp = "mp_name (counter w)"
  obtain bd where bd: "as_bdev_ptr h a = Some bd" "boxes w a = None" "heap_wf h"
    "as_bdev_ptr h = (boxes w)(a \<mapsto> bd)"
    using alloc_view [OF wf new] by auto
  obtain r1 s1 where 1: "l_device_register (mount_fns L) bd ?dev ((cst w)\<lparr>heap := h\<rparr>) = (r1, s1)"
    by fastforce
  note v1 = register_view [OF C(1) 1, simplified]
  show ?thesis
  proof (cases "r1 = 0")
    case False
    with v1 free_view [OF bd(3) v1(1), of a] mount_register_fails [OF new bd(1) 1 False] bd(2,4)
    show ?thesis by (simp add: view_defs fun_eq_iff)
  next
    case True
    with 1 have 1: "l_device_register (mount_fns L) bd ?dev ((cst w)\<lparr>heap := h\<rparr>) = (0, s1)" by simp
    obtain r2 s2 where 2: "l_mount (mount_fns L) ?dev ?mp ro s1 = (r2, s2)" by fastforce
    note v2 = mount_call_view [OF C(3) 2]
    note sw2 = same_wiring_trans [OF v1(1) v2(1)]
    show ?thesis
    proof (cases "r2 = 0")
      case False
      obtain r' s where u: "l_device_unregister (mount_fns L) ?dev s2 = (r', s)" by fastforce
      note vu = unregister_view [OF C(2) u]
      from True v1 v2 vu False mount_mount_fails [OF new bd(1) 1 2 False u] bd(2,4)
        free_view [OF bd(3) same_wiring_trans [OF sw2 vu(1)], of a]
      show ?thesis by (simp add: view_defs fun_eq_iff)
    next
      case ok: True
      with 2 have 2: "l_mount (mount_fns L) ?dev ?mp ro s1 = (0, s2)" by simp
      obtain rr s3 where 3: "l_recover (mount_fns L) ?mp s2 = (rr, s3)" by fastforce
      obtain rj s4 where 4: "l_journal_start (mount_fns L) ?mp s3 = (rj, s4)" by fastforce
      have q: "quiet_call T (l_recover (mount_fns L) ?mp)" "quiet_call T (l_journal_start (mount_fns L) ?mp)"
        using C(5) by (simp_all add: quiet_defs)
      note v3 = quiet_view [OF q(1), of s2, unfolded 3, simplified]
      note v4 = quiet_view [OF q(2), of s3, unfolded 4, simplified]
      have sw: "same_wiring h (heap s3)" "same_wiring h (heap s4)"
        using sw2 v3(1) v4(1) by (auto intro: same_wiring_trans)
      show ?thesis
        using True ok v1 v2 v3 v4 bd mount_succeeds [OF new bd(1) 1 2 3 4] sw
          same_wiring_wf [OF sw(1) bd(3)] same_wiring_wf [OF sw(2) bd(3)]
        by (simp add: view_defs new_mount_def fun_eq_iff same_wiring_as_bdev_ptr)
    qed
  qed
qed

section \<open>Taking a file system down\<close>

text \<open>The calls of one round, without the unregistration.\<close>

definition down_calls :: "Ext4Fs \<Rightarrow> c_call list" where
  "down_calls fs = (if journal_active fs then [C_journal_stop (mount_point fs)] else []) @
     [C_cache_flush (mount_point fs), C_umount (mount_point fs)]"

text \<open>The C world after stopping the journal and flushing.\<close>

definition quiesce :: "('s, 'd) cworld lwext4 \<Rightarrow> Ext4Fs \<Rightarrow> ('s, 'd) cworld \<Rightarrow> ('s, 'd) cworld" where
  "quiesce L fs s =
     snd (l_cache_flush (mount_fns L) (mount_point fs)
       (if journal_active fs then snd (l_journal_stop (mount_fns L) (mount_point fs) s) else s))"

lemma drop_eq:
  assumes "l_umount (mount_fns L) (mount_point fs) (quiesce L fs (cst w)) = (r, s1)"
    and "l_device_unregister (mount_fns L) (device_name fs) s1 = (r', s2)"
  shows "Ext4Fs_drop L fs w = Done ((), w\<lparr>
     cst := s2\<lparr>heap := BlockDeviceWrapper_drop (wrapper fs) (heap s2)\<rparr>,
     calls := calls w @ down_calls fs @ [C_device_unregister (device_name fs)]\<rparr>)"
  using assms
  by (cases "journal_active fs")
    (simp_all add: Ext4Fs_drop_def when_st_def ffi_defs rust_simps free_wrapper_def quiesce_def
      down_calls_def)

lemma umount_body_eq:
  assumes "l_umount (mount_fns L) (mount_point fs) (quiesce L fs (cst w)) = (r, s1)"
    and "l_device_unregister (mount_fns L) (device_name fs) s1 = (r', s2)"
  shows "umount_body L fs w =
     (if r \<noteq> 0 then Done (Inl (err_of r), w\<lparr>cst := s1, calls := calls w @ down_calls fs\<rparr>)
      else Done (if r' = 0 then Inr () else Inl (err_of r'), w\<lparr>cst := s2,
        calls := calls w @ down_calls fs @ [C_device_unregister (device_name fs)]\<rparr>))"
  using assms
  by (cases "journal_active fs")
    (simp_all add: umount_body_def when_st_def ffi_defs rust_simps try_st_def lift_rust_def
      quiesce_def down_calls_def)

lemma quiesce_view:
  assumes "quiet_contract T L"
  shows "same_wiring (heap s) (heap (quiesce L fs s))"
    and "registered T (lib (quiesce L fs s)) = registered T (lib s)"
    and "mounted T (lib (quiesce L fs s)) = mounted T (lib s)"
proof -
  have q: "quiet_call T (l_journal_stop (mount_fns L) mp)" "quiet_call T (l_cache_flush (mount_fns L) mp)" for mp
    using assms by (simp_all add: quiet_defs)
  show "same_wiring (heap s) (heap (quiesce L fs s))"
    using same_wiring_trans [OF quiet_view(1) [OF q(1)] quiet_view(1) [OF q(2)]] quiet_view(1) [OF q(2)]
    by (simp add: quiesce_def)
  show "registered T (lib (quiesce L fs s)) = registered T (lib s)"
    "mounted T (lib (quiesce L fs s)) = mounted T (lib s)"
    by (simp_all add: quiesce_def quiet_view(2,3) [OF q(1)] quiet_view(2,3) [OF q(2)])
qed

lemma drop_sys_view:
  assumes C: "lib_contract T L" and wf: "process_wf w"
  shows "\<exists>w'. Ext4Fs_drop L fs w = Done ((), w') \<and> counter w' = counter w \<and> process_wf w' \<and>
    regs T w' = (regs T w)(device_name fs := None) \<and>
    boxes w' = (boxes w)(wrapper fs := None) \<and>
    (mnts T w' = (mnts T w)(mount_point fs := None) \<or>
     \<not> umount_reliable T L \<and> mnts T w' = mnts T w)"
proof -
  note C = contractD [OF C]
  obtain r s1 where 1: "l_umount (mount_fns L) (mount_point fs) (quiesce L fs (cst w)) = (r, s1)" by fastforce
  obtain r' s2 where 2: "l_device_unregister (mount_fns L) (device_name fs) s1 = (r', s2)" by fastforce
  note q = quiesce_view [OF C(5), where s = "cst w" and fs = fs]
  note v1 = umount_call_view [OF C(4) 1] and v2 = unregister_view [OF C(2) 2]
  have sw: "same_wiring (heap (cst w)) (heap s2)"
    using q(1) v1(1) v2(1) by (auto intro: same_wiring_trans)
  have rel: "mounted T (lib s1) (mount_point fs) = None" if "umount_reliable T L"
    using that [unfolded umount_reliable_def, rule_format, of "mount_point fs" "quiesce L fs (cst w)"]
    by (simp add: 1)
  have "mounted T (lib s1) = (mounted T (lib (cst w)))(mount_point fs := None) \<or>
      \<not> umount_reliable T L \<and> mounted T (lib s1) = mounted T (lib (cst w))"
    using v1(3) q(3) rel by auto
  with free_view [OF wf [unfolded process_wf_def] sw, of "wrapper fs"] drop_eq [OF 1 2] q v1(2) v2
  show ?thesis by (simp add: view_defs)
qed

lemma umount_body_view:
  assumes C: "lib_contract T L" and wf: "process_wf w"
  shows "\<exists>r w'. umount_body L fs w = Done (r, w') \<and> counter w' = counter w \<and> process_wf w' \<and>
    (\<forall>n. n \<noteq> device_name fs \<longrightarrow> regs T w' n = regs T w n) \<and> boxes w' = boxes w \<and>
    (mnts T w' = (mnts T w)(mount_point fs := None) \<or> mnts T w' = mnts T w)"
proof -
  note C = contractD [OF C]
  obtain r s1 where 1: "l_umount (mount_fns L) (mount_point fs) (quiesce L fs (cst w)) = (r, s1)" by fastforce
  obtain r' s2 where 2: "l_device_unregister (mount_fns L) (device_name fs) s1 = (r', s2)" by fastforce
  note q = quiesce_view [OF C(5), where s = "cst w" and fs = fs]
  note v1 = umount_call_view [OF C(4) 1] and v2 = unregister_view [OF C(2) 2]
  have sw: "same_wiring (heap (cst w)) (heap s1)" "same_wiring (heap (cst w)) (heap s2)"
    using q(1) v1(1) v2(1) by (auto intro: same_wiring_trans)
  show ?thesis
  proof (cases "r = 0")
    case True
    then show ?thesis
      using umount_body_eq [OF 1 2] q v1 v2 sw same_wiring_wf [OF sw(2)] wf
      by (auto simp: view_defs fun_eq_iff same_wiring_as_bdev_ptr [OF sw(2)])
  next
    case False
    then show ?thesis
      using umount_body_eq [OF 1 2] q v1 sw same_wiring_wf [OF sw(1)] wf
      by (auto simp: view_defs fun_eq_iff same_wiring_as_bdev_ptr [OF sw(1)])
  qed
qed

lemma umount_sys_view:
  assumes C: "lib_contract T L" and wf: "process_wf w"
  shows "\<exists>r w'. umount L fs w = Done (r, w') \<and> counter w' = counter w \<and> process_wf w' \<and>
    regs T w' = (regs T w)(device_name fs := None) \<and>
    boxes w' = (boxes w)(wrapper fs := None) \<and>
    (mnts T w' = (mnts T w)(mount_point fs := None) \<or>
     \<not> umount_reliable T L \<and> mnts T w' = mnts T w)"
proof -
  obtain r w1 where 1: "umount_body L fs w = Done (r, w1)" "counter w1 = counter w" "process_wf w1"
    "\<forall>n. n \<noteq> device_name fs \<longrightarrow> regs T w1 n = regs T w n" "boxes w1 = boxes w"
    "mnts T w1 = (mnts T w)(mount_point fs := None) \<or> mnts T w1 = mnts T w"
    using umount_body_view [OF C wf, of fs] by blast
  obtain w2 where 2: "Ext4Fs_drop L fs w1 = Done ((), w2)" "counter w2 = counter w1" "process_wf w2"
    "regs T w2 = (regs T w1)(device_name fs := None)" "boxes w2 = (boxes w1)(wrapper fs := None)"
    "mnts T w2 = (mnts T w1)(mount_point fs := None) \<or> \<not> umount_reliable T L \<and> mnts T w2 = mnts T w1"
    using drop_sys_view [OF C 1(3), of fs] by blast
  have "umount L fs w = Done (r, w2)" using 1(1) 2(1) by (simp add: umount_def seq_st_def)
  moreover have "regs T w2 = (regs T w)(device_name fs := None)" using 1(4) 2(4) by auto
  moreover have "mnts T w2 = (mnts T w)(mount_point fs := None) \<or>
     \<not> umount_reliable T L \<and> mnts T w2 = mnts T w"
    using 1(6) 2(6) by auto
  ultimately show ?thesis using 1 2 by simp
qed

section \<open>Operations that leave the tables alone\<close>

definition calm :: "'s tables \<Rightarrow> (('s, 'd) process, 'r) comp \<Rightarrow> bool" where
  "calm T m \<longleftrightarrow> (\<forall>w. \<exists>r w'. m w = Done (r, w') \<and> same_view T w w')"

lemma calmD: "calm T m \<Longrightarrow> m w = Done (r, w') \<Longrightarrow> same_view T w w'"
  unfolding calm_def by (metis Pair_inject rust.inject)

lemma calm_ret: "calm T (ret_st x)"
  by (simp add: calm_def)

lemma calm_ffi: "quiet_call T f \<Longrightarrow> calm T (ffi c f)"
  by (simp add: calm_def ffi_apply quiet_same_view)

lemma calm_seq: "calm T m \<Longrightarrow> (\<And>x. calm T (k x)) \<Longrightarrow> calm T (seq_st m k)"
  unfolding calm_def
proof (intro allI)
  fix w
  assume m: "\<forall>w. \<exists>r w'. m w = Done (r, w') \<and> same_view T w w'"
    and k: "\<And>x. \<forall>w. \<exists>r w'. k x w = Done (r, w') \<and> same_view T w w'"
  from m obtain x w1 where 1: "m w = Done (x, w1)" "same_view T w w1" by blast
  from k [of x] obtain r w2 where 2: "k x w1 = Done (r, w2)" "same_view T w1 w2" by blast
  have "seq_st m k w = Done (r, w2)" using 1(1) 2(1) by (simp add: seq_st_def)
  with 1(2) 2(2) show "\<exists>r w'. seq_st m k w = Done (r, w') \<and> same_view T w w'"
    by (blast intro: same_view_trans)
qed

lemma calm_try: "calm T m \<Longrightarrow> (\<And>x. calm T (k x)) \<Longrightarrow> calm T (try_st m k)"
  unfolding calm_def
proof (intro allI)
  fix w
  assume m: "\<forall>w. \<exists>r w'. m w = Done (r, w') \<and> same_view T w w'"
    and k: "\<And>x. \<forall>w. \<exists>r w'. k x w = Done (r, w') \<and> same_view T w w'"
  from m obtain r w1 where 1: "m w = Done (r, w1)" "same_view T w w1" by blast
  show "\<exists>r w'. try_st m k w = Done (r, w') \<and> same_view T w w'"
  proof (cases r)
    case (Inl e)
    with 1 show ?thesis by (simp add: try_st_def)
  next
    case (Inr x)
    from k [of x] obtain r' w2 where 2: "k x w1 = Done (r', w2)" "same_view T w1 w2" by blast
    then have "try_st m k w = Done (r', w2)" using 1(1) Inr by (simp add: try_st_def)
    with 2(2) 1(2) show ?thesis by (blast intro: same_view_trans)
  qed
qed

lemma calm_try_res: "(\<And>x. calm T (k x)) \<Longrightarrow> calm T (try_res r k)"
  by (cases r) (simp_all add: calm_ret)

lemma calm_check: "calm T (lift_rust (check_errno e))" "calm T (lift_rust (check_errno_with_path e p))"
  by (simp_all add: calm_def check_errno_eq check_errno_with_path_eq)

lemma calm_if: "calm T m \<Longrightarrow> calm T n \<Longrightarrow> calm T (if b then m else n)"
  by simp

lemmas calm_rules = calm_ret calm_seq calm_try calm_try_res calm_check calm_if calm_ffi

lemma calm_ignore: "calm T m \<Longrightarrow> calm T (ignore m)"
  by (simp add: ignore_def calm_seq calm_ret)

lemma calm_prod: "(\<And>x y. calm T (k x y)) \<Longrightarrow> calm T (case z of (x, y) \<Rightarrow> k x y)"
  by (cases z) simp

lemma calm_sum: "(\<And>x. calm T (k x)) \<Longrightarrow> (\<And>y. calm T (l y)) \<Longrightarrow> calm T (case z of Inl x \<Rightarrow> k x | Inr y \<Rightarrow> l y)"
  by (cases z) simp_all

lemma run_op_calm:
  assumes "quiet_contract T L"
  shows "calm T (run_op L fs c)"
  using assms
  by (cases c) (auto simp: quiet_defs op_defs ffi_defs intro!: calm_rules)

lemma sync_calm: "quiet_contract T L \<Longrightarrow> calm T (sync L fs)"
  by (auto simp: quiet_defs sync_def ffi_defs intro!: calm_rules)

section \<open>Formatting\<close>

lemma mul_u64_DoneD: "mul_u64 p a b = Done c \<Longrightarrow> c = a * b"
  by (auto simp: mul_u64_def split: if_splits)

lemma new_part_size:
  assumes "BlockDeviceWrapper_new p V d h0 = Done (a, h)"
  shows "\<exists>bd b. as_bdev_ptr h a = Some bd \<and> h_bdevs h bd = Some b \<and>
    part_size b = vt_block_count V d * u64_of_u32 (vt_block_size V d)"
  using assms
  by (auto simp: wrapper_new_eq bind_rust_Done_iff Let_def as_bdev_ptr_def fresh_bdev_def
      dest: mul_u64_DoneD)

lemma label_cstring_ok:
  "\<forall>l. lab = Some l \<longrightarrow> NUL \<notin> set l \<Longrightarrow> label_cstring lab s = Done (lab, s)"
  by (cases lab) (simp_all add: label_cstring_def cstring_new_ok rust_simps)

lemma mkfs_eq:
  assumes new: "BlockDeviceWrapper_new p V d (heap (cst w)) = Done (a, h)"
    and bd: "as_bdev_ptr h a = Some bd" and lab: "\<forall>l. o_label opts = Some l \<longrightarrow> NUL \<notin> set l"
    and n: "l_sizeof_ext4_fs (mkfs_fns L) ((cst w)\<lparr>heap := h\<rparr>) = (n, s1)" "unat n \<le> isize_max"
    and info: "info = mkfs_info opts (vt_block_count V d * u64_of_u32 (vt_block_size V d)) (o_label opts)"
    and mk: "l_mkfs (mkfs_fns L) (replicate (unat n) 0) bd info (FsType_to_raw (o_fs_type opts)) s1 =
      ((ret, info'), s2)"
  shows "mkfs p L V d opts w = Done (if ret = 0 then Inr () else Inl (err_of ret),
    w\<lparr>cst := s2\<lparr>heap := BlockDeviceWrapper_drop a (heap s2)\<rparr>,
      calls := calls w @ [C_sizeof_ext4_fs, C_mkfs bd info (FsType_to_raw (o_fs_type opts))]\<rparr>)"
proof -
  obtain b where b: "h_bdevs h bd = Some b"
    "part_size b = vt_block_count V d * u64_of_u32 (vt_block_size V d)"
    using new_part_size [OF new] bd by auto
  note l = label_cstring_ok [OF lab]
  have "vec_zero n = Done (replicate (unat n) 0)" using n(2) by (simp add: vec_zero_def)
  then show ?thesis
    using new bd b n(1) mk info
    by (simp add: mkfs_def alloc_wrapper_def bdev_ptr_def part_size_of_def ffi_defs rust_simps
        free_wrapper_def Let_def l)
qed

lemma mkfs_label_panic:
  "o_label opts = Some l \<Longrightarrow> NUL \<in> set l \<Longrightarrow> mkfs p L V d opts w = Panic"
proof -
  assume l: "o_label opts = Some l" "NUL \<in> set l"
  obtain n where "position is_nul l = Some n" using l(2) position_nul [of l] by auto
  then have pan: "label_cstring (o_label opts) s = Panic" for s :: "'s"
    using l(1) by (simp add: label_cstring_def cstring_new_def unwrap_res_def seq_st_def)
  show ?thesis
  proof (cases "BlockDeviceWrapper_new p V d (heap (cst w))")
    case (Done x)
    then obtain a h where new: "BlockDeviceWrapper_new p V d (heap (cst w)) = Done (a, h)"
      by (cases x) auto
    then obtain bd where "as_bdev_ptr h a = Some bd" using new_part_size [OF new] by auto
    with new show ?thesis
      by (simp add: mkfs_def alloc_wrapper_def bdev_ptr_def rust_simps pan)
  qed (simp add: mkfs_def alloc_wrapper_def rust_simps)
qed

lemma mkfs_view:
  assumes C: "lib_contract T L" and wf: "process_wf w" and run: "mkfs p L V d opts w = Done (r, w')"
  shows "same_view T w w'"
proof -
  have q: "quiet_call T (l_sizeof_ext4_fs (mkfs_fns L))" "quiet_call T (l_mkfs (mkfs_fns L) b bd i ty)"
    for b bd i ty using contractD(5) [OF C] by (simp_all add: quiet_defs)
  have lab: "\<forall>l. o_label opts = Some l \<longrightarrow> NUL \<notin> set l"
    using run mkfs_label_panic [of opts _ p L V d w] by auto
  obtain a h where new: "BlockDeviceWrapper_new p V d (heap (cst w)) = Done (a, h)"
    using run by (cases "BlockDeviceWrapper_new p V d (heap (cst w))")
      (auto simp: mkfs_def alloc_wrapper_def rust_simps)
  obtain bd b where bd: "as_bdev_ptr h a = Some bd" "h_bdevs h bd = Some b"
    using new_part_size [OF new] by auto
  obtain n s1 where n: "l_sizeof_ext4_fs (mkfs_fns L) ((cst w)\<lparr>heap := h\<rparr>) = (n, s1)" by fastforce
  have big: "unat n \<le> isize_max"
  proof (rule ccontr)
    assume "\<not> ?thesis"
    then have "vec_zero n = Panic" by (simp add: vec_zero_def)
    with run show False
      by (simp add: mkfs_def alloc_wrapper_def bdev_ptr_def part_size_of_def ffi_defs rust_simps
          new bd n label_cstring_ok [OF lab] Let_def)
  qed
  let ?info = "mkfs_info opts (vt_block_count V d * u64_of_u32 (vt_block_size V d)) (o_label opts)"
  obtain ret info' s2 where mk: "l_mkfs (mkfs_fns L) (replicate (unat n) 0) bd ?info
      (FsType_to_raw (o_fs_type opts)) s1 = ((ret, info'), s2)" by (metis surj_pair)
  note v1 = quiet_view [OF q(1), of "(cst w)\<lparr>heap := h\<rparr>", unfolded n, simplified]
  note v2 = quiet_view [OF q(2) [of "replicate (unat n) 0" bd ?info "FsType_to_raw (o_fs_type opts)"],
      of s1, unfolded mk, simplified]
  obtain bd' where al: "boxes w a = None" "heap_wf h" "as_bdev_ptr h = (boxes w)(a \<mapsto> bd')"
    using alloc_view [OF wf new] by auto
  show ?thesis
    using run mkfs_eq [OF new bd(1) lab n big refl mk] v1 v2 al
      free_view [OF al(2) same_wiring_trans [OF v1(1) v2(1)], of a]
    by (auto simp: same_view_def view_defs fun_eq_iff)
qed

end
