(* ===== verification/Handles.thy ===== *)
theory Handles
  imports Lifecycle
begin

text \<open>
  The queries of a mounted file system and the methods of open file and directory handles leave
  lwext4's tables and the boxes of the wrappers alone, and a handle stays on the file system it was
  opened on. The methods are collected in two datatypes of calls, so that a process can be a
  relation over them.
\<close>

section \<open>Queries\<close>

datatype fs_query = QStat | QReadlink string | QExists string | QIsFile string | QIsDir string
  | QMetadata string

fun run_query :: "'w lwext4 \<Rightarrow> Ext4Fs \<Rightarrow> fs_query \<Rightarrow> ('w world, unit) comp" where
  "run_query L fs QStat = ignore (stat L fs)"
| "run_query L fs (QReadlink path) = ignore (readlink L fs path)"
| "run_query L fs (QExists path) = ignore (exists_path L fs path)"
| "run_query L fs (QIsFile path) = ignore (is_file L fs path)"
| "run_query L fs (QIsDir path) = ignore (is_dir L fs path)"
| "run_query L fs (QMetadata path) = ignore (metadata L fs path)"

lemma File_open_calm: "quiet_contract T L \<Longrightarrow> calm T (File_open L fs path flags)"
  by (auto simp: quiet_defs File_open_def ffi_defs intro!: calm_rules calm_prod)

lemma File_drop_calm: "quiet_contract T L \<Longrightarrow> calm T (File_drop L f)"
  by (auto simp: quiet_defs File_drop_def ffi_defs intro!: calm_rules calm_ignore)

lemma size_of_path_calm:
  assumes "quiet_contract T L"
  shows "calm T (size_of_path L fs path)"
proof -
  have "calm T (\<lambda>w. bind_rust (File_size L (f, w)) (\<lambda>(n, (f, w)).
         seq_st (File_drop L f) (\<lambda>_. ret_st n) w))" for f :: File
  proof -
    have "(\<lambda>w. bind_rust (File_size L (f, w)) (\<lambda>(n, (f, w)). seq_st (File_drop L f) (\<lambda>_. ret_st n) w)) =
        seq_st (ext4_fsize L (inner f)) (\<lambda>n. seq_st (File_drop L f) (\<lambda>_. ret_st n))"
      by (simp add: fun_eq_iff File_size_def ffi_defs rust_simps)
    moreover have "calm T (ext4_fsize L (inner f))"
      using assms by (auto simp: quiet_defs ffi_defs intro!: calm_rules)
    ultimately show ?thesis using File_drop_calm [OF assms] by (simp add: calm_rules)
  qed
  then show ?thesis
    by (simp add: size_of_path_def calm_rules calm_sum File_open_calm [OF assms])
qed

lemma metadata_calm:
  assumes "quiet_contract T L"
  shows "calm T (metadata L fs path)"
proof -
  have q: "quiet_path_fns T (path_fns L)" using assms by (simp add: quiet_contract_def)
  show ?thesis
    unfolding metadata_def ffi_defs Let_def
    using q size_of_path_calm [OF assms]
    by (auto simp: quiet_path_fns_def intro!: calm_rules calm_prod)
qed

lemma run_query_calm:
  assumes "quiet_contract T L"
  shows "calm T (run_query L fs q)"
proof -
  have P: "quiet_path_fns T (path_fns L)" and M: "quiet_mount_fns T (mount_fns L)"
    using assms by (simp_all add: quiet_contract_def)
  have ic: "calm T (inode_check L fs path ty)" for path ty
    using P by (auto simp: inode_check_def quiet_path_fns_def ffi_defs intro!: calm_sum calm_rules)
  show ?thesis
  proof (cases q)
    case QStat
    then show ?thesis using M
      by (auto simp: stat_def quiet_mount_fns_def ffi_defs intro!: calm_ignore calm_rules calm_prod)
  next
    case (QReadlink path)
    then show ?thesis using P
      by (auto simp: readlink_def Let_def quiet_path_fns_def ffi_defs intro!: calm_ignore calm_rules calm_prod)
  next
    case (QExists path)
    then show ?thesis using metadata_calm [OF assms]
      by (auto simp: exists_path_def intro!: calm_ignore calm_rules)
  qed (simp_all add: is_file_def is_dir_def calm_ignore ic metadata_calm [OF assms])
qed

section \<open>Methods of open handles\<close>

datatype file_call = FcRead bytes | FcWrite bytes | FcSeek SeekFrom | FcPosition | FcSize
  | FcTruncate u64 | FcFlush | FcSync | FcMetadata | FcReadToEnd bytes | FcReadToString string
  | FcWriteAll bytes

text \<open>The state a call leaves; the value it returns does not matter for the tables.\<close>

definition after :: "('a \<times> 's) rust \<Rightarrow> 's rust" where
  "after m = bind_rust m (\<lambda>(_, s). Done s)"

fun run_file :: "profile \<Rightarrow> 'w lwext4 \<Rightarrow> file_call \<Rightarrow> 'w file_state \<Rightarrow> 'w file_state rust option" where
  "run_file p L (FcRead buf) st = Some (after (File_read L buf st))"
| "run_file p L (FcWrite buf) st = Some (after (File_write L buf st))"
| "run_file p L (FcSeek pos) st = Some (after (File_seek L pos st))"
| "run_file p L FcPosition st = Some (after (File_position L st))"
| "run_file p L FcSize st = Some (after (File_size L st))"
| "run_file p L (FcTruncate n) st = Some (after (File_truncate L n st))"
| "run_file p L FcFlush st = Some (after (File_flush st))"
| "run_file p L FcSync st = Some (after (File_sync L st))"
| "run_file p L FcMetadata st = Some (after (File_metadata L st))"
| "run_file p L (FcReadToEnd buf) st = map_option after (File_read_to_end p L buf st)"
| "run_file p L (FcReadToString buf) st = map_option after (File_read_to_string p L buf st)"
| "run_file p L (FcWriteAll buf) st = map_option after (File_write_all p L buf st)"

datatype dir_call = DcNext | DcRewind

fun run_dir :: "'w lwext4 \<Rightarrow> dir_call \<Rightarrow> 'w dir_state \<Rightarrow> 'w dir_state rust" where
  "run_dir L DcNext st = after (Dir_next L st)"
| "run_dir L DcRewind st = after (Dir_rewind L st)"

lemma after_Done: "after m = Done s \<longleftrightarrow> (\<exists>r. m = Done (r, s))"
  by (auto simp: after_def bind_rust_Done_iff)

text \<open>
  A method keeps the tables and the file system \<open>g h\<close> its handle \<open>h\<close> belongs to.
\<close>

definition kept :: "'s tables \<Rightarrow> ('h \<Rightarrow> Ext4Fs) \<Rightarrow> 'h \<times> ('s, 'd) process \<Rightarrow> 'h \<times> ('s, 'd) process \<Rightarrow> bool" where
  "kept T g st st' \<longleftrightarrow> same_view T (snd st) (snd st') \<and> g (fst st') = g (fst st)"

lemma kept_refl [simp]: "kept T g st st"
  by (simp add: kept_def)

lemma kept_trans: "kept T g s1 s2 \<Longrightarrow> kept T g s2 s3 \<Longrightarrow> kept T g s1 s3"
  by (auto simp: kept_def intro: same_view_trans)

lemma kept_call:
  assumes "quiet_call T f" and "g h' = g h"
  shows "kept T g (h, w) (h', w\<lparr>cst := snd (f (cst w)), calls := cs\<rparr>)"
  using quiet_same_view [OF assms(1)] assms(2) by (simp add: kept_def)

lemma quiet_parts:
  assumes "quiet_contract T L"
  shows "quiet_mount_fns T (mount_fns L)" "quiet_file_fns T (file_fns L)"
    "quiet_path_fns T (path_fns L)" "quiet_dir_fns T (dir_fns L)"
  using assms by (simp_all add: quiet_contract_def)

lemma File_read_kept:
  assumes "quiet_contract T L" and "File_read L buf st = Done (r, st')"
  shows "kept T ffs st st'"
  using quiet_parts(2) [OF assms(1)] assms(2)
  by (cases st) (auto simp: File_read_def quiet_file_fns_def ffi_defs rust_simps bind_rust_Done_iff
      split: prod.splits intro!: kept_call)

lemma File_write_kept:
  assumes "quiet_contract T L" and "File_write L buf st = Done (r, st')"
  shows "kept T ffs st st'"
  using quiet_parts(2) [OF assms(1)] assms(2)
  by (cases st) (auto simp: File_write_def quiet_file_fns_def ffi_defs rust_simps bind_rust_Done_iff
      split: prod.splits intro!: kept_call)

lemma File_truncate_kept:
  assumes "quiet_contract T L" and "File_truncate L n st = Done (r, st')"
  shows "kept T ffs st st'"
  using quiet_parts(2) [OF assms(1)] assms(2)
  by (cases st) (auto simp: File_truncate_def quiet_file_fns_def ffi_defs rust_simps bind_rust_Done_iff
      split: prod.splits intro!: kept_call)

lemma File_asks_kept:
  assumes "quiet_contract T L"
  shows "File_position L st = Done (n, st') \<Longrightarrow> kept T ffs st st'"
    and "File_size L st = Done (n, st') \<Longrightarrow> kept T ffs st st'"
  using quiet_parts(2) [OF assms]
  by (cases st; auto simp: File_position_def File_size_def quiet_file_fns_def ffi_defs rust_simps
      intro!: kept_call)+

lemma File_seek_kept:
  assumes "quiet_contract T L" and "File_seek L pos st = Done (r, st')"
  shows "kept T ffs st st'"
proof -
  obtain self w off org where st: "st = (self, w)" "SeekFrom_to_raw pos = (off, org)" by fastforce
  obtain ret f s where c: "l_fseek (file_fns L) (inner self) off org (cst w) = ((ret, f), s)"
    by (metis surj_pair)
  let ?st1 = "(self\<lparr>inner := f\<rparr>, w\<lparr>cst := s, calls := calls w @ [C_fseek (inner self) off org]\<rparr>)"
  have "quiet_call T (l_fseek (file_fns L) (inner self) off org)"
    using quiet_parts(2) [OF assms(1)] by (simp add: quiet_file_fns_def)
  from kept_call [OF this, of ffs "self\<lparr>inner := f\<rparr>" self w] have 1: "kept T ffs st ?st1"
    by (simp add: c st)
  have "try_st (lift_rust (check_errno ret)) (\<lambda>_. seq_st (File_position L) (\<lambda>n. ret_st (Inr n))) ?st1 =
      Done (r, st')"
    using assms(2) by (simp add: File_seek_def st ffi_defs rust_simps c)
  then consider "st' = ?st1" | n where "File_position L ?st1 = Done (n, st')"
    by (auto simp: check_errno_eq try_st_def seq_st_def split: if_splits rust.splits)
  then have "kept T ffs ?st1 st'"
    by cases (auto intro: File_asks_kept(1) [OF assms(1)])
  with 1 show ?thesis by (rule kept_trans)
qed

lemma kept_calm:
  assumes "calm T m" and "bind_rust (m w) (\<lambda>(r, w). Done (r, (h, w))) = Done (r, st')"
  shows "kept T g (h, w) st'"
  using assms calmD [of T m w] by (auto simp: bind_rust_Done_iff kept_def)

lemma File_sync_kept:
  assumes "quiet_contract T L"
  shows "File_sync L st = Done (r, st') \<Longrightarrow> kept T ffs st st'"
    and "File_metadata L st = Done (r', st') \<Longrightarrow> kept T ffs st st'"
  by (cases st; auto simp: File_sync_def File_metadata_def
      intro: kept_calm [OF sync_calm [OF assms]] kept_calm [OF metadata_calm [OF assms]])+

lemma read_loop_kept:
  assumes "read_loop p L chunk buf tot st = Some y" and "quiet_contract T L" and "y = Done (r, st')"
  shows "kept T ffs st st'"
  using assms
proof (induction arbitrary: r st' rule: read_loop.raw_induct [rotated, consumes 1, case_names step])
  case (step rec p L chunk buf tot st y)
  from step(2,4) obtain r1 chunk1 st1 where rd: "File_read L chunk st = Done ((r1, chunk1), st1)"
    by (auto split: rust.splits)
  note k = File_read_kept [OF step(3) rd]
  have "st' = st1 \<or> (\<exists>buf1 tot1. rec p L chunk1 buf1 tot1 st1 = Some (Done (r, st')))"
    using step(2,4) rd by (auto split: sum.splits if_splits rust.splits)
  with k step(1) [OF _ step(3)] show ?case by (blast intro: kept_trans)
qed

lemma write_loop_kept:
  assumes "write_loop p L buf written st = Some y" and "quiet_contract T L" and "y = Done (r, st')"
  shows "kept T ffs st st'"
  using assms
proof (induction arbitrary: r st' rule: write_loop.raw_induct [rotated, consumes 1, case_names step])
  case (step rec p L buf written st y)
  show ?case
  proof (cases "written < slice_len buf")
    case False
    then show ?thesis using step(2,4) by simp
  next
    case True
    with step(2,4) obtain r1 st1 where wr: "File_write L (drop (unat written) buf) st = Done (r1, st1)"
      by (auto split: rust.splits)
    note k = File_write_kept [OF step(3) wr]
    have "st' = st1 \<or> (\<exists>written1. rec p L buf written1 st1 = Some (Done (r, st')))"
      using True step(2,4) wr by (auto split: sum.splits if_splits rust.splits)
    with k step(1) [OF _ step(3)] show ?thesis by (blast intro: kept_trans)
  qed
qed

lemma File_read_to_end_kept:
  assumes "quiet_contract T L" and "File_read_to_end p L buf st = Some (Done (r, st'))"
  shows "kept T ffs st st'"
proof -
  obtain n st1 where sz: "File_size L st = Done (n, st1)"
    using assms(2) by (cases "File_size L st") (auto simp: File_read_to_end_def)
  obtain q st2 where sk: "File_seek L (Start 0) st1 = Done (q, st2)"
    using assms(2) sz by (cases "File_seek L (Start 0) st1") (auto simp: File_read_to_end_def split: if_splits)
  have "kept T ffs st st2"
    using kept_trans [OF File_asks_kept(2) [OF assms(1) sz] File_seek_kept [OF assms(1) sk]] .
  moreover have "st' = st2 \<or> (\<exists>chunk buf1. read_loop p L chunk buf1 0 st2 = Some (Done (r, st')))"
    using assms(2) sz sk by (auto simp: File_read_to_end_def split: if_splits sum.splits)
  ultimately show ?thesis using read_loop_kept [OF _ assms(1) refl] by (blast intro: kept_trans)
qed

lemma run_file_kept:
  assumes "quiet_contract T L" and "run_file p L c st = Some (Done st')"
  shows "kept T ffs st st'"
proof -
  note rules = File_read_kept File_write_kept File_truncate_kept File_asks_kept File_seek_kept
    File_sync_kept File_read_to_end_kept
  show ?thesis
    using assms(2)
    by (cases c) (auto simp: after_Done File_flush_def File_read_to_string_def File_write_all_def
        bind_rust_Done_iff intro: rules [OF assms(1)] write_loop_kept [OF _ assms(1) refl])
qed

lemma run_dir_kept:
  assumes "quiet_contract T L" and "run_dir L c st = Done st'"
  shows "kept T dfs st st'"
  using quiet_parts(4) [OF assms(1)] assms(2)
  by (cases c; cases st) (auto simp: after_Done Dir_next_def Dir_next_entry_def Dir_rewind_def Let_def
      quiet_dir_fns_def ffi_defs rust_simps bind_rust_Done_iff split: prod.splits option.splits
      intro!: kept_call)

section \<open>Opening and closing\<close>

lemma open_file_fs: "open_file L fs path flags w = Done (Inr f, w') \<Longrightarrow> ffs f = fs"
  by (cases "make_path fs path")
    (auto simp: open_file_def File_open_def ffi_defs rust_simps try_st_def split: if_splits prod.splits)

lemma open_dir_fs: "open_dir L fs path w = Done (Inr d, w') \<Longrightarrow> dfs d = fs"
  by (cases "make_path fs path")
    (auto simp: open_dir_def Dir_open_def ffi_defs rust_simps try_st_def split: if_splits prod.splits)

lemma open_calm:
  assumes "quiet_contract T L"
  shows "calm T (open_file L fs path flags)" and "calm T (open_dir L fs path)"
    and "calm T (Dir_drop L d)"
proof -
  show "calm T (open_file L fs path flags)" by (simp add: open_file_def File_open_calm [OF assms])
  show "calm T (open_dir L fs path)" "calm T (Dir_drop L d)"
    using quiet_parts(4) [OF assms]
    by (auto simp: open_dir_def Dir_open_def Dir_drop_def quiet_dir_fns_def ffi_defs
        intro!: calm_rules calm_prod calm_ignore)
qed

end
