(* ===== verification/System.thy ===== *)
theory System
  imports Handles
begin

text \<open>
  The processes that use the crate as a step relation: the handles the program holds and the state
  of the process. The invariants say what the tables of lwext4 and the heap look like at every
  moment: what is registered or mounted belongs to a live handle, nothing is leaked, and open files
  and directories belong to a mounted file system.
\<close>

section \<open>Steps\<close>

text \<open>The handles a process holds: mounted file systems, open files and open directories.\<close>

type_synonym ('s, 'd) sys = "Ext4Fs list \<times> File list \<times> Dir list \<times> ('s, 'd) process"

text \<open>
  \<open>File<'a>\<close> and \<open>Dir<'a>\<close> hold a reference to the \<open>Ext4Fs\<close> they were opened on, so the borrow
  checker lets a mount be consumed only when nothing opened on it is alive.
\<close>

definition unborrowed :: "Ext4Fs \<Rightarrow> File list \<Rightarrow> Dir list \<Rightarrow> bool" where
  "unborrowed fs F D \<longleftrightarrow> fs \<notin> ffs ` set F \<and> fs \<notin> dfs ` set D"

definition without :: "nat \<Rightarrow> 'a list \<Rightarrow> 'a list" where
  "without i xs = take i xs @ drop (Suc i) xs"

text \<open>
  A handle is used by reference, or consumed by \<open>umount\<close> or by going out of scope. The counter
  of device numbers is an \<open>AtomicU64\<close>: the steps cover fewer than \<open>2^64\<close> mounts.
\<close>

inductive sys_step ::
  "profile \<Rightarrow> ('s, 'd) cworld lwext4 \<Rightarrow> ('s, 'd) sys \<Rightarrow> ('s, 'd) sys \<Rightarrow> bool"
  for p :: profile and L :: "('s, 'd) cworld lwext4" where
  mount_ok: "counter w \<noteq> - 1 \<Longrightarrow> mount p L V d ro w = Done (Inr fs, w') \<Longrightarrow>
    sys_step p L (H, F, D, w) (fs # H, F, D, w')"
| mount_err: "counter w \<noteq> - 1 \<Longrightarrow> mount p L V d ro w = Done (Inl e, w') \<Longrightarrow>
    sys_step p L (H, F, D, w) (H, F, D, w')"
| unmount: "fs \<in> set H \<Longrightarrow> unborrowed fs F D \<Longrightarrow> umount L fs w = Done (r, w') \<Longrightarrow>
    sys_step p L (H, F, D, w) (remove1 fs H, F, D, w')"
| scope_end: "fs \<in> set H \<Longrightarrow> unborrowed fs F D \<Longrightarrow> Ext4Fs_drop L fs w = Done (u, w') \<Longrightarrow>
    sys_step p L (H, F, D, w) (remove1 fs H, F, D, w')"
| operation: "fs \<in> set H \<Longrightarrow> run_op L fs c w = Done (r, w') \<Longrightarrow>
    sys_step p L (H, F, D, w) (H, F, D, w')"
| query: "fs \<in> set H \<Longrightarrow> run_query L fs q w = Done (u, w') \<Longrightarrow>
    sys_step p L (H, F, D, w) (H, F, D, w')"
| syncing: "fs \<in> set H \<Longrightarrow> sync L fs w = Done (r, w') \<Longrightarrow>
    sys_step p L (H, F, D, w) (H, F, D, w')"
| formatting: "mkfs p L V d opts w = Done (r, w') \<Longrightarrow> sys_step p L (H, F, D, w) (H, F, D, w')"
| open_ok: "fs \<in> set H \<Longrightarrow> open_file L fs path flags w = Done (Inr f, w') \<Longrightarrow>
    sys_step p L (H, F, D, w) (H, f # F, D, w')"
| open_err: "fs \<in> set H \<Longrightarrow> open_file L fs path flags w = Done (Inl e, w') \<Longrightarrow>
    sys_step p L (H, F, D, w) (H, F, D, w')"
| file_method: "i < length F \<Longrightarrow> run_file p L fc (F ! i, w) = Some (Done (f, w')) \<Longrightarrow>
    sys_step p L (H, F, D, w) (H, F[i := f], D, w')"
| file_close: "i < length F \<Longrightarrow> File_drop L (F ! i) w = Done (u, w') \<Longrightarrow>
    sys_step p L (H, F, D, w) (H, without i F, D, w')"
| opendir_ok: "fs \<in> set H \<Longrightarrow> open_dir L fs path w = Done (Inr d, w') \<Longrightarrow>
    sys_step p L (H, F, D, w) (H, F, d # D, w')"
| opendir_err: "fs \<in> set H \<Longrightarrow> open_dir L fs path w = Done (Inl e, w') \<Longrightarrow>
    sys_step p L (H, F, D, w) (H, F, D, w')"
| dir_method: "i < length D \<Longrightarrow> run_dir L dc (D ! i, w) = Done (d, w') \<Longrightarrow>
    sys_step p L (H, F, D, w) (H, F, D[i := d], w')"
| dir_close: "i < length D \<Longrightarrow> Dir_drop L (D ! i) w = Done (u, w') \<Longrightarrow>
    sys_step p L (H, F, D, w) (H, F, without i D, w')"

inductive_cases sys_stepE: "sys_step p L (H, F, D, w) (H', F', D', w')"

inductive sys_reach ::
  "profile \<Rightarrow> ('s, 'd) cworld lwext4 \<Rightarrow> ('s, 'd) process \<Rightarrow> ('s, 'd) sys \<Rightarrow> bool"
  for p :: profile and L :: "('s, 'd) cworld lwext4" and w0 :: "('s, 'd) process" where
  start: "sys_reach p L w0 ([], [], [], w0)"
| step: "sys_reach p L w0 s \<Longrightarrow> sys_step p L s s' \<Longrightarrow> sys_reach p L w0 s'"

text \<open>A process before its first mount.\<close>

definition pristine :: "'s tables \<Rightarrow> ('s, 'd) process \<Rightarrow> bool" where
  "pristine T w \<longleftrightarrow> counter w = 0 \<and> heap (cst w) = empty_heap \<and> regs T w = Map.empty \<and>
     mnts T w = Map.empty"

section \<open>Invariants\<close>

definition named :: "u64 \<Rightarrow> Ext4Fs \<Rightarrow> bool" where
  "named did fs \<longleftrightarrow> device_name fs = dev_name did \<and> mount_point fs = mp_name did"

definition handles_inv :: "('s, 'd) process \<Rightarrow> Ext4Fs list \<Rightarrow> bool" where
  "handles_inv w H \<longleftrightarrow> (\<forall>fs \<in> set H. (\<exists>did. named did fs \<and> did < counter w) \<and>
       (journal_active fs \<longrightarrow> \<not> read_only fs)) \<and>
     distinct (map device_name H) \<and> distinct (map wrapper H)"

text \<open>The live wrappers are those of the handles, the registered devices are theirs.\<close>

definition devices_inv :: "'s tables \<Rightarrow> ('s, 'd) process \<Rightarrow> Ext4Fs list \<Rightarrow> bool" where
  "devices_inv T w H \<longleftrightarrow> process_wf w \<and> dom (boxes w) = wrapper ` set H \<and>
     (\<forall>n bd. regs T w n = Some bd \<longleftrightarrow>
        (\<exists>fs \<in> set H. device_name fs = n \<and> boxes w (wrapper fs) = Some bd))"

definition mounts_inv :: "'s tables \<Rightarrow> ('s, 'd) process \<Rightarrow> Ext4Fs list \<Rightarrow> bool" where
  "mounts_inv T w H \<longleftrightarrow> (\<forall>mp bd. mnts T w mp = Some bd \<longrightarrow>
     (\<exists>fs \<in> set H. mount_point fs = mp \<and> boxes w (wrapper fs) = Some bd))"

text \<open>The mount points in use have numbers below the counter, even those a failed unmount left behind.\<close>

definition names_inv :: "'s tables \<Rightarrow> ('s, 'd) process \<Rightarrow> bool" where
  "names_inv T w \<longleftrightarrow> (\<forall>mp. mnts T w mp \<noteq> None \<longrightarrow> (\<exists>did < counter w. mp = mp_name did))"

text \<open>Every live handle is mounted, whatever becomes of the others.\<close>

definition live_inv :: "'s tables \<Rightarrow> ('s, 'd) process \<Rightarrow> Ext4Fs list \<Rightarrow> bool" where
  "live_inv T w H \<longleftrightarrow> (\<forall>fs \<in> set H. mnts T w (mount_point fs) = boxes w (wrapper fs))"

definition borrow_inv :: "Ext4Fs list \<Rightarrow> File list \<Rightarrow> Dir list \<Rightarrow> bool" where
  "borrow_inv H F D \<longleftrightarrow> ffs ` set F \<subseteq> set H \<and> dfs ` set D \<subseteq> set H"

lemma named_names:
  "named a f \<Longrightarrow> named b g \<Longrightarrow> mount_point f = mount_point g \<longleftrightarrow> device_name f = device_name g"
  by (simp add: named_def)

lemma handles_names:
  assumes "handles_inv w H" and "f \<in> set H" and "g \<in> set H"
  shows "device_name f = device_name g \<longleftrightarrow> f = g" and "wrapper f = wrapper g \<longleftrightarrow> f = g"
    and "mount_point f = mount_point g \<longleftrightarrow> f = g"
proof -
  show 1: "device_name f = device_name g \<longleftrightarrow> f = g" and "wrapper f = wrapper g \<longleftrightarrow> f = g"
    using assms by (auto simp: handles_inv_def distinct_map dest: inj_onD)
  obtain a b where "named a f" "named b g" using assms unfolding handles_inv_def by blast
  with 1 show "mount_point f = mount_point g \<longleftrightarrow> f = g" using named_names by metis
qed

lemma counter_step:
  fixes c x :: u64
  assumes "c \<noteq> - 1"
  shows "c < c + 1" and "x < c \<Longrightarrow> x < c + 1"
proof -
  have "unat c \<noteq> 2 ^ 64 - 1"
  proof
    assume "unat c = 2 ^ 64 - 1"
    then have "unat c = unat (- 1 :: u64)"
      by (simp add: unsigned_minus_1_eq_mask mask_eq_exp_minus_1)
    with assms show False by (metis word_unat_eq_iff)
  qed
  then have "unat c + unat (1 :: u64) < 2 ^ 64" using unat_u64_lt [of c] by simp
  then have "unat (c + 1) = unat c + 1" by (simp add: unat_add_u64)
  then show "c < c + 1" "x < c \<Longrightarrow> x < c + 1" by (simp_all add: word_less_nat_alt)
qed

lemma distinct_map_remove1: "distinct (map g xs) \<Longrightarrow> distinct (map g (remove1 x xs))"
  by (auto simp: distinct_map distinct_remove1 intro: inj_on_subset dest: subsetD [OF set_remove1_subset])

text \<open>Lists of borrowers.\<close>

lemma set_without: "set (without i xs) \<subseteq> set xs"
  unfolding without_def by (auto dest: in_set_takeD in_set_dropD)

lemma length_without: "i < length xs \<Longrightarrow> Suc (length (without i xs)) = length xs"
  by (simp add: without_def)

lemma map_update_same: "i < length xs \<Longrightarrow> g x = g (xs ! i) \<Longrightarrow> map g (xs[i := x]) = map g xs"
  by (metis list_update_id map_update nth_map)

lemma borrow_inv_removed:
  "borrow_inv H F D \<Longrightarrow> unborrowed fs F D \<Longrightarrow> borrow_inv (remove1 fs H) F D"
  by (auto simp: borrow_inv_def unborrowed_def in_set_remove1)
     (metis imageI in_set_remove1 subsetD)+

text \<open>What a step does, in terms of the view.\<close>

lemma inv_same_view:
  assumes "same_view T w w'"
  shows "handles_inv w H \<Longrightarrow> handles_inv w' H" and "devices_inv T w H \<Longrightarrow> devices_inv T w' H"
    and "mounts_inv T w H \<Longrightarrow> mounts_inv T w' H" and "live_inv T w H \<Longrightarrow> live_inv T w' H"
  using assms
  by (simp_all add: same_view_def handles_inv_def devices_inv_def mounts_inv_def live_inv_def)

lemma names_inv_mono:
  assumes "names_inv T w" and "counter w \<le> counter w'"
    and "\<And>mp. mnts T w' mp \<noteq> None \<Longrightarrow>
      mnts T w mp \<noteq> None \<or> counter w < counter w' \<and> mp = mp_name (counter w)"
  shows "names_inv T w'"
  using assms unfolding names_inv_def by (metis order_less_le_trans)

lemma names_inv_fresh: "names_inv T w \<Longrightarrow> mnts T w (mp_name (counter w)) = None"
  unfolding names_inv_def using mp.inject by (metis order_less_irrefl)

lemma inv_mounted:
  assumes inv: "handles_inv w H" "devices_inv T w H"
    and c: "counter w \<noteq> - 1" "counter w' = counter w + 1" and wf: "process_wf w'"
    and fs: "fs = new_mount (counter w) a ro journal" "journal \<longrightarrow> \<not> ro"
    and r: "regs T w' = (regs T w)(device_name fs \<mapsto> bd)"
    and b: "boxes w a = None" "boxes w' = (boxes w)(a \<mapsto> bd)"
  shows "handles_inv w' (fs # H)" and "devices_inv T w' (fs # H)"
    and "mounts_inv T w H \<Longrightarrow> mnts T w' = (mnts T w)(mount_point fs \<mapsto> bd) \<Longrightarrow> mounts_inv T w' (fs # H)"
    and "live_inv T w H \<Longrightarrow> mnts T w' = (mnts T w)(mount_point fs \<mapsto> bd) \<Longrightarrow> live_inv T w' (fs # H)"
proof -
  have a: "wrapper fs = a" and nm: "named (counter w) fs" and j: "journal_active fs \<longrightarrow> \<not> read_only fs"
    using fs by (simp_all add: new_mount_def named_def)
  have fresh: "a \<notin> wrapper ` set H" using inv(2) b(1) by (metis devices_inv_def domIff)
  have new: "device_name f \<noteq> device_name fs" "mount_point f \<noteq> mount_point fs" if "f \<in> set H" for f
    using inv(1) that nm by (auto simp: handles_inv_def named_def)
  show "handles_inv w' (fs # H)"
    using inv(1) new fresh nm j counter_step [OF c(1)]
    by (auto simp: handles_inv_def c(2) a) blast+
  have old: "boxes w' (wrapper f) = boxes w (wrapper f)" if "f \<in> set H" for f
    using fresh that by (auto simp: b(2))
  show "devices_inv T w' (fs # H)"
    unfolding devices_inv_def
  proof (intro conjI allI)
    show "dom (boxes w') = wrapper ` set (fs # H)"
      using inv(2) by (auto simp: devices_inv_def b(2) a)
  next
    fix n x
    have "regs T w n = Some x \<longleftrightarrow> (\<exists>f \<in> set H. device_name f = n \<and> boxes w (wrapper f) = Some x)"
      using inv(2) by (simp add: devices_inv_def)
    then show "regs T w' n = Some x \<longleftrightarrow>
        (\<exists>f \<in> set (fs # H). device_name f = n \<and> boxes w' (wrapper f) = Some x)"
      using new old by (auto simp: r b(2) a)
  qed (rule wf)
  show "mounts_inv T w' (fs # H)"
    if "mounts_inv T w H" "mnts T w' = (mnts T w)(mount_point fs \<mapsto> bd)"
    using that new old by (fastforce simp: mounts_inv_def b(2) a split: if_splits)
  show "live_inv T w' (fs # H)"
    if "live_inv T w H" "mnts T w' = (mnts T w)(mount_point fs \<mapsto> bd)"
    using that new old by (auto simp: live_inv_def b(2) a)
qed

lemma inv_removed:
  assumes inv: "handles_inv w H" "devices_inv T w H" and fs: "fs \<in> set H"
    and c: "counter w' = counter w" and wf: "process_wf w'"
    and r: "regs T w' = (regs T w)(device_name fs := None)"
    and b: "boxes w' = (boxes w)(wrapper fs := None)"
  shows "handles_inv w' (remove1 fs H)" and "devices_inv T w' (remove1 fs H)"
    and "mounts_inv T w H \<Longrightarrow> mnts T w' = (mnts T w)(mount_point fs := None) \<Longrightarrow>
      mounts_inv T w' (remove1 fs H)"
    and "live_inv T w H \<Longrightarrow> (\<And>mp. mp \<noteq> mount_point fs \<Longrightarrow> mnts T w' mp = mnts T w mp) \<Longrightarrow>
      live_inv T w' (remove1 fs H)"
proof -
  have d: "distinct H" using inv(1) by (auto simp: handles_inv_def distinct_map)
  then have H: "set (remove1 fs H) = set H - {fs}" by simp
  note nm = handles_names [OF inv(1) _ fs]
  show "handles_inv w' (remove1 fs H)"
    using inv(1) by (simp add: handles_inv_def c H distinct_map_remove1)
  have old: "boxes w' (wrapper f) = boxes w (wrapper f)" if "f \<in> set H" "f \<noteq> fs" for f
    using nm(2) [OF that(1)] that(2) by (simp add: b)
  show "devices_inv T w' (remove1 fs H)"
    unfolding devices_inv_def
  proof (intro conjI allI)
    show "dom (boxes w') = wrapper ` set (remove1 fs H)"
      using inv(2) nm(2) by (auto simp: devices_inv_def b H)
  next
    fix n x
    have "regs T w n = Some x \<longleftrightarrow> (\<exists>f \<in> set H. device_name f = n \<and> boxes w (wrapper f) = Some x)"
      using inv(2) by (simp add: devices_inv_def)
    then show "regs T w' n = Some x \<longleftrightarrow>
        (\<exists>f \<in> set (remove1 fs H). device_name f = n \<and> boxes w' (wrapper f) = Some x)"
      using nm(1) old by (auto simp: r H)
  qed (rule wf)
  show "mounts_inv T w' (remove1 fs H)"
    if "mounts_inv T w H" "mnts T w' = (mnts T w)(mount_point fs := None)"
    unfolding mounts_inv_def
  proof (intro allI impI)
    fix mp bd
    assume "mnts T w' mp = Some bd"
    with that(2) have mp: "mp \<noteq> mount_point fs" "mnts T w mp = Some bd" by (auto split: if_splits)
    with that(1) obtain f where f: "f \<in> set H" "mount_point f = mp" "boxes w (wrapper f) = Some bd"
      by (auto simp: mounts_inv_def)
    with mp have "f \<noteq> fs" by auto
    with f old show "\<exists>f \<in> set (remove1 fs H). mount_point f = mp \<and> boxes w' (wrapper f) = Some bd"
      by (auto simp: H)
  qed
  show "live_inv T w' (remove1 fs H)"
    if "live_inv T w H" "\<And>mp. mp \<noteq> mount_point fs \<Longrightarrow> mnts T w' mp = mnts T w mp"
    using that old nm(3) by (auto simp: live_inv_def H)
qed

section \<open>Preservation\<close>

fun sys_inv :: "'s tables \<Rightarrow> ('s, 'd) sys \<Rightarrow> bool" where
  "sys_inv T (H, F, D, w) \<longleftrightarrow> handles_inv w H \<and> devices_inv T w H \<and> live_inv T w H \<and> borrow_inv H F D \<and>
     names_inv T w"

lemma step_inv:
  assumes C: "lib_contract T L" and st: "sys_step p L (H, F, D, w) (H', F', D', w')"
    and inv: "sys_inv T (H, F, D, w)"
  shows "sys_inv T (H', F', D', w') \<and>
    (umount_reliable T L \<longrightarrow> mounts_inv T w H \<longrightarrow> mounts_inv T w' H')"
proof -
  have wf: "process_wf w" and hd: "handles_inv w H" "devices_inv T w H"
    and lv: "live_inv T w H" and br: "borrow_inv H F D" and nm: "names_inv T w"
    using inv by (simp_all add: devices_inv_def)
  note Q = contractD(5) [OF C]
  have same: ?thesis if "same_view T w w'" "H' = H" "borrow_inv H F' D'"
  proof -
    have "counter w' = counter w" "mnts T w' = mnts T w" using that(1) by (simp_all add: same_view_def)
    then have "names_inv T w'" using nm by (simp add: names_inv_def)
    with inv_same_view [OF that(1)] hd lv that(2,3) show ?thesis by simp
  qed
  have new_ok: "\<exists>a h. BlockDeviceWrapper_new p V d (heap (cst w)) = Done (a, h)"
    if "mount p L V d ro w = Done x" for V d ro x
    using that mount_panics [of p V d w L ro] by (cases "BlockDeviceWrapper_new p V d (heap (cst w))") auto
  have removed: ?thesis if "H' = remove1 fs H" "F' = F" "D' = D" "fs \<in> set H" "unborrowed fs F D"
    "counter w' = counter w" "process_wf w'" "regs T w' = (regs T w)(device_name fs := None)"
    "boxes w' = (boxes w)(wrapper fs := None)"
    "mnts T w' = (mnts T w)(mount_point fs := None) \<or> \<not> umount_reliable T L \<and> mnts T w' = mnts T w" for fs
  proof -
    have "mnts T w' mp = mnts T w mp" if "mp \<noteq> mount_point fs" for mp
      using that \<open>mnts T w' = _ \<or> _\<close> by auto
    moreover have "names_inv T w'"
      by (rule names_inv_mono [OF nm]) (use that(6,10) in \<open>auto split: if_splits\<close>)
    ultimately show ?thesis
      using inv_removed [OF hd that(4,6-9)] lv borrow_inv_removed [OF br that(5)] that(1-3,10)
      by auto
  qed
  from st show ?thesis
  proof (cases rule: sys_stepE [consumes 1, case_names mount_ok mount_err unmount scope_end operation
      query syncing formatting open_ok open_err file_method file_close opendir_ok opendir_err
      dir_method dir_close])
    case (mount_ok V d ro fs)
    then obtain a h where "BlockDeviceWrapper_new p V d (heap (cst w)) = Done (a, h)"
      using new_ok by blast
    from mount_view [OF C wf this, of ro] mount_ok obtain bd journal where v:
      "counter w' = counter w + 1" "process_wf w'" "fs = new_mount (counter w) a ro journal"
      "journal \<longrightarrow> \<not> ro" "regs T w' = (regs T w)(device_name fs \<mapsto> bd)"
      "mnts T w' = (mnts T w)(mount_point fs \<mapsto> bd)" "boxes w a = None" "boxes w' = (boxes w)(a \<mapsto> bd)"
      by auto
    have "borrow_inv (fs # H) F D" using br by (auto simp: borrow_inv_def)
    moreover have c: "counter w \<noteq> - 1" using mount_ok by blast
    moreover have "names_inv T w'"
      by (rule names_inv_mono [OF nm])
        (use v(1,3,6) counter_step [OF c] in \<open>auto simp: new_mount_def split: if_splits\<close>)
    ultimately show ?thesis using inv_mounted [OF hd _ v(1-5,7,8)] v(6) lv mount_ok by simp
  next
    case (mount_err V d ro e)
    then obtain a h where "BlockDeviceWrapper_new p V d (heap (cst w)) = Done (a, h)"
      using new_ok by blast
    from mount_view [OF C wf this, of ro] mount_err have v:
      "counter w' = counter w + 1" "process_wf w'" "regs T w' = regs T w" "mnts T w' = mnts T w"
      "boxes w' = boxes w" by auto
    have c: "counter w \<noteq> - 1" using mount_err by blast
    then have "handles_inv w' H"
      using hd(1) counter_step [of "counter w"] unfolding handles_inv_def v(1) by blast
    moreover have "names_inv T w'"
      by (rule names_inv_mono [OF nm]) (use v(1,4) counter_step [OF c] in auto)
    ultimately show ?thesis using v hd(2) lv br mount_err
      by (simp add: devices_inv_def mounts_inv_def live_inv_def)
  next
    case (unmount fs r)
    with umount_sys_view [OF C wf, of fs] show ?thesis by (intro removed) auto
  next
    case (scope_end fs)
    with drop_sys_view [OF C wf, of fs] show ?thesis by (intro removed) auto
  next
    case (operation fs c r)
    with calmD [OF run_op_calm [OF Q]] br show ?thesis by (intro same) blast+
  next
    case (query fs q)
    with calmD [OF run_query_calm [OF Q]] br show ?thesis by (intro same) blast+
  next
    case (syncing fs r)
    with calmD [OF sync_calm [OF Q]] br show ?thesis by (intro same) blast+
  next
    case (formatting V d opts r)
    with mkfs_view [OF C wf] br show ?thesis by (intro same) blast+
  next
    case (open_ok fs path flags f)
    have "borrow_inv H F' D'"
      using br open_ok by (auto simp: borrow_inv_def dest: open_file_fs)
    with open_ok calmD [OF open_calm(1) [OF Q]] show ?thesis by (intro same) blast+
  next
    case (open_err fs path flags e)
    with calmD [OF open_calm(1) [OF Q]] br show ?thesis by (intro same) blast+
  next
    case (file_method i fc f)
    then have k: "kept T ffs (F ! i, w) (f, w')" using run_file_kept [OF Q] by blast
    have "borrow_inv H F' D'"
      using br k map_update_same [of i F ffs f] file_method
      by (simp add: borrow_inv_def kept_def flip: set_map)
    with file_method k show ?thesis by (intro same) (simp_all add: kept_def)
  next
    case (file_close i)
    then have "borrow_inv H F' D'" using br set_without [of i F] unfolding borrow_inv_def by blast
    with file_close calmD [OF File_drop_calm [OF Q]] show ?thesis by (intro same) blast+
  next
    case (opendir_ok fs path d)
    have "borrow_inv H F' D'"
      using br opendir_ok by (auto simp: borrow_inv_def dest: open_dir_fs)
    with opendir_ok calmD [OF open_calm(2) [OF Q]] show ?thesis by (intro same) blast+
  next
    case (opendir_err fs path e)
    with calmD [OF open_calm(2) [OF Q]] br show ?thesis by (intro same) blast+
  next
    case (dir_method i dc d)
    then have k: "kept T dfs (D ! i, w) (d, w')" using run_dir_kept [OF Q] by blast
    have "borrow_inv H F' D'"
      using br k map_update_same [of i D dfs d] dir_method
      by (simp add: borrow_inv_def kept_def flip: set_map)
    with dir_method k show ?thesis by (intro same) (simp_all add: kept_def)
  next
    case (dir_close i)
    then have "borrow_inv H F' D'" using br set_without [of i D] unfolding borrow_inv_def by blast
    with dir_close calmD [OF open_calm(3) [OF Q]] show ?thesis by (intro same) blast+
  qed
qed

lemma pristine_inv:
  assumes "pristine T w"
  shows "sys_inv T ([], [], [], w)" and "mounts_inv T w []"
proof -
  have "boxes w = Map.empty"
    using assms by (simp add: pristine_def boxes_def as_bdev_ptr_def empty_heap_def fun_eq_iff)
  moreover have "process_wf w" using assms heap_wf_empty by (simp add: pristine_def process_wf_def)
  ultimately show "sys_inv T ([], [], [], w)" "mounts_inv T w []"
    using assms
    by (simp_all add: pristine_def handles_inv_def devices_inv_def mounts_inv_def live_inv_def borrow_inv_def names_inv_def)
qed

lemma reach_inv:
  assumes "sys_reach p L w0 s" and "lib_contract T L" and "pristine T w0"
  shows "sys_inv T s \<and> (umount_reliable T L \<longrightarrow> mounts_inv T (snd (snd (snd s))) (fst s))"
  using assms(1)
proof induction
  case start
  then show ?case using pristine_inv [OF assms(3)] by simp
next
  case (step s s')
  obtain H F D w H' F' D' w' where "s = (H, F, D, w)" "s' = (H', F', D', w')" by (metis surj_pair)
  with step step_inv [OF assms(2), of p H F D w H' F' D' w'] show ?case by auto
qed

end
