(* ===== verification/DemoLib.thy ===== *)
theory DemoLib
  imports System
begin

text \<open>
  A concrete library: it shows that the contract of the C library can be met, and the witnesses
  of the properties run the model on it.
\<close>

section \<open>A library that satisfies the contract\<close>

text \<open>
  The two tables and nothing else; \<open>ok\<close> tells whether \<open>ext4_umount\<close> works.
\<close>

record demo =
  dm_reg :: "string \<rightharpoonup> addr"
  dm_mnt :: "string \<rightharpoonup> addr"

definition demo_tables :: "demo tables" where
  "demo_tables = \<lparr>registered = dm_reg, mounted = dm_mnt\<rparr>"

definition demo_set :: "(demo \<Rightarrow> demo) \<Rightarrow> (demo, 'd) cworld \<Rightarrow> (demo, 'd) cworld" where
  "demo_set g w = w\<lparr>lib := g (lib w)\<rparr>"

definition demo_mount_fns :: "bool \<Rightarrow> (demo, 'd) cworld mount_lib" where
  "demo_mount_fns ok = \<lparr>
     l_device_register = (\<lambda>bd n w. if dm_reg (lib w) n = None
       then (0, demo_set (\<lambda>s. s\<lparr>dm_reg := (dm_reg s)(n \<mapsto> bd)\<rparr>) w) else (EEXIST, w)),
     l_device_unregister = (\<lambda>n w. (0, demo_set (\<lambda>s. s\<lparr>dm_reg := (dm_reg s)(n := None)\<rparr>) w)),
     l_mount = (\<lambda>dev mp ro w. if dm_reg (lib w) dev = None then (ENODEV, w)
       else (0, demo_set (\<lambda>s. s\<lparr>dm_mnt := (dm_mnt s)(mp := dm_reg s dev)\<rparr>) w)),
     l_umount = (\<lambda>mp w. if ok then (0, demo_set (\<lambda>s. s\<lparr>dm_mnt := (dm_mnt s)(mp := None)\<rparr>) w)
       else (EIO, w)),
     l_mount_point_stats = (\<lambda>mp st w. ((0, st), w)), l_journal_start = (\<lambda>mp w. (0, w)),
     l_journal_stop = (\<lambda>mp w. (0, w)), l_recover = (\<lambda>mp w. (0, w)),
     l_cache_flush = (\<lambda>mp w. (0, w))\<rparr>"

definition demo_file_fns :: "'w file_lib" where
  "demo_file_fns = \<lparr>l_fopen2 = (\<lambda>f path flags w. ((0, f), w)), l_fclose = (\<lambda>f w. ((0, f), w)),
     l_ftruncate = (\<lambda>f n w. ((0, f), w)), l_fread = (\<lambda>f buf n r w. ((0, f, buf, 0), w)),
     l_fwrite = (\<lambda>f buf n r w. ((0, f, n), w)), l_fseek = (\<lambda>f off org w. ((0, f), w)),
     l_ftell = (\<lambda>f w. (0, w)), l_fsize = (\<lambda>f w. (0, w))\<rparr>"

definition demo_path_fns :: "'w path_lib" where
  "demo_path_fns = \<lparr>l_fremove = (\<lambda>x w. (0, w)), l_flink = (\<lambda>x y w. (0, w)),
     l_frename = (\<lambda>x y w. (0, w)), l_fsymlink = (\<lambda>x y w. (0, w)),
     l_readlink = (\<lambda>x buf n r w. ((0, buf, 0), w)), l_dir_mk = (\<lambda>x w. (0, w)),
     l_dir_rm = (\<lambda>x w. (ENOENT, w)), l_mode_get = (\<lambda>x m w. ((0, 0x81A4), w)),
     l_mode_set = (\<lambda>x m w. (EACCES, w)), l_owner_get = (\<lambda>x u g w. ((0, u, g), w)),
     l_owner_set = (\<lambda>x u g w. (0, w)), l_atime_get = (\<lambda>x t w. ((0, 1), w)),
     l_mtime_get = (\<lambda>x t w. ((0, 2), w)), l_ctime_get = (\<lambda>x t w. ((0, 3), w)),
     l_inode_exist = (\<lambda>x ty w. (0, w))\<rparr>"

definition demo_dir_fns :: "'w dir_lib" where
  "demo_dir_fns = \<lparr>l_dir_open = (\<lambda>d path w. ((0, d), w)), l_dir_close = (\<lambda>d w. ((0, d), w)),
     l_dir_entry_next = (\<lambda>d w. ((None, d), w)), l_dir_entry_rewind = (\<lambda>d w. (d, w))\<rparr>"

definition demo_mkfs_fns :: "'w mkfs_lib" where
  "demo_mkfs_fns = \<lparr>l_sizeof_ext4_fs = (\<lambda>w. (8, w)), l_mkfs = (\<lambda>b bd i ty w. ((0, i), w))\<rparr>"

definition demo_lib :: "bool \<Rightarrow> (demo, 'd) cworld lwext4" where
  "demo_lib ok = \<lparr>mount_fns = demo_mount_fns ok, file_fns = demo_file_fns, path_fns = demo_path_fns,
     dir_fns = demo_dir_fns, mkfs_fns = demo_mkfs_fns\<rparr>"

lemmas demo_defs = demo_lib_def demo_mount_fns_def demo_file_fns_def demo_path_fns_def
  demo_dir_fns_def demo_mkfs_fns_def demo_set_def demo_tables_def

lemma demo_contract: "lib_contract demo_tables (demo_lib ok)"
  by (auto simp: lib_contract_def register_contract_def unregister_contract_def
      mount_contract_def umount_contract_def quiet_defs quiet_call_def demo_defs
      EEXIST_def ENODEV_def EIO_def)

lemma demo_reliable: "umount_reliable demo_tables (demo_lib True)"
  by (simp add: umount_reliable_def demo_defs)

definition demo_device :: MemoryBlockDevice where
  "demo_device = \<lparr>data = [1, 2, 3, 4], mem_block_size = 2, mem_block_count = 2\<rparr>"

definition demo_process :: "(demo, MemoryBlockDevice) process" where
  "demo_process = \<lparr>counter = 0, cst = \<lparr>lib = \<lparr>dm_reg = Map.empty, dm_mnt = Map.empty\<rparr>,
     heap = empty_heap\<rparr>, calls = []\<rparr>"

lemma demo_pristine: "pristine demo_tables demo_process"
  by (simp add: pristine_def demo_process_def regs_def mnts_def demo_tables_def)

lemma demo_new:
  "\<exists>a h. BlockDeviceWrapper_new Debug (mem_vt Debug) demo_device (heap (cst demo_process)) = Done (a, h)"
  by (simp add: wrapper_new_eq mul_u64_def Let_def u64_of_u32_def demo_device_def)

lemma demo_mount:
  "\<exists>fs w. mount Debug (demo_lib ok) (mem_vt Debug) demo_device False demo_process = Done (Inr fs, w)"
proof -
  obtain a h where new: "BlockDeviceWrapper_new Debug (mem_vt Debug) demo_device
      (heap (cst demo_process)) = Done (a, h)" using demo_new by blast
  obtain bd where bd: "as_bdev_ptr h a = Some bd" using new_part_size [OF new] by auto
  show ?thesis
    using new bd
    by (simp add: mount_def fetch_add_counter_def dev.unwrap_ok mp.unwrap_ok alloc_wrapper_def bdev_ptr_def
      ffi_defs rust_simps demo_defs) (simp add: demo_process_def)
qed

end
