(* ===== verification/DirProps.thy ===== *)
theory DirProps
  imports DirOps DemoLib
begin

text \<open>
  Iterating over a directory, over a C library that delivers its entries one by one as documented:
  \<open>ext4_dir_entry_next\<close> returns the next entry, or null at the end and from then on, and
  \<open>ext4_dir_entry_rewind\<close> goes back to the first one.
\<close>

section \<open>The contract\<close>

text \<open>
  \<open>upcoming\<close> are the entries a C handle still delivers, \<open>everything\<close> all entries of its directory.
\<close>

definition dir_contract ::
  "(ext4_dir \<Rightarrow> 'w \<Rightarrow> ext4_direntry list) \<Rightarrow> (ext4_dir \<Rightarrow> 'w \<Rightarrow> ext4_direntry list) \<Rightarrow>
   'w lwext4 \<Rightarrow> bool" where
  "dir_contract upcoming everything L \<longleftrightarrow>
     (\<forall>d w. let (e, d') = fst (l_dir_entry_next (dir_fns L) d w);
                w' = snd (l_dir_entry_next (dir_fns L) d w) in
        everything d' w' = everything d w \<and>
        (case upcoming d w of
           [] \<Rightarrow> e = None \<and> upcoming d' w' = []
         | x # xs \<Rightarrow> e = Some x \<and> upcoming d' w' = xs)) \<and>
     (\<forall>d w. let (d', w') = l_dir_entry_rewind (dir_fns L) d w in
        everything d' w' = everything d w \<and> upcoming d' w' = everything d w)"

text \<open>The C structure's name array.\<close>

definition name_array :: "ext4_direntry \<Rightarrow> bool" where
  "name_array e \<longleftrightarrow> length (de_name e) = 255"

definition entry_view :: "(ext4_dir \<Rightarrow> 'w \<Rightarrow> ext4_direntry list) \<Rightarrow> 'w dir_state \<Rightarrow> ext4_direntry list" where
  "entry_view f st = f (dinner (fst st)) (cst (snd st))"

text \<open>Calling the iterator \<open>n\<close> times.\<close>

fun dir_take :: "'w lwext4 \<Rightarrow> nat \<Rightarrow> ('w dir_state, (error + DirEntry) option list) comp" where
  "dir_take L 0 = ret_st []"
| "dir_take L (Suc n) =
     seq_st (Dir_next L) (\<lambda>x. seq_st (dir_take L n) (\<lambda>xs. ret_st (x # xs)))"

text \<open>The Rust entry of a C entry.\<close>

definition decoded :: "ext4_direntry \<Rightarrow> DirEntry" where
  "decoded e = the_done (entry_of_raw e)"

lemma entry_of_raw_decoded: "name_array e \<Longrightarrow> entry_of_raw e = Done (decoded e)"
  using unat_u8_lt [of "de_name_length e"]
  by (simp add: decoded_def entry_of_raw_def name_array_def Let_def)

lemma Dir_next_spec:
  assumes C: "dir_contract upcoming everything L"
    and arr: "\<forall>e \<in> set (entry_view upcoming st). name_array e"
  shows "\<exists>st'. Dir_next L st = Done
      (case entry_view upcoming st of [] \<Rightarrow> None | e # es \<Rightarrow> Some (Inr (decoded e)), st') \<and>
    entry_view everything st' = entry_view everything st \<and>
    entry_view upcoming st' = tl (entry_view upcoming st)"
proof -
  obtain self w where st: "st = (self, w)" by (cases st)
  obtain e d s where c: "l_dir_entry_next (dir_fns L) (dinner self) (cst w) = ((e, d), s)"
    by (metis surj_pair)
  note k = C [unfolded dir_contract_def, THEN conjunct1, rule_format, of "dinner self" "cst w",
      unfolded c, simplified]
  show ?thesis
  proof (cases "upcoming (dinner self) (cst w)")
    case Nil
    with k c show ?thesis
      by (simp add: Dir_next_def Dir_next_entry_def st ffi_defs rust_simps entry_view_def)
  next
    case (Cons x xs)
    with k c arr show ?thesis
      by (simp add: Dir_next_def Dir_next_entry_def st ffi_defs rust_simps entry_view_def
          entry_of_raw_decoded)
  qed
qed

lemma dir_take_spec:
  assumes C: "dir_contract upcoming everything L"
    and arr: "\<forall>e \<in> set (entry_view upcoming st). name_array e"
  shows "\<exists>st'. dir_take L n st = Done
      (map (\<lambda>e. Some (Inr (decoded e))) (take n (entry_view upcoming st)) @
       replicate (n - length (entry_view upcoming st)) None, st') \<and>
    entry_view everything st' = entry_view everything st \<and>
    entry_view upcoming st' = drop n (entry_view upcoming st)"
  using arr
proof (induction n arbitrary: st)
  case (Suc n)
  obtain st1 where 1: "Dir_next L st = Done
      (case entry_view upcoming st of [] \<Rightarrow> None | e # es \<Rightarrow> Some (Inr (decoded e)), st1)"
    "entry_view everything st1 = entry_view everything st"
    "entry_view upcoming st1 = tl (entry_view upcoming st)"
    using Dir_next_spec [OF C Suc.prems] by blast
  have "\<forall>e \<in> set (entry_view upcoming st1). name_array e"
    using Suc.prems 1(3) by (cases "entry_view upcoming st") auto
  from Suc.IH [OF this] 1 show ?case
    by (cases "entry_view upcoming st") (auto simp: seq_st_def)
qed simp

lemma Dir_rewind_spec:
  assumes "dir_contract upcoming everything L"
  shows "\<exists>st'. Dir_rewind L st = Done ((), st') \<and>
    entry_view everything st' = entry_view everything st \<and>
    entry_view upcoming st' = entry_view everything st"
proof -
  obtain self w where st: "st = (self, w)" by (cases st)
  obtain d s where c: "l_dir_entry_rewind (dir_fns L) (dinner self) (cst w) = (d, s)" by fastforce
  with assms [unfolded dir_contract_def, THEN conjunct2, rule_format, of "dinner self" "cst w"]
  show ?thesis by (simp add: Dir_rewind_def st ffi_defs rust_simps entry_view_def)
qed

section \<open>Properties\<close>

text \<open>
  C22: iterating over a directory lists it: calling the iterator \<open>n\<close> times never panics and yields
  the decoded entries of lwext4 in their order, each exactly once, and nothing but \<open>None\<close> after the
  last one; rewinding at any point makes the next \<open>m\<close> calls list the directory from its start.
\<close>

theorem directory_listing:
  assumes "dir_contract upcoming everything L"
    and "\<forall>e \<in> set (entry_view everything st) \<union> set (entry_view upcoming st). name_array e"
  shows "\<exists>st1 st2 st3. dir_take L n st = Done
      (map (\<lambda>e. Some (Inr (decoded e))) (take n (entry_view upcoming st)) @
       replicate (n - length (entry_view upcoming st)) None, st1) \<and>
    Dir_rewind L st1 = Done ((), st2) \<and>
    dir_take L m st2 = Done
      (map (\<lambda>e. Some (Inr (decoded e))) (take m (entry_view everything st)) @
       replicate (m - length (entry_view everything st)) None, st3)"
proof -
  obtain st1 where 1: "dir_take L n st = Done
      (map (\<lambda>e. Some (Inr (decoded e))) (take n (entry_view upcoming st)) @
       replicate (n - length (entry_view upcoming st)) None, st1)"
    "entry_view everything st1 = entry_view everything st"
    using dir_take_spec [OF assms(1), of st n] assms(2) by auto
  obtain st2 where 2: "Dir_rewind L st1 = Done ((), st2)"
    "entry_view upcoming st2 = entry_view everything st1"
    using Dir_rewind_spec [OF assms(1)] by blast
  moreover obtain st3 where "dir_take L m st2 = Done
      (map (\<lambda>e. Some (Inr (decoded e))) (take m (entry_view everything st)) @
       replicate (m - length (entry_view everything st)) None, st3)"
    using dir_take_spec [OF assms(1), of st2 m] assms(2) 1(2) 2(2) by auto
  ultimately show ?thesis using 1(1) by blast
qed

text \<open>A library with one directory of two entries, whose position is the handle's offset.\<close>

definition two_entries :: "ext4_direntry list" where
  "two_entries = [ext4_direntry_default\<lparr>de_name_length := 1, de_inode := 11\<rparr>,
     ext4_direntry_default\<lparr>de_name_length := 2, de_inode := 12\<rparr>]"

definition listing_lib :: "(demo, MemoryBlockDevice) cworld lwext4" where
  "listing_lib = (demo_lib True)\<lparr>dir_fns := demo_dir_fns\<lparr>
     l_dir_entry_next := (\<lambda>d w. case drop (unat (next_off d)) two_entries of
        [] \<Rightarrow> ((None, d), w) | e # es \<Rightarrow> ((Some e, d\<lparr>next_off := next_off d + 1\<rparr>), w)),
     l_dir_entry_rewind := (\<lambda>d w. (d\<lparr>next_off := 0\<rparr>, w))\<rparr>\<rparr>"

lemma listing_contract:
  "dir_contract (\<lambda>d w. drop (unat (next_off d)) two_entries) (\<lambda>d w. two_entries) listing_lib"
proof -
  have step: "drop (unat (next_off d + 1)) two_entries = es"
    if "drop (unat (next_off d)) two_entries = e # es" for d e es
  proof -
    have "unat (next_off d) < length two_entries"
      using that by (metis drop_all list.distinct(1) not_less)
    then have "unat (next_off d) + unat (1 :: u64) < 2 ^ 64" by (simp add: two_entries_def)
    then have "unat (next_off d + 1) = Suc (unat (next_off d))" by (simp add: unat_add_u64)
    with that show ?thesis by (metis drop_Suc list.sel(3) tl_drop)
  qed
  then show ?thesis
    by (auto simp: dir_contract_def listing_lib_def demo_defs split: list.splits)
qed

theorem directory_listing_witness:
  "\<exists>st1. dir_take listing_lib 3 (\<lparr>dfs = new_mount 0 4 False True, dinner = ext4_dir_default\<rparr>, demo_process) =
     Done ([Some (Inr (decoded (two_entries ! 0))), Some (Inr (decoded (two_entries ! 1))), None], st1)"
proof -
  let ?st = "(\<lparr>dfs = new_mount 0 4 False True, dinner = ext4_dir_default\<rparr>, demo_process)"
  have v: "entry_view (\<lambda>d w. drop (unat (next_off d)) two_entries) ?st = two_entries"
    "entry_view (\<lambda>d w. two_entries) ?st = two_entries"
    by (simp_all add: entry_view_def ext4_dir_default_def)
  have "\<forall>e \<in> set two_entries. name_array e"
    by (simp add: two_entries_def name_array_def ext4_direntry_default_def)
  with directory_listing [OF listing_contract, of ?st 3 0] show ?thesis
    unfolding v by (auto simp: two_entries_def eval_nat_numeral)
qed

end
