(* ===== verification/FsOpsProps.thy ===== *)
theory FsOpsProps
  imports DemoLib
begin

text \<open>
  What the operations of a mounted file system promise: which calls they make, with which paths,
  and what they make of the answers. The operations are compared with a table that says, for each,
  the one call of lwext4 it stands for.
\<close>

section \<open>The table of operations\<close>

fun op_paths :: "fs_op \<Rightarrow> string list" where
  "op_paths (OpMkdir path m) = [path]"
| "op_paths (OpRemove path) = [path]"
| "op_paths (OpRmdir path) = [path]"
| "op_paths (OpRename src dst) = [src, dst]"
| "op_paths (OpLink src dst) = [src, dst]"
| "op_paths (OpSymlink target path) = [target, path]"
| "op_paths (OpSetPermissions path m) = [path]"
| "op_paths (OpSetOwner path u g) = [path]"

text \<open>The path an error names.\<close>

fun op_subject :: "fs_op \<Rightarrow> string" where
  "op_subject (OpSymlink target path) = path"
| "op_subject c = hd (op_paths c)"

definition full :: "Ext4Fs \<Rightarrow> string \<Rightarrow> string" where
  "full fs path = mount_point fs @ strip_slash path"

text \<open>The target of a symbolic link is passed as it is.\<close>

fun op_call :: "Ext4Fs \<Rightarrow> fs_op \<Rightarrow> c_call" where
  "op_call fs (OpMkdir path m) = C_dir_mk (full fs path)"
| "op_call fs (OpRemove path) = C_fremove (full fs path)"
| "op_call fs (OpRmdir path) = C_dir_rm (full fs path)"
| "op_call fs (OpRename src dst) = C_frename (full fs src) (full fs dst)"
| "op_call fs (OpLink src dst) = C_flink (full fs src) (full fs dst)"
| "op_call fs (OpSymlink target path) = C_fsymlink target (full fs path)"
| "op_call fs (OpSetPermissions path m) = C_mode_set (full fs path) m"
| "op_call fs (OpSetOwner path u g) = C_owner_set (full fs path) u g"

fun op_fn :: "'w lwext4 \<Rightarrow> Ext4Fs \<Rightarrow> fs_op \<Rightarrow> ('w, i32) cfun" where
  "op_fn L fs (OpMkdir path m) = l_dir_mk (path_fns L) (full fs path)"
| "op_fn L fs (OpRemove path) = l_fremove (path_fns L) (full fs path)"
| "op_fn L fs (OpRmdir path) = l_dir_rm (path_fns L) (full fs path)"
| "op_fn L fs (OpRename src dst) = l_frename (path_fns L) (full fs src) (full fs dst)"
| "op_fn L fs (OpLink src dst) = l_flink (path_fns L) (full fs src) (full fs dst)"
| "op_fn L fs (OpSymlink target path) = l_fsymlink (path_fns L) target (full fs path)"
| "op_fn L fs (OpSetPermissions path m) = l_mode_set (path_fns L) (full fs path) m"
| "op_fn L fs (OpSetOwner path u g) = l_owner_set (path_fns L) (full fs path) u g"

definition op_ok :: "fs_op \<Rightarrow> bool" where
  "op_ok c \<longleftrightarrow> (\<forall>path \<in> set (op_paths c). NUL \<notin> set path)"

definition decode :: "string \<Rightarrow> i32 \<Rightarrow> error + unit" where
  "decode path ret = (if ret = 0 then Inr () else Inl (set_path path (err_of ret)))"

fun sets_mode :: "fs_op \<Rightarrow> bool" where
  "sets_mode (OpMkdir path m) \<longleftrightarrow> m \<noteq> 0"
| "sets_mode _ \<longleftrightarrow> False"

text \<open>Both conversions to a C string, as equations.\<close>

definition nul_err :: "string \<Rightarrow> nul_error" where
  "nul_err s = NulErr (the (position is_nul s)) s"

lemma cstring_new_eq: "cstring_new s = (if NUL \<in> set s then Inl (nul_err s) else Inr s)"
  using position_nul [of s]
  by (cases "position is_nul s") (auto simp: cstring_new_def nul_err_def)

lemma make_path_full:
  assumes "named did fs"
  shows "make_path fs path =
    (if NUL \<in> set path then Inl (NulError (nul_err (full fs path))) else Inr (full fs path))"
  using assms mp_name_no_NUL [of did] set_strip_slash [of path]
  by (simp add: make_path_def named_def mp_name_is_str cstring_new_eq full_def)

lemmas op_simps = op_defs is_read_only_def op_ok_def cstring_new_eq map_err_def ffi_defs rust_simps
  decode_def try_st_def

lemma codes_not_0 [simp]: "ENOENT \<noteq> 0" "EACCES \<noteq> 0"
  by (simp_all add: ENOENT_def EACCES_def)

text \<open>A writable handle for the witnesses.\<close>

definition demo_fs :: Ext4Fs where
  "demo_fs = new_mount 0 4 False True"

lemma demo_fs_facts [simp]:
  "named 0 demo_fs" "\<not> is_read_only demo_fs" "full demo_fs (CHR ''/'' # s) = ''/mp0/'' @ s"
  "mount_point demo_fs = ''/mp0/''"
proof -
  have "mp_name 0 = ''/mp0/''" by code_simp
  then show "named 0 demo_fs" "\<not> is_read_only demo_fs"
    "full demo_fs (CHR ''/'' # s) = ''/mp0/'' @ s" "mount_point demo_fs = ''/mp0/''"
    by (simp_all add: demo_fs_def new_mount_def named_def is_read_only_def full_def)
qed

text \<open>The branches of the changing operations, for the proofs below and the components above.\<close>

lemma run_op_read_only: "is_read_only fs \<Longrightarrow> run_op L fs c w = Done (Inl ReadOnly, w)"
  by (cases c) (simp_all add: op_defs is_read_only_def)

lemma run_op_NUL:
  assumes "named did fs" and "\<not> is_read_only fs" and "\<not> op_ok c"
  shows "\<exists>e. run_op L fs c w = Done (Inl (NulError e), w)"
  using assms by (cases c) (auto simp: op_simps make_path_full)

lemma run_op_call:
  assumes "named did fs" and "\<not> is_read_only fs" and "op_ok c" and "\<not> sets_mode c"
  shows "run_op L fs c w = Done (decode (op_subject c) (fst (op_fn L fs c (cst w))),
    w\<lparr>cst := snd (op_fn L fs c (cst w)), calls := calls w @ [op_call fs c]\<rparr>)"
  using assms by (cases c) (auto simp: op_simps make_path_full)

lemma mkdir_call:
  assumes "named did fs" and "\<not> is_read_only fs" and "NUL \<notin> set path" and "m \<noteq> 0"
    and "l_dir_mk (path_fns L) (full fs path) (cst w) = (r1, s1)"
    and "l_mode_set (path_fns L) (full fs path) m s1 = (r2, s2)"
  shows "mkdir L fs path m w =
    (if r1 \<noteq> 0 then Done (decode path r1,
         w\<lparr>cst := s1, calls := calls w @ [C_dir_mk (full fs path)]\<rparr>)
     else Done (decode path r2,
         w\<lparr>cst := s2, calls := calls w @ [C_dir_mk (full fs path), C_mode_set (full fs path) m]\<rparr>))"
  using assms by (auto simp: op_simps make_path_full)

section \<open>Changes\<close>

text \<open>
  C25: a file system mounted read-only is never changed through its handle: any sequence of
  directory creations, removals, renames, links, symbolic links and changes of mode or owner is
  answered with \<open>ReadOnly\<close> for each, makes no call of lwext4 at all, and leaves the process as
  it was.
\<close>

theorem read_only_makes_no_call:
  assumes "is_read_only fs"
  shows "run_ops L fs cs w = Done (replicate (length cs) (Inl ReadOnly), w)"
proof (induction cs)
  case (Cons c cs)
  with run_op_read_only [OF assms, of L c w] show ?case by (simp add: rust_simps)
qed simp

theorem read_only_makes_no_call_witness:
  "run_ops (demo_lib True) (new_mount 0 4 True False) [OpRemove ''a'', OpMkdir ''b'' 7] demo_process =
     Done ([Inl ReadOnly, Inl ReadOnly], demo_process)"
  using read_only_makes_no_call [of "new_mount 0 4 True False" "demo_lib True"
      "[OpRemove ''a'', OpMkdir ''b'' 7]" demo_process]
  by (simp add: is_read_only_def new_mount_def)

text \<open>
  C26: on a writable file system every operation is exactly its call: with paths free of NUL, a
  removal, rename, link, symbolic link, change of mode or owner, or creation of a directory
  without a mode makes the one call of the table, on the full paths (a link's target unchanged),
  succeeds exactly when lwext4 returns 0, and otherwise returns the decoded error, naming the path
  the caller gave.
\<close>

theorem operations_are_calls:
  assumes "named did fs" and "\<not> is_read_only fs" and "op_ok c" and "\<not> sets_mode c"
  shows "run_op L fs c w = Done (decode (op_subject c) (fst (op_fn L fs c (cst w))),
    w\<lparr>cst := snd (op_fn L fs c (cst w)), calls := calls w @ [op_call fs c]\<rparr>)"
  by (rule run_op_call [OF assms])

theorem operations_are_calls_witness:
  "run_op (demo_lib True) demo_fs (OpRmdir ''/a/b'') demo_process =
     Done (Inl (NotFound ''/a/b''), demo_process\<lparr>calls := [C_dir_rm ''/mp0/a/b'']\<rparr>)"
  using operations_are_calls [of 0 demo_fs "OpRmdir ''/a/b''" "demo_lib True" demo_process]
  by (simp add: op_ok_def demo_defs decode_def) (simp add: demo_process_def)

text \<open>
  Nothing is done for a path C cannot represent: if one of the paths (or a link's target) has
  an interior NUL, the operation on a writable file system returns a \<open>NulError\<close> without
  any call of lwext4, a two-path operation included when only the second path is bad.
\<close>

theorem NUL_paths_make_no_call:
  assumes "named did fs" and "\<not> is_read_only fs" and "\<not> op_ok c"
  shows "\<exists>e. run_op L fs c w = Done (Inl (NulError e), w)"
  by (rule run_op_NUL [OF assms])

theorem NUL_paths_make_no_call_witness:
  "\<exists>e. run_op (demo_lib True) demo_fs (OpRename ''a'' [CHR ''b'', NUL]) demo_process =
     Done (Inl (NulError e), demo_process)"
  by (rule NUL_paths_make_no_call [of 0]) (simp_all add: op_ok_def)

text \<open>
  Creating a directory with a mode is two steps, of which the first can stand alone: \<open>mkdir\<close>
  with a nonzero mode creates the directory and then sets its mode; if creating fails nothing else
  is called; if setting the mode fails \<open>mkdir\<close> reports that error although the directory exists.
\<close>

theorem mkdir_two_steps:
  assumes "named did fs" and "\<not> is_read_only fs" and "NUL \<notin> set path" and "m \<noteq> 0"
    and "l_dir_mk (path_fns L) (full fs path) (cst w) = (r1, s1)"
    and "l_mode_set (path_fns L) (full fs path) m s1 = (r2, s2)"
  shows "mkdir L fs path m w =
    (if r1 \<noteq> 0 then Done (decode path r1,
         w\<lparr>cst := s1, calls := calls w @ [C_dir_mk (full fs path)]\<rparr>)
     else Done (decode path r2,
         w\<lparr>cst := s2, calls := calls w @ [C_dir_mk (full fs path), C_mode_set (full fs path) m]\<rparr>))"
  by (rule mkdir_call [OF assms])

theorem mkdir_two_steps_witness:
  "mkdir (demo_lib True) demo_fs ''/d'' 0x1ED demo_process =
     Done (Inl PermissionDenied,
       demo_process\<lparr>calls := [C_dir_mk ''/mp0/d'', C_mode_set ''/mp0/d'' 0x1ED]\<rparr>)"
  using mkdir_two_steps [of 0 demo_fs "''/d''" "0x1ED" "demo_lib True" demo_process 0
      "cst demo_process" EACCES "cst demo_process"]
  by (simp add: demo_defs decode_def) (simp add: demo_process_def)

section \<open>Queries\<close>

text \<open>
  C27: \<open>metadata\<close> decodes what lwext4 says, field by field, and leaves no file open. A path exists
  exactly when \<open>ext4_mode_get\<close> returns 0; otherwise its code is the error and nothing else is
  called. If it exists, each of the seven types is reported exactly for its value of the four type
  bits (and \<open>Unknown\<close> for the others), the permissions are the twelve lower bits, owner, group and
  the three times are those the getters fill in, in this order and widened without loss; the size
  is asked for regular files only, on the full path opened for reading, from the handle that was
  opened, which is closed again; it is 0 for everything else and for a file that cannot be opened.
  The number of blocks is always 0, the number of links always 1.
\<close>

theorem metadata_decodes:
  assumes "named did fs" and "NUL \<notin> set path"
    and "l_mode_get (path_fns L) (full fs path) 0 (cst w) = ((r, m), s1)"
    and "l_owner_get (path_fns L) (full fs path) 0 0 s1 = ((ro, u, g), s2)"
    and "l_atime_get (path_fns L) (full fs path) 0 s2 = ((ra, at), s3)"
    and "l_mtime_get (path_fns L) (full fs path) 0 s3 = ((rm, mt), s4)"
    and "l_ctime_get (path_fns L) (full fs path) 0 s4 = ((rc, ct), s5)"
    and "l_fopen2 (file_fns L) ext4_file_default (full fs path) O_RDONLY s5 = ((rf, f), s6)"
    and "l_fsize (file_fns L) f s6 = (n, s7)"
  shows "\<exists>w'. exists_path L fs path w = Done (r = 0, w') \<and>
    (if r \<noteq> 0
     then metadata L fs path w = Done (Inl (set_path path (err_of r)), w') \<and>
       calls w' = calls w @ [C_mode_get (full fs path)]
     else \<exists>md. metadata L fs path w = Done (Inr md, w') \<and>
       (file_type md = RegularFile \<longleftrightarrow> m AND 0xF000 = 0x8000) \<and>
       (file_type md = Directory \<longleftrightarrow> m AND 0xF000 = 0x4000) \<and>
       (file_type md = Symlink \<longleftrightarrow> m AND 0xF000 = 0xA000) \<and>
       (file_type md = BlockDevice \<longleftrightarrow> m AND 0xF000 = 0x6000) \<and>
       (file_type md = CharDevice \<longleftrightarrow> m AND 0xF000 = 0x2000) \<and>
       (file_type md = Fifo \<longleftrightarrow> m AND 0xF000 = 0x1000) \<and>
       (file_type md = Socket \<longleftrightarrow> m AND 0xF000 = 0xC000) \<and>
       mode md = m AND 0xFFF \<and> uid md = u \<and> gid md = g \<and>
       unat (atime md) = unat at \<and> unat (mtime md) = unat mt \<and> unat (ctime md) = unat ct \<and>
       size' md = (if m AND 0xF000 = 0x8000 \<and> rf = 0 then n else 0) \<and> blocks md = 0 \<and> nlink md = 1 \<and>
       calls w' = calls w @ [C_mode_get (full fs path), C_owner_get (full fs path),
         C_atime_get (full fs path), C_mtime_get (full fs path), C_ctime_get (full fs path)] @
         (if m AND 0xF000 \<noteq> 0x8000 then []
          else if rf \<noteq> 0 then [C_fopen2 (full fs path) O_RDONLY]
          else [C_fopen2 (full fs path) O_RDONLY, C_fsize f, C_fclose f]))"
proof -
  have mp: "make_path fs path = Inr (full fs path)" using make_path_full [OF assms(1)] assms(2) by simp
  have rd: "OpenFlags_to_raw READ = O_RDONLY" by code_simp
  obtain rx fx s8 where c9: "l_fclose (file_fns L) f s7 = ((rx, fx), s8)" by (metis surj_pair)
  note cs = assms(3-9) c9
  note run = metadata_def exists_path_def size_of_path_def File_open_def File_size_def File_drop_def
    Let_def mp ffi_defs rust_simps try_st_def seq_st_def cs rd
  have reg: "file_type_of_mode m = RegularFile \<longleftrightarrow> m AND 0xF000 = 0x8000"
    by (simp add: file_type_of_mode_def Let_def)
  have types: "file_type_of_mode m = Directory \<longleftrightarrow> m AND 0xF000 = 0x4000"
    "file_type_of_mode m = Symlink \<longleftrightarrow> m AND 0xF000 = 0xA000"
    "file_type_of_mode m = BlockDevice \<longleftrightarrow> m AND 0xF000 = 0x6000"
    "file_type_of_mode m = CharDevice \<longleftrightarrow> m AND 0xF000 = 0x2000"
    "file_type_of_mode m = Fifo \<longleftrightarrow> m AND 0xF000 = 0x1000"
    "file_type_of_mode m = Socket \<longleftrightarrow> m AND 0xF000 = 0xC000"
    by (auto simp: file_type_of_mode_def Let_def)
  consider "r \<noteq> 0" | "r = 0" "file_type_of_mode m \<noteq> RegularFile"
    | "r = 0" "file_type_of_mode m = RegularFile" "rf \<noteq> 0" | "r = 0" "file_type_of_mode m = RegularFile" "rf = 0"
    by blast
  then show ?thesis
  proof cases
    case 1
    then show ?thesis by (simp add: run)
  next
    case 2
    with reg types show ?thesis by (simp add: run)
  next
    case 3
    with reg types show ?thesis by (simp add: run)
  next
    case 4
    with reg types show ?thesis by (simp add: run)
  qed
qed

text \<open>A regular file of five bytes with its own owner, group and times.\<close>

definition meta_lib :: "(demo, MemoryBlockDevice) cworld lwext4" where
  "meta_lib = (demo_lib True)\<lparr>
     path_fns := demo_path_fns\<lparr>
       l_mode_get := (\<lambda>path m w. ((0, 0x81A4), w)),
       l_owner_get := (\<lambda>path u g w. ((0, 1000, 100), w)),
       l_atime_get := (\<lambda>path t w. ((0, 11), w)),
       l_mtime_get := (\<lambda>path t w. ((0, 12), w)),
       l_ctime_get := (\<lambda>path t w. ((0, 13), w))\<rparr>,
     file_fns := demo_file_fns\<lparr>l_fsize := (\<lambda>f w. (5, w))\<rparr>\<rparr>"

theorem metadata_decodes_witness:
  "\<exists>md w'. metadata meta_lib demo_fs ''/a'' demo_process = Done (Inr md, w') \<and>
     exists_path meta_lib demo_fs ''/a'' demo_process = Done (True, w') \<and>
     file_type md = RegularFile \<and> mode md = 0x1A4 \<and> uid md = 1000 \<and> gid md = 100 \<and>
     unat (atime md) = 11 \<and> unat (mtime md) = 12 \<and> unat (ctime md) = 13 \<and> size' md = 5"
proof -
  let ?p = "full demo_fs ''/a''" and ?s = "cst demo_process :: (demo, MemoryBlockDevice) cworld"
  have calls: "l_mode_get (path_fns meta_lib) ?p 0 ?s = ((0, 0x81A4), ?s)"
    "l_owner_get (path_fns meta_lib) ?p 0 0 ?s = ((0, 1000, 100), ?s)"
    "l_atime_get (path_fns meta_lib) ?p 0 ?s = ((0, 11), ?s)"
    "l_mtime_get (path_fns meta_lib) ?p 0 ?s = ((0, 12), ?s)"
    "l_ctime_get (path_fns meta_lib) ?p 0 ?s = ((0, 13), ?s)"
    "l_fopen2 (file_fns meta_lib) ext4_file_default ?p O_RDONLY ?s = ((0, ext4_file_default), ?s)"
    "l_fsize (file_fns meta_lib) ext4_file_default ?s = (5, ?s)"
    by (simp_all add: meta_lib_def demo_file_fns_def)
  have bits: "(0x81A4 :: u32) AND 0xF000 = 0x8000" "(0x81A4 :: u32) AND 0xFFF = 0x1A4" by simp_all
  have "named 0 demo_fs" "NUL \<notin> set ''/a''" by simp_all
  from metadata_decodes [OF this calls] show ?thesis by (auto simp: bits)
qed

text \<open>
  \<open>stat\<close> reports the volume name as valid text: when lwext4 fails the decoded error is returned,
  otherwise the counters are those lwext4 filled in, widened without loss, and the name is valid
  UTF-8: the bytes before the first NUL (all 16 if there is none), unchanged when they are UTF-8.
\<close>

lemma position_takeWhile:
  "(case position p xs of Some n \<Rightarrow> take n xs | None \<Rightarrow> xs) = takeWhile (\<lambda>x. \<not> p x) xs"
  by (induction xs) (auto split: option.splits)

theorem stat_reports:
  assumes "l_mount_point_stats (mount_fns L) (mount_point fs) ext4_mount_stats_default (cst w) = ((r, st), s)"
    and "length (ms_volume_name st) = 16"
  shows "\<exists>res w'. stat L fs w = Done (res, w') \<and> calls w' = calls w @ [C_mount_point_stats (mount_point fs)] \<and>
    (case res of
       Inl e \<Rightarrow> r \<noteq> 0 \<and> e = err_of r
     | Inr info \<Rightarrow> r = 0 \<and> unat (total_inodes info) = unat (ms_inodes_count st) \<and>
         unat (free_inodes info) = unat (ms_free_inodes_count st) \<and>
         total_blocks info = ms_blocks_count st \<and> free_blocks info = ms_free_blocks_count st \<and>
         is_str (volume_name info) \<and>
         (let name = takeWhile (\<lambda>c. c \<noteq> 0) (ms_volume_name st) in
          utf8_valid name \<longrightarrow> bytes_of_str (volume_name info) = name))"
proof -
  have "volume_name_of (ms_volume_name st) = from_utf8_lossy (takeWhile (\<lambda>c. c \<noteq> 0) (ms_volume_name st))"
    using position_takeWhile [where p = "\<lambda>c. c = 0" and xs = "ms_volume_name st"] assms(2)
    by (auto simp: volume_name_of_def split: option.splits)
  moreover have "is_str (str_of_bytes (utf8_lossy bs))" for bs
    using from_utf8_lossy_is_str [of bs] by (simp add: from_utf8_lossy_def)
  ultimately show ?thesis using assms(1)
    by (auto simp: stat_def stats_of_raw_def ffi_defs rust_simps try_st_def
        from_utf8_lossy_def utf8_lossy_id Let_def)
qed

theorem stat_reports_witness:
  "\<exists>res w'. stat (demo_lib True) demo_fs demo_process = Done (Inr res, w') \<and> volume_name res = []"
proof -
  let ?st = "ext4_mount_stats_default"
  have call: "l_mount_point_stats (mount_fns (demo_lib True)) (mount_point demo_fs) ?st (cst demo_process) =
    ((0, ?st), cst demo_process)" by (simp add: demo_defs)
  have "length (ms_volume_name ?st) = 16" by (simp add: ext4_mount_stats_default_def)
  from stat_reports [OF call this] obtain res w' where *:
    "stat (demo_lib True) demo_fs demo_process = Done (res, w')" and
    "case res of Inl e \<Rightarrow> (0 :: i32) \<noteq> 0 \<and> e = err_of 0
     | Inr info \<Rightarrow> (0 :: i32) = 0 \<and> unat (total_inodes info) = unat (ms_inodes_count ?st) \<and>
         unat (free_inodes info) = unat (ms_free_inodes_count ?st) \<and>
         total_blocks info = ms_blocks_count ?st \<and> free_blocks info = ms_free_blocks_count ?st \<and>
         is_str (volume_name info) \<and>
         (let name = takeWhile (\<lambda>c. c \<noteq> 0) (ms_volume_name ?st) in
          utf8_valid name \<longrightarrow> bytes_of_str (volume_name info) = name)" by blast
  then show ?thesis by (cases res) (auto simp: bytes_of_str_def ext4_mount_stats_default_def)
qed

text \<open>
  \<open>readlink\<close> returns exactly the bytes lwext4 stored, or an error: it asks for at most 4096 bytes,
  and the answer, cut to the reported length, is the target when it is valid UTF-8 and an
  invalid-argument error when it is not; an error code is decoded with the caller's path.
\<close>

theorem readlink_exact:
  assumes "named did fs" and "NUL \<notin> set path"
    and "l_readlink (path_fns L) (full fs path) (replicate 4096 0) 4096 0 (cst w) = ((r, buf, n), s)"
  shows "\<exists>res w'. readlink L fs path w = Done (res, w') \<and> calls w' = calls w @ [C_readlink (full fs path)] \<and>
    (if r \<noteq> 0 then res = Inl (set_path path (err_of r))
     else if utf8_valid (take (unat n) buf)
     then \<exists>target. res = Inr target \<and> bytes_of_str target = take (unat n) buf
     else res = Inl (InvalidArgument ''invalid UTF-8 in symlink''))"
proof -
  have mp: "make_path fs path = Inr (full fs path)" using make_path_full [OF assms(1)] assms(2) by simp
  have len: "slice_len (replicate 4096 0) = 4096" by (simp add: slice_len_def)
  show ?thesis using assms(3)
    by (auto simp: readlink_def mp ffi_defs rust_simps try_st_def Let_def len from_utf8_def)
qed

theorem readlink_exact_witness:
  "\<exists>w'. readlink (demo_lib True) demo_fs ''/l'' demo_process = Done (Inr [], w')"
proof -
  have call: "l_readlink (path_fns (demo_lib True)) (full demo_fs ''/l'') (replicate 4096 0) 4096 0
      (cst demo_process) = ((0, replicate 4096 0, 0), cst demo_process)" by (simp add: demo_defs)
  have "named 0 demo_fs" "NUL \<notin> set ''/l''" by simp_all
  from readlink_exact [OF this call] show ?thesis by (auto simp: bytes_of_str_def)
qed

end
