(* ===== verification/FsTree.thy ===== *)
theory FsTree
  imports FsOpsProps
begin

text \<open>
  The directory tree behind a mounted file system. lwext4 sees one name space of C paths, the crate
  one tree for each mount, keyed by paths relative to its root. The contract of lwext4's path
  functions is stated on C paths; the operations of \<open>fs.rs\<close> refine an abstract tree on the paths of
  the caller, read-only mounts, rejected paths, operations of two calls and failures included.
\<close>

section \<open>Trees\<close>

record inode =
  i_mode :: u32
  i_uid :: u32
  i_gid :: u32
  i_data :: bytes
  i_target :: bytes

text \<open>Paths name inodes; hard links are paths with the same inode.\<close>

record fstree =
  entries :: "string \<rightharpoonup> nat"
  inodes :: "nat \<rightharpoonup> inode"

definition node_at :: "fstree \<Rightarrow> string \<rightharpoonup> inode" where
  "node_at t k = Option.bind (entries t k) (inodes t)"

text \<open>\<open>x\<close> is \<open>k\<close> or inside the directory \<open>k\<close>.\<close>

definition within :: "string \<Rightarrow> string \<Rightarrow> bool" where
  "within k x \<longleftrightarrow> x = k \<or> take (length k + 1) x = k @ ''/''"

fun path_names :: "string \<Rightarrow> string list" where
  "path_names [] = [[]]"
| "path_names (c # cs) =
     (if c = CHR ''/'' then [] # path_names cs
      else (case path_names cs of x # xs \<Rightarrow> (c # x) # xs | [] \<Rightarrow> [[c]]))"

text \<open>
  Canonical paths: no empty name, no dot names, and not the root. Two canonical paths that differ
  name different entries of a tree.
\<close>

definition canonical :: "string \<Rightarrow> bool" where
  "canonical k \<longleftrightarrow> set (path_names k) \<inter> {[], ''.'', ''..''} = {}"

section \<open>What changes do to a tree\<close>

definition same_at :: "fstree \<Rightarrow> fstree \<Rightarrow> string \<Rightarrow> bool" where
  "same_at t t' x \<longleftrightarrow> entries t' x = entries t x \<and> node_at t' x = node_at t x"

definition shares :: "fstree \<Rightarrow> string \<Rightarrow> string \<Rightarrow> bool" where
  "shares t k x \<longleftrightarrow> entries t x \<noteq> None \<and> entries t x = entries t k"

text \<open>
  At most the paths of \<open>K\<close>, what is inside them, their missing parents and their other hard links
  have changed.
\<close>

definition touched :: "string set \<Rightarrow> fstree \<Rightarrow> fstree \<Rightarrow> bool" where
  "touched K t t' \<longleftrightarrow> (\<forall>x. (\<forall>k \<in> K. \<not> within k x \<and> \<not> shares t k x \<and>
       (within x k \<longrightarrow> entries t x \<noteq> None)) \<longrightarrow> same_at t t' x)"

definition dir_made :: "string \<Rightarrow> fstree \<Rightarrow> fstree \<Rightarrow> bool" where
  "dir_made k t t' \<longleftrightarrow> touched {k} t t' \<and>
     (\<exists>n. node_at t' k = Some n \<and> file_type_of_mode (i_mode n) = Directory)"

definition entry_removed :: "string \<Rightarrow> fstree \<Rightarrow> fstree \<Rightarrow> bool" where
  "entry_removed k t t' \<longleftrightarrow> entries t k \<noteq> None \<and> entries t' k = None \<and>
     (\<forall>x. x \<noteq> k \<longrightarrow> same_at t t' x)"

definition subtree_removed :: "string \<Rightarrow> fstree \<Rightarrow> fstree \<Rightarrow> bool" where
  "subtree_removed k t t' \<longleftrightarrow> (\<forall>x. if within k x then entries t' x = None else same_at t t' x)"

text \<open>Moving between places that do not contain each other takes everything inside along.\<close>

definition apart :: "string \<Rightarrow> string \<Rightarrow> bool" where
  "apart s d \<longleftrightarrow> \<not> within s d \<and> \<not> within d s"

definition subtree_moved :: "string \<Rightarrow> string \<Rightarrow> fstree \<Rightarrow> fstree \<Rightarrow> bool" where
  "subtree_moved s d t t' \<longleftrightarrow>
     (apart s d \<longrightarrow> entries t s \<noteq> None \<and>
       (\<forall>x. if within s x then entries t' x = None
            else if within d x then entries t' x = entries t (s @ drop (length d) x) \<and>
              node_at t' x = node_at t (s @ drop (length d) x)
            else same_at t t' x))"

definition linked :: "string \<Rightarrow> string \<Rightarrow> fstree \<Rightarrow> fstree \<Rightarrow> bool" where
  "linked s d t t' \<longleftrightarrow> entries t s \<noteq> None \<and> entries t' d = entries t s \<and> node_at t' d = node_at t s \<and>
     (\<forall>x. x \<noteq> d \<longrightarrow> same_at t t' x)"

definition symlinked :: "string \<Rightarrow> string \<Rightarrow> fstree \<Rightarrow> fstree \<Rightarrow> bool" where
  "symlinked target k t t' \<longleftrightarrow> touched {k} t t' \<and>
     (\<exists>n. node_at t' k = Some n \<and> file_type_of_mode (i_mode n) = Symlink \<and>
        i_target n = bytes_of_str target)"

text \<open>A change of an inode is seen through all its paths.\<close>

definition inode_changed :: "(inode \<Rightarrow> inode \<Rightarrow> bool) \<Rightarrow> string \<Rightarrow> fstree \<Rightarrow> fstree \<Rightarrow> bool" where
  "inode_changed R k t t' \<longleftrightarrow> entries t' = entries t \<and>
     (\<exists>i n n'. entries t k = Some i \<and> inodes t i = Some n \<and> R n n' \<and>
        inodes t' = (inodes t)(i \<mapsto> n'))"

definition mode_changed :: "u32 \<Rightarrow> string \<Rightarrow> fstree \<Rightarrow> fstree \<Rightarrow> bool" where
  "mode_changed m = inode_changed (\<lambda>n n'. \<exists>x. n' = n\<lparr>i_mode := x\<rparr> \<and> x AND 0xFFF = m AND 0xFFF \<and>
     x AND 0xF000 = i_mode n AND 0xF000)"

definition owner_changed :: "u32 \<Rightarrow> u32 \<Rightarrow> string \<Rightarrow> fstree \<Rightarrow> fstree \<Rightarrow> bool" where
  "owner_changed u g = inode_changed (\<lambda>n n'. n' = n\<lparr>i_uid := u, i_gid := g\<rparr>)"

lemma within_refl [simp]: "within k k"
  by (simp add: within_def)

lemma within_split: "within k x \<longleftrightarrow> (\<exists>y. x = k @ y \<and> (y = [] \<or> hd y = CHR ''/''))"
proof
  assume "within k x"
  then show "\<exists>y. x = k @ y \<and> (y = [] \<or> hd y = CHR ''/'')"
  proof (cases "x = k")
    case False
    with \<open>within k x\<close> have "take (length k + 1) x = k @ ''/''" by (simp add: within_def)
    then have "x = k @ ''/'' @ drop (length k + 1) x"
      using append_take_drop_id [of "length k + 1" x] by simp
    then show ?thesis by (intro exI [of _ "''/'' @ drop (length k + 1) x"]) simp
  qed simp
next
  assume "\<exists>y. x = k @ y \<and> (y = [] \<or> hd y = CHR ''/'')"
  then obtain y where y: "x = k @ y" "y = [] \<or> hd y = CHR ''/''" by blast
  then show "within k x" by (cases y) (auto simp: within_def)
qed

lemma apart_disjoint: "apart s d \<Longrightarrow> within s x \<Longrightarrow> \<not> within d x"
proof
  assume a: "apart s d" and s: "within s x" and d: "within d x"
  from s obtain y where "x = s @ y" "y = [] \<or> hd y = CHR ''/''" unfolding within_split by blast
  moreover from d obtain z where "x = d @ z" "z = [] \<or> hd z = CHR ''/''" unfolding within_split by blast
  ultimately have x: "x = s @ y" "x = d @ z" "y = [] \<or> hd y = CHR ''/''" "z = [] \<or> hd z = CHR ''/''"
    by simp_all
  then have "s @ y = d @ z" by simp
  then obtain u where "s = d @ u \<and> u @ y = z \<or> s @ u = d \<and> y = u @ z" by (auto simp: append_eq_append_conv2)
  then have "within d s \<or> within s d"
    using x(3,4) by (cases u) (auto simp: within_split)
  with a show False by (simp add: apart_def)
qed

lemma touched_refl [simp]: "touched K t t"
  by (simp add: touched_def same_at_def)

text \<open>What stood at the old place itself stands at the new one.\<close>

lemma moved_root:
  assumes "subtree_moved s d t t'" and a: "apart s d"
  shows "entries t' d = entries t s" and "node_at t' d = node_at t s"
proof -
  have "if within s d then entries t' d = None
      else if within d d then entries t' d = entries t (s @ drop (length d) d) \<and>
        node_at t' d = node_at t (s @ drop (length d) d)
      else same_at t t' d"
    using assms unfolding subtree_moved_def by blast
  with a show "entries t' d = entries t s" "node_at t' d = node_at t s" by (simp_all add: apart_def)
qed

section \<open>The contract of the path functions\<close>

type_synonym 'w forest = "'w \<Rightarrow> u64 \<Rightarrow> fstree"

text \<open>
  A call on the mount \<open>did\<close> leaves the other mounts alone, and does \<open>good\<close> when it returns 0 and
  \<open>bad\<close> otherwise.
\<close>

definition effect ::
  "'w forest \<Rightarrow> u64 \<Rightarrow> ('w, i32) cfun \<Rightarrow> (fstree \<Rightarrow> fstree \<Rightarrow> bool) \<Rightarrow> (fstree \<Rightarrow> fstree \<Rightarrow> bool) \<Rightarrow> bool" where
  "effect V did f good bad \<longleftrightarrow> (\<forall>w. let (r, w') = f w in
     (\<forall>e. e \<noteq> did \<longrightarrow> V w' e = V w e) \<and>
     (if r = 0 then good (V w did) (V w' did) else bad (V w did) (V w' did)))"

definition c_key :: "string \<Rightarrow> bool" where
  "c_key k \<longleftrightarrow> canonical k \<and> NUL \<notin> set k"

definition changes_contract :: "'w forest \<Rightarrow> 'w lwext4 \<Rightarrow> bool" where
  "changes_contract V L \<longleftrightarrow> (\<forall>did k. c_key k \<longrightarrow>
     effect V did (l_dir_mk (path_fns L) (mp_name did @ k)) (dir_made k) (touched {k}) \<and>
     effect V did (l_fremove (path_fns L) (mp_name did @ k)) (entry_removed k) (touched {k}) \<and>
     effect V did (l_dir_rm (path_fns L) (mp_name did @ k)) (subtree_removed k) (touched {k}) \<and>
     (\<forall>m. effect V did (l_mode_set (path_fns L) (mp_name did @ k) m) (mode_changed m k) (touched {k})) \<and>
     (\<forall>u g. effect V did (l_owner_set (path_fns L) (mp_name did @ k) u g) (owner_changed u g k) (touched {k})) \<and>
     (\<forall>target. effect V did (l_fsymlink (path_fns L) target (mp_name did @ k)) (symlinked target k) (touched {k})) \<and>
     (\<forall>d. c_key d \<longrightarrow>
        effect V did (l_frename (path_fns L) (mp_name did @ k) (mp_name did @ d)) (subtree_moved k d) (touched {k, d}) \<and>
        effect V did (l_flink (path_fns L) (mp_name did @ k) (mp_name did @ d)) (linked k d) (touched {k, d})))"

text \<open>A query changes nothing, and when it returns 0 the path exists and the answer is right.\<close>

definition answers ::
  "'w forest \<Rightarrow> ('w, i32 \<times> 'r) cfun \<Rightarrow> u64 \<Rightarrow> string \<Rightarrow> (inode \<Rightarrow> 'r \<Rightarrow> bool) \<Rightarrow> bool" where
  "answers V f did k right \<longleftrightarrow> (\<forall>w. let ((r, x), w') = f w in
     V w' = V w \<and> (r = 0 \<longrightarrow> (\<exists>n. node_at (V w did) k = Some n \<and> right n x)))"

definition queries_contract :: "'w forest \<Rightarrow> 'w lwext4 \<Rightarrow> bool" where
  "queries_contract V L \<longleftrightarrow> (\<forall>did k. c_key k \<longrightarrow>
     (\<forall>x. answers V (l_mode_get (path_fns L) (mp_name did @ k) x) did k (\<lambda>n m. m = i_mode n)) \<and>
     (\<forall>x y. answers V (l_owner_get (path_fns L) (mp_name did @ k) x y) did k (\<lambda>n (u, g). u = i_uid n \<and> g = i_gid n)) \<and>
     (\<forall>x. answers V (l_atime_get (path_fns L) (mp_name did @ k) x) did k (\<lambda>n m. True)) \<and>
     (\<forall>x. answers V (l_mtime_get (path_fns L) (mp_name did @ k) x) did k (\<lambda>n m. True)) \<and>
     (\<forall>x. answers V (l_ctime_get (path_fns L) (mp_name did @ k) x) did k (\<lambda>n m. True)) \<and>
     (\<forall>ty. answers V (\<lambda>w. case l_inode_exist (path_fns L) (mp_name did @ k) ty w of (r, w) \<Rightarrow> ((r, ()), w)) did k
        (\<lambda>n u. ucast (FileType_to_raw (file_type_of_mode (i_mode n))) = ty)) \<and>
     (\<forall>buf sz x. answers V (l_readlink (path_fns L) (mp_name did @ k) buf sz x) did k (\<lambda>n (out, cnt).
        file_type_of_mode (i_mode n) = Symlink \<and>
        take (unat cnt) out = take (unat sz) (i_target n))))"

text \<open>Opening for reading, asking the size and closing change no tree.\<close>

definition probe_contract :: "'w forest \<Rightarrow> 'w lwext4 \<Rightarrow> bool" where
  "probe_contract V L \<longleftrightarrow>
     (\<forall>did k f w. c_key k \<longrightarrow> (let ((r, f'), w') = l_fopen2 (file_fns L) f (mp_name did @ k) O_RDONLY w in
        V w' = V w \<and> (r = 0 \<longrightarrow> (\<exists>n. node_at (V w did) k = Some n \<and>
          unat (fst (l_fsize (file_fns L) f' w')) = length (i_data n))))) \<and>
     (\<forall>f w. V (snd (l_fsize (file_fns L) f w)) = V w) \<and>
     (\<forall>f w. V (snd (l_fclose (file_fns L) f w)) = V w)"

definition tree_contract :: "'w forest \<Rightarrow> 'w lwext4 \<Rightarrow> bool" where
  "tree_contract V L \<longleftrightarrow> changes_contract V L \<and> queries_contract V L \<and> probe_contract V L"

section \<open>The abstract tree\<close>

text \<open>What the changing operations mean on the caller's paths.\<close>

definition rel :: "string \<Rightarrow> string" where
  "rel path = strip_slash path"

fun op_good :: "fs_op \<Rightarrow> fstree \<Rightarrow> fstree \<Rightarrow> bool" where
  "op_good (OpMkdir path m) t t' \<longleftrightarrow>
     (if m = 0 then dir_made (rel path) t t'
      else \<exists>t1. dir_made (rel path) t t1 \<and> mode_changed m (rel path) t1 t')"
| "op_good (OpRemove path) t t' \<longleftrightarrow> entry_removed (rel path) t t'"
| "op_good (OpRmdir path) t t' \<longleftrightarrow> subtree_removed (rel path) t t'"
| "op_good (OpRename src dst) t t' \<longleftrightarrow> subtree_moved (rel src) (rel dst) t t'"
| "op_good (OpLink src dst) t t' \<longleftrightarrow> linked (rel src) (rel dst) t t'"
| "op_good (OpSymlink target path) t t' \<longleftrightarrow> symlinked target (rel path) t t'"
| "op_good (OpSetPermissions path m) t t' \<longleftrightarrow> mode_changed m (rel path) t t'"
| "op_good (OpSetOwner path u g) t t' \<longleftrightarrow> owner_changed u g (rel path) t t'"

fun op_keys :: "fs_op \<Rightarrow> string set" where
  "op_keys (OpRename src dst) = {rel src, rel dst}"
| "op_keys (OpLink src dst) = {rel src, rel dst}"
| "op_keys (OpSymlink target path) = {rel path}"
| "op_keys c = {rel (op_subject c)}"

text \<open>A failed operation; a directory may exist although setting its mode failed.\<close>

definition op_bad :: "fs_op \<Rightarrow> fstree \<Rightarrow> fstree \<Rightarrow> bool" where
  "op_bad c t t' \<longleftrightarrow> touched (op_keys c) t t' \<or>
     sets_mode c \<and> (\<exists>k t1. op_keys c = {k} \<and> dir_made k t t1 \<and> touched {k} t1 t')"

datatype ns_call = Change fs_op | AskExists string | AskFile string | AskDir string
  | AskMeta string | AskLink string

datatype ns_reply = RepChange "error + unit" | RepBool bool | RepMeta "error + Metadata"
  | RepLink "error + string"

fun run_call :: "'w lwext4 \<Rightarrow> Ext4Fs \<Rightarrow> ns_call \<Rightarrow> ('w world, ns_reply) comp" where
  "run_call L fs (Change c) = seq_st (run_op L fs c) (\<lambda>r. ret_st (RepChange r))"
| "run_call L fs (AskExists path) = seq_st (exists_path L fs path) (\<lambda>b. ret_st (RepBool b))"
| "run_call L fs (AskFile path) = seq_st (is_file L fs path) (\<lambda>b. ret_st (RepBool b))"
| "run_call L fs (AskDir path) = seq_st (is_dir L fs path) (\<lambda>b. ret_st (RepBool b))"
| "run_call L fs (AskMeta path) = seq_st (metadata L fs path) (\<lambda>r. ret_st (RepMeta r))"
| "run_call L fs (AskLink path) = seq_st (readlink L fs path) (\<lambda>r. ret_st (RepLink r))"

text \<open>
  What metadata says of an inode. The owner is the inode's where lwext4 could tell it; the size is
  0 where the file could not be opened.
\<close>

definition describes :: "inode \<Rightarrow> Metadata \<Rightarrow> bool" where
  "describes n md \<longleftrightarrow> file_type md = file_type_of_mode (i_mode n) \<and> mode md = i_mode n AND 0xFFF \<and>
     (size' md = 0 \<or> file_type md = RegularFile \<and> unat (size' md) = length (i_data n))"

definition is_type :: "FileType \<Rightarrow> inode option \<Rightarrow> bool" where
  "is_type ty x \<longleftrightarrow> (case x of None \<Rightarrow> False | Some n \<Rightarrow> file_type_of_mode (i_mode n) = ty)"

fun ns_step :: "bool \<Rightarrow> ns_call \<Rightarrow> fstree \<Rightarrow> ns_reply \<Rightarrow> fstree \<Rightarrow> bool" where
  "ns_step ro (Change c) t (RepChange r) t' \<longleftrightarrow>
     (if ro then r = Inl ReadOnly \<and> t' = t
      else if \<not> op_ok c then (\<exists>e. r = Inl (NulError e)) \<and> t' = t
      else (case r of Inl e \<Rightarrow> op_bad c t t' | Inr u \<Rightarrow> op_good c t t'))"
| "ns_step ro (AskExists path) t (RepBool b) t' \<longleftrightarrow> t' = t \<and> (b \<longrightarrow> node_at t (rel path) \<noteq> None)"
| "ns_step ro (AskFile path) t (RepBool b) t' \<longleftrightarrow> t' = t \<and> (b \<longrightarrow> is_type RegularFile (node_at t (rel path)))"
| "ns_step ro (AskDir path) t (RepBool b) t' \<longleftrightarrow> t' = t \<and> (b \<longrightarrow> is_type Directory (node_at t (rel path)))"
| "ns_step ro (AskMeta path) t (RepMeta r) t' \<longleftrightarrow> t' = t \<and>
     (\<forall>md. r = Inr md \<longrightarrow> (\<exists>n. node_at t (rel path) = Some n \<and> describes n md))"
| "ns_step ro (AskLink path) t (RepLink r) t' \<longleftrightarrow> t' = t \<and>
     (\<forall>target. r = Inr target \<longrightarrow> (\<exists>n. node_at t (rel path) = Some n \<and>
        file_type_of_mode (i_mode n) = Symlink \<and> bytes_of_str target = take 4096 (i_target n)))"
| "ns_step _ _ _ _ _ \<longleftrightarrow> False"

text \<open>Calls on several mounts, each of which moves its own tree only.\<close>

inductive ns_run :: "(Ext4Fs \<times> ns_call) list \<Rightarrow> (u64 \<Rightarrow> fstree) \<Rightarrow> ns_reply list \<Rightarrow> (u64 \<Rightarrow> fstree) \<Rightarrow> bool" where
  ns_Nil: "ns_run [] T [] T"
| ns_Cons: "named did fs \<Longrightarrow> ns_step (is_read_only fs) c (T did) r t \<Longrightarrow> ns_run cs (T(did := t)) rs T' \<Longrightarrow>
    ns_run ((fs, c) # cs) T (r # rs) T'"

inductive_cases ns_run_NilE: "ns_run [] T rs T'"
inductive_cases ns_run_ConsE: "ns_run (x # cs) T rs T'"

fun run_calls :: "'w lwext4 \<Rightarrow> (Ext4Fs \<times> ns_call) list \<Rightarrow> ('w world, ns_reply list) comp" where
  "run_calls L [] = ret_st []"
| "run_calls L ((fs, c) # cs) =
     seq_st (run_call L fs c) (\<lambda>r. seq_st (run_calls L cs) (\<lambda>rs. ret_st (r # rs)))"

section \<open>Refinement of the changes\<close>

fun call_paths :: "ns_call \<Rightarrow> string list" where
  "call_paths (Change (OpSymlink target path)) = [path]"
| "call_paths (Change c) = op_paths c"
| "call_paths (AskExists path) = [path]"
| "call_paths (AskFile path) = [path]"
| "call_paths (AskDir path) = [path]"
| "call_paths (AskMeta path) = [path]"
| "call_paths (AskLink path) = [path]"

definition call_ok :: "ns_call \<Rightarrow> bool" where
  "call_ok c \<longleftrightarrow> (\<forall>path \<in> set (call_paths c). canonical (rel path))"

lemma full_rel: "named did fs \<Longrightarrow> full fs path = mp_name did @ rel path"
  by (simp add: full_def named_def rel_def)

lemma rel_NUL: "NUL \<in> set (rel path) \<longleftrightarrow> NUL \<in> set path"
  by (simp add: rel_def set_strip_slash)

lemma effectD:
  assumes "effect V did f good bad" and "f w = (r, w')"
  shows "e \<noteq> did \<Longrightarrow> V w' e = V w e"
    and "if r = 0 then good (V w did) (V w' did) else bad (V w did) (V w' did)"
  using assms by (auto simp: effect_def dest: spec [of _ w])

lemma changesD:
  assumes "changes_contract V L" and "c_key k"
  shows "effect V did (l_dir_mk (path_fns L) (mp_name did @ k)) (dir_made k) (touched {k})"
    and "effect V did (l_fremove (path_fns L) (mp_name did @ k)) (entry_removed k) (touched {k})"
    and "effect V did (l_dir_rm (path_fns L) (mp_name did @ k)) (subtree_removed k) (touched {k})"
    and "effect V did (l_mode_set (path_fns L) (mp_name did @ k) m) (mode_changed m k) (touched {k})"
    and "effect V did (l_owner_set (path_fns L) (mp_name did @ k) u g) (owner_changed u g k) (touched {k})"
    and "effect V did (l_fsymlink (path_fns L) target (mp_name did @ k)) (symlinked target k) (touched {k})"
    and "c_key d \<Longrightarrow> effect V did (l_frename (path_fns L) (mp_name did @ k) (mp_name did @ d))
      (subtree_moved k d) (touched {k, d})"
    and "c_key d \<Longrightarrow> effect V did (l_flink (path_fns L) (mp_name did @ k) (mp_name did @ d))
      (linked k d) (touched {k, d})"
  using assms unfolding changes_contract_def by blast+

lemma op_good_fun:
  "op_good (OpMkdir path 0) = dir_made (rel path)"
  "op_good (OpRemove path) = entry_removed (rel path)"
  "op_good (OpRmdir path) = subtree_removed (rel path)"
  "op_good (OpRename src dst) = subtree_moved (rel src) (rel dst)"
  "op_good (OpLink src dst) = linked (rel src) (rel dst)"
  "op_good (OpSymlink target path) = symlinked target (rel path)"
  "op_good (OpSetPermissions path m) = mode_changed m (rel path)"
  "op_good (OpSetOwner path u g) = owner_changed u g (rel path)"
  by (simp_all add: fun_eq_iff)

lemma op_fn_effect:
  assumes C: "changes_contract V L" and n: "named did fs" and ok: "op_ok c" "call_ok (Change c)"
    and one: "\<not> sets_mode c"
  shows "effect V did (op_fn L fs c) (op_good c) (touched (op_keys c))"
proof -
  have key: "c_key (rel path)" if "path \<in> set (call_paths (Change c))" "path \<in> set (op_paths c)" for path
    using that ok rel_NUL [of path] by (simp add: c_key_def call_ok_def op_ok_def)
  show ?thesis
  proof (cases c)
    case (OpRename src dst)
    with key changesD(7) [OF C, of "rel src" "rel dst"] show ?thesis by (simp add: full_rel [OF n] op_good_fun)
  next
    case (OpLink src dst)
    with key changesD(8) [OF C, of "rel src" "rel dst"] show ?thesis by (simp add: full_rel [OF n] op_good_fun)
  qed (use key changesD [OF C] one in \<open>auto simp: full_rel [OF n] op_good_fun\<close>)
qed

lemma change_refines:
  assumes C: "changes_contract V L" and n: "named did fs" and ok: "call_ok (Change c)"
  shows "\<exists>r w'. run_op L fs c w = Done (r, w') \<and> (\<forall>e. e \<noteq> did \<longrightarrow> V (cst w') e = V (cst w) e) \<and>
    ns_step (is_read_only fs) (Change c) (V (cst w) did) (RepChange r) (V (cst w') did)"
proof (cases "is_read_only fs \<or> \<not> op_ok c")
  case True
  then show ?thesis
    using run_op_read_only [of fs L c w] run_op_NUL [OF n, of c L w] by (cases "is_read_only fs") auto
next
  case False
  then have rw: "\<not> is_read_only fs" and nul: "op_ok c" by auto
  show ?thesis
  proof (cases "sets_mode c")
    case False
    obtain x s where x: "op_fn L fs c (cst w) = (x, s)" by fastforce
    note e = effectD [OF op_fn_effect [OF C n nul ok False] x]
    from run_op_call [OF n rw nul False, of L w] x e rw nul show ?thesis
      by (cases "x = 0") (auto simp: decode_def op_bad_def)
  next
    case True
    then obtain path m where c: "c = OpMkdir path m" "m \<noteq> 0" by (cases c) auto
    have key: "c_key (rel path)" and NUL: "NUL \<notin> set path"
      using ok nul c rel_NUL [of path] by (simp_all add: c_key_def call_ok_def op_ok_def)
    obtain r1 s1 where 1: "l_dir_mk (path_fns L) (full fs path) (cst w) = (r1, s1)" by fastforce
    obtain r2 s2 where 2: "l_mode_set (path_fns L) (full fs path) m s1 = (r2, s2)" by fastforce
    note call = mkdir_call [OF n rw NUL c(2) 1 2]
    note e1 = effectD [OF changesD(1) [OF C key] 1 [unfolded full_rel [OF n]]]
    note e2 = effectD [OF changesD(4) [OF C key] 2 [unfolded full_rel [OF n]]]
    show ?thesis using call c rw nul e1 e2
      by (cases "r1 = 0"; cases "r2 = 0") (auto simp: decode_def op_bad_def)
  qed
qed

section \<open>Refinement of the queries\<close>

lemma answersD:
  assumes "answers V f did k right" and "f w = ((r, x), w')"
  shows "V w' = V w" and "r = 0 \<Longrightarrow> \<exists>n. node_at (V w did) k = Some n \<and> right n x"
  using assms by (auto simp: answers_def dest: spec [of _ w])

lemma queriesD:
  assumes "queries_contract V L" and "c_key k"
  shows "answers V (l_mode_get (path_fns L) (mp_name did @ k) x) did k (\<lambda>n m. m = i_mode n)"
    and "answers V (l_owner_get (path_fns L) (mp_name did @ k) x y) did k (\<lambda>n (u, g). u = i_uid n \<and> g = i_gid n)"
    and "answers V (l_atime_get (path_fns L) (mp_name did @ k) x) did k (\<lambda>n m. True)"
    and "answers V (l_mtime_get (path_fns L) (mp_name did @ k) x) did k (\<lambda>n m. True)"
    and "answers V (l_ctime_get (path_fns L) (mp_name did @ k) x) did k (\<lambda>n m. True)"
    and "answers V (\<lambda>w. case l_inode_exist (path_fns L) (mp_name did @ k) ty w of (r, w) \<Rightarrow> ((r, ()), w)) did k
      (\<lambda>n u. ucast (FileType_to_raw (file_type_of_mode (i_mode n))) = ty)"
    and "answers V (l_readlink (path_fns L) (mp_name did @ k) buf sz c) did k (\<lambda>n (out, cnt).
      file_type_of_mode (i_mode n) = Symlink \<and> take (unat cnt) out = take (unat sz) (i_target n))"
  using assms unfolding queries_contract_def by blast+

lemma probeD:
  assumes "probe_contract V L"
  shows "V (snd (l_fsize (file_fns L) f w)) = V w" and "V (snd (l_fclose (file_fns L) f w)) = V w"
    and "c_key k \<Longrightarrow> l_fopen2 (file_fns L) f (mp_name did @ k) O_RDONLY w = ((r, f'), w') \<Longrightarrow>
      V w' = V w \<and> (r = 0 \<longrightarrow> (\<exists>n. node_at (V w did) k = Some n \<and>
        unat (fst (l_fsize (file_fns L) f' w')) = length (i_data n)))"
proof -
  note * = assms [unfolded probe_contract_def]
  show "V (snd (l_fsize (file_fns L) f w)) = V w" and "V (snd (l_fclose (file_fns L) f w)) = V w"
    using * by blast+
  show "V w' = V w \<and> (r = 0 \<longrightarrow> (\<exists>n. node_at (V w did) k = Some n \<and>
      unat (fst (l_fsize (file_fns L) f' w')) = length (i_data n)))"
    if "c_key k" "l_fopen2 (file_fns L) f (mp_name did @ k) O_RDONLY w = ((r, f'), w')"
    using * [THEN conjunct1, rule_format, of k f did w] that by simp
qed

lemma make_path_rel:
  assumes "named did fs"
  shows "NUL \<notin> set path \<Longrightarrow> make_path fs path = Inr (mp_name did @ rel path)"
    and "NUL \<in> set path \<Longrightarrow> \<exists>e. make_path fs path = Inl e"
  using make_path_full [OF assms, of path] full_rel [OF assms, of path] by simp_all

lemma READ_raw: "OpenFlags_to_raw READ = O_RDONLY"
  by code_simp

lemma size_of_path_spec:
  assumes P: "probe_contract V L" and n: "named did fs" and key: "c_key (rel path)" "NUL \<notin> set path"
    and node: "node_at (V (cst w) did) (rel path) = Some n"
  shows "\<exists>sz w'. size_of_path L fs path w = Done (sz, w') \<and> V (cst w') = V (cst w) \<and>
    (sz = 0 \<or> unat sz = length (i_data n))"
proof -
  let ?path = "mp_name did @ rel path"
  obtain r f s where o: "l_fopen2 (file_fns L) ext4_file_default ?path O_RDONLY (cst w) = ((r, f), s)"
    by (metis surj_pair)
  note o1 = probeD(3) [OF P key(1) o]
  obtain sz s2 where z: "l_fsize (file_fns L) f s = (sz, s2)" by fastforce
  obtain c s3 where c: "l_fclose (file_fns L) f s2 = (c, s3)" by fastforce
  have V: "V s3 = V (cst w)"
    using probeD(1) [OF P, of f s] probeD(2) [OF P, of f s2] o1 z c by simp
  have sz: "r = 0 \<Longrightarrow> unat sz = length (i_data n)" using o1 node z by auto
  show ?thesis
    using o z c V o1 sz make_path_rel(1) [OF n key(2)]
    by (cases "r = 0")
      (auto simp: size_of_path_def File_open_def File_size_def File_drop_def READ_raw ffi_defs rust_simps
        try_st_def seq_st_def)
qed

lemma metadata_refines:
  assumes C: "queries_contract V L" "probe_contract V L" and n: "named did fs"
    and key: "canonical (rel path)"
  shows "\<exists>r w'. metadata L fs path w = Done (r, w') \<and> V (cst w') = V (cst w) \<and>
    (\<forall>md. r = Inr md \<longrightarrow> (\<exists>n. node_at (V (cst w) did) (rel path) = Some n \<and> describes n md))"
proof (cases "NUL \<in> set path")
  case True
  with make_path_rel(2) [OF n this] show ?thesis by (auto simp: metadata_def rust_simps)
next
  case False
  let ?path = "mp_name did @ rel path"
  have k: "c_key (rel path)" using key False by (simp add: c_key_def rel_NUL)
  note mp = make_path_rel(1) [OF n False]
  obtain r m s1 where 1: "l_mode_get (path_fns L) ?path 0 (cst w) = ((r, m), s1)" by (metis surj_pair)
  note a1 = answersD [OF queriesD(1) [OF C(1) k] 1]
  show ?thesis
  proof (cases "r = 0")
    case False
    with 1 mp a1(1) show ?thesis by (simp add: metadata_def ffi_defs rust_simps try_st_def)
  next
    case True
    then obtain n where node: "node_at (V (cst w) did) (rel path) = Some n" "m = i_mode n"
      using a1(2) by blast
    obtain ro u g s2 where 2: "l_owner_get (path_fns L) ?path 0 0 s1 = ((ro, u, g), s2)" by (metis surj_pair)
    obtain ra at s3 where 3: "l_atime_get (path_fns L) ?path 0 s2 = ((ra, at), s3)" by (metis surj_pair)
    obtain rm mt s4 where 4: "l_mtime_get (path_fns L) ?path 0 s3 = ((rm, mt), s4)" by (metis surj_pair)
    obtain rc ct s5 where 5: "l_ctime_get (path_fns L) ?path 0 s4 = ((rc, ct), s5)" by (metis surj_pair)
    have V: "V s5 = V (cst w)"
      using a1(1) answersD(1) [OF queriesD(2) [OF C(1) k] 2] answersD(1) [OF queriesD(3) [OF C(1) k] 3]
        answersD(1) [OF queriesD(4) [OF C(1) k] 4] answersD(1) [OF queriesD(5) [OF C(1) k] 5] by simp
    define w5 where "w5 = w\<lparr>cst := s5, calls := calls w @ [C_mode_get ?path, C_owner_get ?path,
      C_atime_get ?path, C_mtime_get ?path, C_ctime_get ?path]\<rparr>"
    define probe where "probe = (if file_type_of_mode m = RegularFile then size_of_path L fs path else ret_st 0)"
    have "\<exists>sz w'. probe w5 = Done (sz, w') \<and> V (cst w') = V (cst w) \<and>
        (sz = 0 \<or> file_type_of_mode m = RegularFile \<and> unat sz = length (i_data n))"
      using size_of_path_spec [OF C(2) \<open>named did fs\<close> k \<open>NUL \<notin> set path\<close>, of w5 n] node(1) V
      by (auto simp: probe_def w5_def rust_simps)
    then obtain sz w' where p: "probe w5 = Done (sz, w')" "V (cst w') = V (cst w)"
      "sz = 0 \<or> file_type_of_mode m = RegularFile \<and> unat sz = length (i_data n)" by blast
    let ?md = "\<lparr>file_type = file_type_of_mode m, size' = sz, blocks = 0, mode = m AND 0xFFF, uid = u, gid = g,
       atime = u64_of_u32 at, mtime = u64_of_u32 mt, ctime = u64_of_u32 ct, nlink = 1\<rparr>"
    have "metadata L fs path w = Done (Inr ?md, w')"
      using True 1 2 3 4 5 p(1) mp
      by (simp add: metadata_def ffi_defs rust_simps try_st_def Let_def probe_def [symmetric] w5_def [symmetric] seq_st_def)
    moreover have "describes n ?md" using p(3) node(2) by (simp add: describes_def)
    ultimately show ?thesis using p(2) node(1) by blast
  qed
qed

lemma exists_refines:
  assumes C: "queries_contract V L" "probe_contract V L" and n: "named did fs"
    and key: "canonical (rel path)"
  shows "\<exists>b w'. exists_path L fs path w = Done (b, w') \<and> V (cst w') = V (cst w) \<and>
    (b \<longrightarrow> node_at (V (cst w) did) (rel path) \<noteq> None)"
proof -
  obtain r w' where "metadata L fs path w = Done (r, w')" "V (cst w') = V (cst w)"
    "\<forall>md. r = Inr md \<longrightarrow> (\<exists>n. node_at (V (cst w) did) (rel path) = Some n \<and> describes n md)"
    using metadata_refines [OF C n key] by blast
  then show ?thesis by (cases r) (auto simp: exists_path_def seq_st_def rust_simps)
qed

lemma raw_type_inject:
  "(ucast (FileType_to_raw a) :: i32) = ucast (FileType_to_raw b) \<longleftrightarrow> a = b"
  by (cases a; cases b) (simp_all add: de_defs)

lemma inode_check_refines:
  assumes C: "queries_contract V L" and n: "named did fs" and key: "canonical (rel path)"
  shows "\<exists>b w'. inode_check L fs path ty w = Done (b, w') \<and> V (cst w') = V (cst w) \<and>
    (b \<longrightarrow> is_type ty (node_at (V (cst w) did) (rel path)))"
proof (cases "NUL \<in> set path")
  case True
  with make_path_rel(2) [OF n this] show ?thesis by (auto simp: inode_check_def rust_simps)
next
  case False
  then have k: "c_key (rel path)" using key by (simp add: c_key_def rel_NUL)
  define raw :: i32 where "raw = ucast (FileType_to_raw ty)"
  obtain r s where 1: "l_inode_exist (path_fns L) (mp_name did @ rel path) raw (cst w) = (r, s)"
    by fastforce
  then have 2: "(case l_inode_exist (path_fns L) (mp_name did @ rel path) raw (cst w) of
      (r, w) \<Rightarrow> ((r, ()), w)) = ((r, ()), s)" by simp
  note a = answersD [OF queriesD(6) [OF C k] 2]
  have "is_type ty (node_at (V (cst w) did) (rel path))" if "r = 0"
    using a(2) [OF that] by (auto simp: is_type_def raw_def raw_type_inject)
  moreover have "inode_check L fs path ty w = Done (r = 0, w\<lparr>cst := s,
      calls := calls w @ [C_inode_exist (mp_name did @ rel path) raw]\<rparr>)"
    using 1 make_path_rel(1) [OF n False]
    by (simp add: inode_check_def ffi_defs rust_simps raw_def [symmetric])
  ultimately show ?thesis using a(1) by simp
qed

lemma readlink_refines:
  assumes C: "queries_contract V L" and n: "named did fs" and key: "canonical (rel path)"
  shows "\<exists>r w'. readlink L fs path w = Done (r, w') \<and> V (cst w') = V (cst w) \<and>
    (\<forall>target. r = Inr target \<longrightarrow> (\<exists>n. node_at (V (cst w) did) (rel path) = Some n \<and>
       file_type_of_mode (i_mode n) = Symlink \<and> bytes_of_str target = take 4096 (i_target n)))"
proof (cases "NUL \<in> set path")
  case True
  with make_path_rel(2) [OF n this] show ?thesis by (auto simp: readlink_def rust_simps)
next
  case False
  then have k: "c_key (rel path)" using key by (simp add: c_key_def rel_NUL)
  obtain r buf cnt s where 1:
    "l_readlink (path_fns L) (mp_name did @ rel path) (replicate 4096 0) 4096 0 (cst w) = ((r, buf, cnt), s)"
    by (metis surj_pair)
  have len: "slice_len (replicate 4096 0) = 4096" by (simp add: slice_len_def)
  note a = answersD [OF queriesD(7) [OF C k] 1]
  show ?thesis
  proof (cases "r = 0")
    case False
    then show ?thesis using 1 a(1) make_path_rel(1) [OF n \<open>NUL \<notin> set path\<close>]
      by (simp add: readlink_def ffi_defs rust_simps try_st_def Let_def len)
  next
    case True
    with a(2) obtain nd where nd: "node_at (V (cst w) did) (rel path) = Some nd"
      "file_type_of_mode (i_mode nd) = Symlink" "take (unat cnt) buf = take 4096 (i_target nd)" by auto
    then show ?thesis using True 1 a(1) make_path_rel(1) [OF n \<open>NUL \<notin> set path\<close>]
      by (auto simp: readlink_def ffi_defs rust_simps try_st_def Let_def len from_utf8_def
        split: option.splits if_splits)
  qed
qed

lemma call_refines:
  assumes C: "tree_contract V L" and n: "named did fs" and ok: "call_ok c"
  shows "\<exists>r w'. run_call L fs c w = Done (r, w') \<and> (\<forall>e. e \<noteq> did \<longrightarrow> V (cst w') e = V (cst w) e) \<and>
    ns_step (is_read_only fs) c (V (cst w) did) r (V (cst w') did)"
proof -
  have C': "changes_contract V L" "queries_contract V L" "probe_contract V L"
    using C by (simp_all add: tree_contract_def)
  have key: "canonical (rel path)" if "path \<in> set (call_paths c)" for path
    using that ok by (simp add: call_ok_def)
  show ?thesis
  proof (cases c)
    case (Change x)
    with change_refines [OF C'(1) n, of x w] ok show ?thesis by (fastforce simp: seq_st_def rust_simps)
  next
    case (AskExists path)
    with exists_refines [OF C'(2,3) n, of path w] key show ?thesis by (fastforce simp: seq_st_def rust_simps)
  next
    case (AskFile path)
    with inode_check_refines [OF C'(2) n, of path RegularFile w] key show ?thesis
      by (fastforce simp: seq_st_def rust_simps is_file_def)
  next
    case (AskDir path)
    with inode_check_refines [OF C'(2) n, of path Directory w] key show ?thesis
      by (fastforce simp: seq_st_def rust_simps is_dir_def)
  next
    case (AskMeta path)
    with metadata_refines [OF C'(2,3) n, of path w] key show ?thesis by (fastforce simp: seq_st_def rust_simps)
  next
    case (AskLink path)
    with readlink_refines [OF C'(2) n, of path w] key show ?thesis by (fastforce simp: seq_st_def rust_simps)
  qed
qed

lemma calls_refine:
  assumes C: "tree_contract V L" and "\<forall>(fs, c) \<in> set cs. (\<exists>did. named did fs) \<and> call_ok c"
  shows "\<exists>rs w'. run_calls L cs w = Done (rs, w') \<and> ns_run cs (V (cst w)) rs (V (cst w'))"
  using assms(2)
proof (induction cs arbitrary: w)
  case Nil
  then show ?case by (simp add: rust_simps ns_Nil)
next
  case (Cons x cs)
  obtain fs c where x: "x = (fs, c)" by fastforce
  with Cons.prems obtain did where n: "named did fs" and ok: "call_ok c" by auto
  obtain r w1 where 1: "run_call L fs c w = Done (r, w1)"
    "\<forall>e. e \<noteq> did \<longrightarrow> V (cst w1) e = V (cst w) e"
    "ns_step (is_read_only fs) c (V (cst w) did) r (V (cst w1) did)"
    using call_refines [OF C n ok] by blast
  have T: "(V (cst w))(did := V (cst w1) did) = V (cst w1)" using 1(2) by (auto simp: fun_eq_iff)
  obtain rs w2 where 2: "run_calls L cs w1 = Done (rs, w2)" "ns_run cs (V (cst w1)) rs (V (cst w2))"
    using Cons.IH Cons.prems by fastforce
  have "ns_run (x # cs) (V (cst w)) (r # rs) (V (cst w2))"
    unfolding x using 1(3) by (rule ns_Cons [where did = did and t = "V (cst w1) did", OF n]) (simp add: T 2(2))
  with 1(1) 2(1) x show ?case by (auto simp: seq_st_def rust_simps)
qed

end
