(* ===== verification/FileSession.thy ===== *)
theory FileSession
  imports FileProps "HOL-Library.Sublist"
begin

text \<open>
  An abstract specification of a file handle and its refinement: a handle is a content and a
  position; every method of \<open>file.rs\<close> is a step of that machine with its reply, and so is every
  sequence of them, over any library whose file functions behave as documented.
\<close>

section \<open>Sessions\<close>

text \<open>The methods that take \<open>&mut self\<close> and make one call, with their replies.\<close>

datatype file_op = OpRead bytes | OpWrite bytes | OpSeek SeekFrom | OpTruncate u64
  | OpPosition | OpSize | OpFlush

datatype file_reply = RepRead "error + usize" bytes | RepWrite "error + usize" | RepSeek "error + u64"
  | RepUnit "error + unit" | RepNumber u64

fun file_step :: "'w lwext4 \<Rightarrow> file_op \<Rightarrow> ('w file_state, file_reply) comp" where
  "file_step L (OpRead buf) = seq_st (File_read L buf) (\<lambda>(r, buf). ret_st (RepRead r buf))"
| "file_step L (OpWrite buf) = seq_st (File_write L buf) (\<lambda>r. ret_st (RepWrite r))"
| "file_step L (OpSeek s) = seq_st (File_seek L s) (\<lambda>r. ret_st (RepSeek r))"
| "file_step L (OpTruncate n) = seq_st (File_truncate L n) (\<lambda>r. ret_st (RepUnit r))"
| "file_step L OpPosition = seq_st (File_position L) (\<lambda>n. ret_st (RepNumber n))"
| "file_step L OpSize = seq_st (File_size L) (\<lambda>n. ret_st (RepNumber n))"
| "file_step L OpFlush = seq_st File_flush (\<lambda>r. ret_st (RepUnit r))"

fun file_session :: "'w lwext4 \<Rightarrow> file_op list \<Rightarrow> ('w file_state, file_reply list) comp" where
  "file_session L [] = ret_st []"
| "file_session L (op # ops) =
     seq_st (file_step L op) (\<lambda>r. seq_st (file_session L ops) (\<lambda>rs. ret_st (r # rs)))"

section \<open>The abstract file\<close>

text \<open>
  A content and a position. Reads and writes may be short; a failed write has written a prefix; a
  seek from the end goes where the library says. In append mode (\<open>ap\<close>) writes go to the end.
\<close>

type_synonym abs_file = "bytes \<times> nat"

definition at_write :: "bool \<Rightarrow> abs_file \<Rightarrow> nat" where
  "at_write ap a = (if ap then length (fst a) else snd a)"

fun abs_step :: "bool \<Rightarrow> file_op \<Rightarrow> abs_file \<Rightarrow> file_reply \<Rightarrow> abs_file \<Rightarrow> bool" where
  "abs_step ap (OpRead buf) (d, i) (RepRead (Inr k) out) (d', i') \<longleftrightarrow>
     d' = d \<and> length out = length buf \<and> unat k \<le> length buf \<and>
     take (unat k) out = slice i (unat k) d \<and> i' = i + unat k \<and>
     (k = 0 \<longrightarrow> buf = [] \<or> length d \<le> i)"
| "abs_step ap (OpRead buf) (d, i) (RepRead (Inl e) out) (d', i') \<longleftrightarrow> d' = d \<and> length out = length buf"
| "abs_step ap (OpWrite buf) (d, i) (RepWrite (Inr k)) (d', i') \<longleftrightarrow>
     unat k \<le> length buf \<and> d' = write_at (at_write ap (d, i)) (take (unat k) buf) d \<and>
     i' = at_write ap (d, i) + unat k"
| "abs_step ap (OpWrite buf) (d, i) (RepWrite (Inl e)) (d', i') \<longleftrightarrow>
     (\<exists>m \<le> length buf. d' = write_at (at_write ap (d, i)) (take m buf) d)"
| "abs_step ap (OpSeek s) (d, i) (RepSeek (Inr n)) (d', i') \<longleftrightarrow>
     d' = d \<and> i' = unat n \<and>
     (case s of Start m \<Rightarrow> n = m | Current k \<Rightarrow> int i' = int i + sint k | End k \<Rightarrow> True)"
| "abs_step ap (OpSeek s) (d, i) (RepSeek (Inl e)) (d', i') \<longleftrightarrow> d' = d"
| "abs_step ap (OpTruncate n) (d, i) (RepUnit (Inr u)) (d', i') \<longleftrightarrow>
     (d' = resize (unat n) d \<or> d' = d \<and> length d \<le> unat n) \<and> i' \<le> i"
| "abs_step ap (OpTruncate n) (d, i) (RepUnit (Inl e)) (d', i') \<longleftrightarrow> True"
| "abs_step ap OpPosition (d, i) (RepNumber n) (d', i') \<longleftrightarrow> d' = d \<and> i' = i \<and> unat n = i"
| "abs_step ap OpSize (d, i) (RepNumber n) (d', i') \<longleftrightarrow> d' = d \<and> i' = i \<and> unat n = length d"
| "abs_step ap OpFlush (d, i) (RepUnit (Inr u)) (d', i') \<longleftrightarrow> d' = d \<and> i' = i"
| "abs_step ap _ _ _ _ \<longleftrightarrow> False"

lemma abs_step_keeps:
  assumes "abs_step ap op a r a'" and "\<And>b. op \<noteq> OpWrite b" and "\<And>n. op \<noteq> OpTruncate n"
  shows "fst a' = fst a"
  using assms by (cases "(ap, op, a, r, a')" rule: abs_step.cases) auto

inductive abs_run :: "bool \<Rightarrow> file_op list \<Rightarrow> abs_file \<Rightarrow> file_reply list \<Rightarrow> abs_file \<Rightarrow> bool" where
  abs_Nil: "abs_run ap [] a [] a"
| abs_Cons: "abs_step ap op a r b \<Longrightarrow> abs_run ap ops b rs c \<Longrightarrow> abs_run ap (op # ops) a (r # rs) c"

inductive_cases abs_run_ConsE: "abs_run ap (op # ops) a rs b"

text \<open>
  Clients reason with the abstract file alone: what was written at a position and is read from there
  is what was written, as far as both transfers went.
\<close>

lemma slice_write_at:
  assumes "n \<le> length xs"
  shows "take n (slice i n (write_at i xs d)) = take n xs"
  using assms by (cases "xs = []") (simp_all add: write_at_def blit_def slice_def)

lemma write_seek_read:
  assumes "abs_run False [OpWrite xs, OpSeek (Start m), OpRead buf] (d, unat m)
      [RepWrite (Inr k), RepSeek (Inr n), RepRead (Inr j) out] b"
  shows "take (min (unat j) (unat k)) out = take (min (unat j) (unat k)) xs"
proof -
  obtain d1 i1 d2 i2 d3 i3 where
    "abs_step False (OpWrite xs) (d, unat m) (RepWrite (Inr k)) (d1, i1)"
    "abs_step False (OpSeek (Start m)) (d1, i1) (RepSeek (Inr n)) (d2, i2)"
    "abs_step False (OpRead buf) (d2, i2) (RepRead (Inr j) out) (d3, i3)"
    using assms by (auto elim!: abs_run_ConsE)
  then have *: "take (unat j) out = slice (unat m) (unat j) (write_at (unat m) (take (unat k) xs) d)"
    "unat k \<le> length xs" by (auto simp: at_write_def)
  define l where "l = min (unat j) (unat k)"
  have "take l out = take l (take (unat j) out)" by (simp add: l_def min_def)
  also have "\<dots> = take l (slice (unat m) l (write_at (unat m) (take (unat k) xs) d))"
    unfolding *(1) by (simp add: slice_def l_def min_def)
  also have "\<dots> = take l (take (unat k) xs)" using *(2) by (intro slice_write_at) (simp add: l_def)
  also have "\<dots> = take l xs" by (simp add: l_def min_def)
  finally show ?thesis unfolding l_def .
qed

section \<open>The contract\<close>

text \<open>
  Beyond the contracts of reading and writing: seeks from the start and from the position go where
  they are told, \<open>ext4_ftell\<close> is the position, \<open>ext4_ftruncate\<close> cuts the file and may or may not
  extend it, and none of the functions changes the flags of the handle.
\<close>

definition seeks_right :: "'w content \<Rightarrow> 'w lwext4 \<Rightarrow> bool" where
  "seeks_right C L \<longleftrightarrow> (\<forall>f off org w. let ((r, f'), w') = l_fseek (file_fns L) f off org w in
     C f' w' = C f w \<and> f_flags f' = f_flags f \<and>
     (r = 0 \<longrightarrow> (org = SEEK_SET \<longrightarrow> int (fpos f') = sint off) \<and>
                (org = SEEK_CUR \<longrightarrow> int (fpos f') = int (fpos f) + sint off)))"

definition tells_right :: "'w content \<Rightarrow> 'w lwext4 \<Rightarrow> bool" where
  "tells_right C L \<longleftrightarrow> (\<forall>f w. let (n, w') = l_ftell (file_fns L) f w in C f w' = C f w \<and> n = f_fpos f)"

definition truncates_right :: "'w content \<Rightarrow> 'w lwext4 \<Rightarrow> bool" where
  "truncates_right C L \<longleftrightarrow> (\<forall>f n w. let ((r, f'), w') = l_ftruncate (file_fns L) f n w in
     f_flags f' = f_flags f \<and>
     (r = 0 \<longrightarrow> fpos f' \<le> fpos f \<and>
        (C f' w' = resize (unat n) (C f w) \<or> C f' w' = C f w \<and> length (C f w) \<le> unat n)))"

definition read_keeps_flags :: "'w lwext4 \<Rightarrow> bool" where
  "read_keeps_flags L \<longleftrightarrow> (\<forall>f buf n w.
     let ((r, f', out, k), w') = l_fread (file_fns L) f buf n 0 w in f_flags f' = f_flags f)"

definition session_contract :: "'w content \<Rightarrow> 'w lwext4 \<Rightarrow> bool" where
  "session_contract C L \<longleftrightarrow> fread_contract C L \<and> fwrite_contract C L \<and> fsize_contract C L \<and>
     seeks_right C L \<and> tells_right C L \<and> truncates_right C L \<and> read_keeps_flags L"

lemma session_contractD:
  assumes "session_contract C L"
  shows "fread_contract C L" "fwrite_contract C L" "fsize_contract C L" "seeks_right C L"
    "tells_right C L" "truncates_right C L" "read_keeps_flags L"
  using assms by (simp_all add: session_contract_def)

lemma session_reads:
  assumes "session_contract C L"
  shows "read_contract C L"
proof -
  have "fseek_contract C L" unfolding fseek_contract_def
  proof (intro allI)
    fix f w
    obtain r f' w' where c: "l_fseek (file_fns L) f 0 SEEK_SET w = ((r, f'), w')" by (metis surj_pair)
    with session_contractD(4) [OF assms, unfolded seeks_right_def, rule_format, of f 0 SEEK_SET w]
    show "let ((r, f'), w') = l_fseek (file_fns L) f 0 SEEK_SET w in C f' w' = C f w \<and> (r = 0 \<longrightarrow> fpos f' = 0)"
      by (simp add: unat_eq_zero flip: uint_0_iff)
  qed
  with session_contractD(1,3) [OF assms] show ?thesis by (simp add: read_contract_def)
qed

section \<open>Refinement\<close>

definition abs_of :: "'w content \<Rightarrow> 'w file_state \<Rightarrow> abs_file" where
  "abs_of C st = (contents C st, position_of st)"

definition appends :: "'w file_state \<Rightarrow> bool" where
  "appends st \<longleftrightarrow> f_flags (inner (fst st)) AND O_APPEND \<noteq> 0"

fun op_fits :: "file_op \<Rightarrow> bool" where
  "op_fits (OpRead buf) \<longleftrightarrow> length buf \<le> isize_max"
| "op_fits (OpWrite buf) \<longleftrightarrow> length buf \<le> isize_max"
| "op_fits _ \<longleftrightarrow> True"

lemma read_step:
  assumes C: "session_contract C L" and "length buf \<le> isize_max"
  shows "\<exists>r out st'. File_read L buf st = Done ((r, out), st') \<and> appends st' = appends st \<and>
    abs_step (appends st) (OpRead buf) (abs_of C st) (RepRead r out) (abs_of C st')"
proof -
  have "length buf < 2 ^ 64" using assms(2) by (simp add: isize_max_def)
  then obtain r out st' where rd: "File_read L buf st = Done ((r, out), st')"
    "contents C st' = contents C st" "length out = length buf"
    "case r of Inl e \<Rightarrow> True
     | Inr k \<Rightarrow> unat k \<le> length buf \<and> unat k \<le> length (contents C st) - position_of st \<and>
         (k = 0 \<longrightarrow> buf = [] \<or> length (contents C st) \<le> position_of st) \<and>
         take (unat k) out = slice (position_of st) (unat k) (contents C st) \<and>
         position_of st' = position_of st + unat k"
    using File_read_spec [OF session_contractD(1) [OF C], of buf st] by blast
  obtain self w where st: "st = (self, w)" by (cases st)
  obtain x f' out' k s where c:
    "l_fread (file_fns L) (inner self) buf (slice_len buf) 0 (cst w) = ((x, f', out', k), s)"
    by (metis surj_pair)
  have "f_flags f' = f_flags (inner self)"
    using session_contractD(7) [OF C, unfolded read_keeps_flags_def, rule_format,
        of "inner self" buf "slice_len buf" "cst w"] c by simp
  then have "appends st' = appends st"
    using rd(1) c by (cases "x = 0") (auto simp: File_read_def st ffi_defs rust_simps appends_def)
  with rd show ?thesis by (cases r) (auto simp: abs_of_def)
qed

lemma write_step:
  assumes C: "session_contract C L"
  shows "\<exists>r st'. File_write L buf st = Done (r, st') \<and> appends st' = appends st \<and>
    abs_step (appends st) (OpWrite buf) (abs_of C st) (RepWrite r) (abs_of C st')"
proof -
  have "start_of C st = at_write (appends st) (abs_of C st)"
    by (simp add: start_of_def write_start_def at_write_def appends_def abs_of_def position_of_def)
  moreover from File_write_spec [OF session_contractD(2) [OF C], of buf st] obtain r st' m where
    "File_write L buf st = Done (r, st')" "m \<le> length buf"
    "contents C st' = write_at (start_of C st) (take m buf) (contents C st)"
    "f_flags (inner (fst st')) = f_flags (inner (fst st))"
    "case r of Inl e \<Rightarrow> True | Inr k \<Rightarrow> m = unat k \<and> position_of st' = start_of C st + unat k \<and>
       start_of C st' = start_of C st + unat k"
    by blast
  ultimately show ?thesis by (cases r) (auto simp: abs_of_def appends_def)
qed

lemma position_step:
  assumes C: "session_contract C L"
  shows "\<exists>n st'. File_position L st = Done (n, st') \<and> appends st' = appends st \<and>
    abs_of C st' = abs_of C st \<and> unat n = position_of st"
proof -
  obtain self w where st: "st = (self, w)" by (cases st)
  obtain n s where c: "l_ftell (file_fns L) (inner self) (cst w) = (n, s)" by fastforce
  then show ?thesis
    using session_contractD(5) [OF C, unfolded tells_right_def, rule_format, of "inner self" "cst w"]
    by (auto simp: File_position_def st ffi_defs rust_simps abs_of_def contents_def position_of_def
        appends_def)
qed

lemma size_step:
  assumes C: "session_contract C L"
  shows "\<exists>n st'. File_size L st = Done (n, st') \<and> appends st' = appends st \<and>
    abs_of C st' = abs_of C st \<and> unat n = length (contents C st)"
proof -
  obtain self w where st: "st = (self, w)" by (cases st)
  obtain n s where c: "l_fsize (file_fns L) (inner self) (cst w) = (n, s)" by fastforce
  then show ?thesis
    using session_contractD(3) [OF C, unfolded fsize_contract_def, rule_format, of "inner self" "cst w"]
    by (auto simp: File_size_def st ffi_defs rust_simps abs_of_def contents_def position_of_def
        appends_def)
qed

lemma seek_step:
  assumes C: "session_contract C L"
  shows "\<exists>r st'. File_seek L pos st = Done (r, st') \<and> appends st' = appends st \<and>
    abs_step (appends st) (OpSeek pos) (abs_of C st) (RepSeek r) (abs_of C st')"
proof -
  obtain self w where st: "st = (self, w)" by (cases st)
  obtain off org where raw: "SeekFrom_to_raw pos = (off, org)" by fastforce
  obtain x f' s where c: "l_fseek (file_fns L) (inner self) off org (cst w) = ((x, f'), s)"
    by (metis surj_pair)
  define st1 where "st1 = (self\<lparr>inner := f'\<rparr>, w\<lparr>cst := s, calls := calls w @ [C_fseek (inner self) off org]\<rparr>)"
  have k: "C f' s = C (inner self) (cst w)" "f_flags f' = f_flags (inner self)"
    "x = 0 \<longrightarrow> (org = SEEK_SET \<longrightarrow> int (fpos f') = sint off) \<and>
      (org = SEEK_CUR \<longrightarrow> int (fpos f') = int (fpos (inner self)) + sint off)"
    using session_contractD(4) [OF C, unfolded seeks_right_def, rule_format, of "inner self" off org "cst w"] c
    by simp_all
  have st1: "appends st1 = appends st" "contents C st1 = contents C st" "position_of st1 = fpos f'"
    using k(1,2) by (simp_all add: st1_def st appends_def contents_def position_of_def)
  show ?thesis
  proof (cases "x = 0")
    case False
    then have "File_seek L pos st = Done (Inl (err_of x), st1)"
      using c by (simp add: File_seek_def st raw ffi_defs rust_simps st1_def try_st_def)
    with st1 show ?thesis by (auto simp: abs_of_def)
  next
    case True
    obtain n st2 where t: "File_position L st1 = Done (n, st2)" "appends st2 = appends st1"
      "abs_of C st2 = abs_of C st1" "unat n = position_of st1"
      using position_step [OF C] by blast
    have "File_seek L pos st = Done (Inr n, st2)"
      using True c t(1)
      by (simp add: File_seek_def st raw ffi_defs rust_simps st1_def try_st_def seq_st_def)
    moreover have "case pos of Start m \<Rightarrow> n = m
        | Current i \<Rightarrow> int (unat n) = int (position_of st) + sint i | End i \<Rightarrow> True"
      using raw k(3) True t(4) st1(3) unat_of_sint [of n]
      by (cases pos) (auto simp: st position_of_def)
    ultimately show ?thesis using t st1 by (auto simp: abs_of_def split: SeekFrom.splits)
  qed
qed

lemma truncate_step:
  assumes C: "session_contract C L"
  shows "\<exists>r st'. File_truncate L n st = Done (r, st') \<and> appends st' = appends st \<and>
    abs_step (appends st) (OpTruncate n) (abs_of C st) (RepUnit r) (abs_of C st')"
proof -
  obtain self w where st: "st = (self, w)" by (cases st)
  obtain x f' s where c: "l_ftruncate (file_fns L) (inner self) n (cst w) = ((x, f'), s)"
    by (metis surj_pair)
  then show ?thesis
    using session_contractD(6) [OF C, unfolded truncates_right_def, rule_format, of "inner self" n "cst w"]
    by (cases "x = 0")
      (auto simp: File_truncate_def st ffi_defs rust_simps abs_of_def contents_def position_of_def
        appends_def)
qed

lemma file_step_refines:
  assumes C: "session_contract C L" and "op_fits op"
  shows "\<exists>r st'. file_step L op st = Done (r, st') \<and> appends st' = appends st \<and>
    abs_step (appends st) op (abs_of C st) r (abs_of C st')"
proof (cases op)
  case (OpRead buf)
  with assms(2) read_step [OF C, of buf st] show ?thesis by (fastforce simp: seq_st_def rust_simps)
next
  case (OpWrite buf)
  with write_step [OF C, of buf st] show ?thesis by (fastforce simp: seq_st_def rust_simps)
next
  case (OpSeek pos)
  with seek_step [OF C, of pos st] show ?thesis by (fastforce simp: seq_st_def rust_simps)
next
  case (OpTruncate n)
  with truncate_step [OF C, of n st] show ?thesis by (fastforce simp: seq_st_def rust_simps)
next
  case OpPosition
  with position_step [OF C, of st] show ?thesis
    by (fastforce simp: seq_st_def rust_simps abs_of_def)
next
  case OpSize
  with size_step [OF C, of st] show ?thesis
    by (fastforce simp: seq_st_def rust_simps abs_of_def)
next
  case OpFlush
  then show ?thesis by (simp add: seq_st_def rust_simps File_flush_def abs_of_def)
qed

lemma session_refines:
  assumes "session_contract C L" and "\<forall>op \<in> set ops. op_fits op"
  shows "\<exists>rs st'. file_session L ops st = Done (rs, st') \<and> appends st' = appends st \<and>
    abs_run (appends st) ops (abs_of C st) rs (abs_of C st')"
  using assms(2)
proof (induction ops arbitrary: st)
  case Nil
  then show ?case by (simp add: rust_simps abs_Nil)
next
  case (Cons op ops)
  obtain r st1 where 1: "file_step L op st = Done (r, st1)" "appends st1 = appends st"
    "abs_step (appends st) op (abs_of C st) r (abs_of C st1)"
    using file_step_refines [OF assms(1), of op st] Cons.prems by auto
  obtain rs st2 where 2: "file_session L ops st1 = Done (rs, st2)" "appends st2 = appends st"
    "abs_run (appends st) ops (abs_of C st1) rs (abs_of C st2)"
    using Cons.IH [of st1] Cons.prems 1(2) by auto
  from 1 2 show ?case
    by (intro exI [of _ "r # rs"] exI [of _ st2]) (simp add: seq_st_def rust_simps abs_Cons)
qed

section \<open>A library that keeps the contract\<close>

definition sess_fseek :: "ext4_file \<Rightarrow> i64 \<Rightarrow> u32 \<Rightarrow> (bytes, i32 \<times> ext4_file) cfun" where
  "sess_fseek f off origin w =
     (let target = (if origin = SEEK_CUR then int (fpos f) + sint off else sint off) in
      if 0 \<le> target \<and> target < 2 ^ 64 then ((0, f\<lparr>f_fpos := word_of_int target\<rparr>), w)
      else ((EINVAL, f), w))"

definition sess_ftruncate :: "ext4_file \<Rightarrow> u64 \<Rightarrow> (bytes, i32 \<times> ext4_file) cfun" where
  "sess_ftruncate f n w =
     (if isize_max < unat n then ((ENOSPC, f), w) else ((0, f), resize (unat n) w))"

definition sess_file :: "bytes lwext4" where
  "sess_file = one_file\<lparr>file_fns := (file_fns one_file)\<lparr>l_fseek := sess_fseek,
     l_ftruncate := sess_ftruncate\<rparr>\<rparr>"

lemma sess_file_sel:
  "l_fseek (file_fns sess_file) = sess_fseek" "l_fread (file_fns sess_file) = l_fread (file_fns one_file)"
  "l_fwrite (file_fns sess_file) = l_fwrite (file_fns one_file)"
  "l_fsize (file_fns sess_file) = l_fsize (file_fns one_file)"
  "l_ftell (file_fns sess_file) = l_ftell (file_fns one_file)"
  "l_ftruncate (file_fns sess_file) = sess_ftruncate"
  by (simp_all add: sess_file_def)

lemma sess_fseek_right: "seeks_right one_content sess_file"
  unfolding seeks_right_def
proof (intro allI)
  fix f :: ext4_file and off :: i64 and org :: u32 and w :: bytes
  define t where "t = (if org = SEEK_CUR then int (fpos f) + sint off else sint off)"
  have neq: "SEEK_SET \<noteq> SEEK_CUR" by (simp add: seek_defs)
  show "let ((r, f'), w') = l_fseek (file_fns sess_file) f off org w in
      one_content f' w' = one_content f w \<and> f_flags f' = f_flags f \<and>
      (r = 0 \<longrightarrow> (org = SEEK_SET \<longrightarrow> int (fpos f') = sint off) \<and>
        (org = SEEK_CUR \<longrightarrow> int (fpos f') = int (fpos f) + sint off))"
  proof (cases "0 \<le> t \<and> t < 2 ^ 64")
    case True
    define x :: u64 where "x = word_of_int t"
    have "int (unat x) = t" using True by (simp add: x_def uint_word_of_int)
    moreover have "sess_fseek f off org w = ((0, f\<lparr>f_fpos := x\<rparr>), w)"
      using True by (simp add: sess_fseek_def Let_def t_def [symmetric] x_def)
    moreover have "org = SEEK_SET \<longrightarrow> t = sint off" "org = SEEK_CUR \<longrightarrow> t = int (fpos f) + sint off"
      using neq by (auto simp: t_def)
    ultimately show ?thesis by (simp add: sess_file_sel one_content_def del: of_nat_unat)
  next
    case False
    then have "sess_fseek f off org w = ((EINVAL, f), w)"
      unfolding sess_fseek_def Let_def t_def [symmetric] by (simp only: if_False)
    then show ?thesis by (simp add: sess_file_sel one_content_def EINVAL_def)
  qed
qed

lemma sess_file_contract: "session_contract one_content sess_file"
proof -
  have "fread_contract one_content sess_file" "fsize_contract one_content sess_file"
    using one_file_reads
    by (simp_all add: read_contract_def fread_contract_def fsize_contract_def sess_file_sel)
  moreover have "fwrite_contract one_content sess_file"
    using one_file_writes by (simp add: fwrite_contract_def sess_file_sel)
  moreover have "tells_right one_content sess_file" "read_keeps_flags sess_file"
    by (simp_all add: tells_right_def read_keeps_flags_def sess_file_sel one_file_def one_content_def
        one_fread_def Let_def)
  moreover have "truncates_right one_content sess_file"
    by (auto simp: truncates_right_def sess_file_sel sess_ftruncate_def one_content_def resize_def
        ENOSPC_def min_def)
  ultimately show ?thesis using sess_fseek_right by (simp add: session_contract_def)
qed

section \<open>Property\<close>

text \<open>
  C17: file handles refine an abstract file: over any library whose file functions behave as
  documented, with short transfers and failing calls anywhere, every sequence of reads, writes,
  seeks, truncations, position and size queries on a handle returns without a panic, and its replies
  are those of a byte sequence with a position, whose writes go to the position, or in append mode
  to the end.
\<close>

theorem file_session_refines:
  assumes "session_contract C L" and "\<forall>op \<in> set ops. op_fits op"
  shows "\<exists>rs st'. file_session L ops st = Done (rs, st') \<and> appends st' = appends st \<and>
    abs_run (appends st) ops (abs_of C st) rs (abs_of C st')"
  by (rule session_refines [OF assms])

theorem file_session_refines_witness:
  "\<exists>rs st'. file_session sess_file [OpWrite [7, 8, 9], OpSeek (Start 0), OpRead [0, 0], OpTruncate 1]
       (one_state [1]) = Done (rs, st') \<and>
     abs_run False [OpWrite [7, 8, 9], OpSeek (Start 0), OpRead [0, 0], OpTruncate 1] ([1], 0) rs
       (abs_of one_content st')"
proof -
  have d: "abs_of one_content (one_state [1]) = ([1], 0)" "\<not> appends (one_state [1])"
    by (simp_all add: abs_of_def contents_def one_state_def one_content_def isize_max_def position_of_def
        appends_def one_handle_def ext4_file_default_def)
  show ?thesis
    using file_session_refines [OF sess_file_contract,
        of "[OpWrite [7, 8, 9], OpSeek (Start 0), OpRead [0, 0], OpTruncate 1]" "one_state [1]"]
    by (auto simp: d isize_max_def)
qed

section \<open>Append mode\<close>

definition append_state :: "bytes file_state" where
  "append_state = (one_handle\<lparr>inner := (inner one_handle)\<lparr>f_flags := O_APPEND\<rparr>\<rparr>, snd (one_state [1, 2, 3]))"

lemma prefix_write_at_end: "prefix d (write_at (length d) xs d)"
  by (auto simp: write_at_def blit_def)

lemma append_step_grows:
  assumes "abs_step True op a r b" and "\<And>n. op \<noteq> OpTruncate n"
  shows "prefix (fst a) (fst b)"
proof (cases op)
  case (OpWrite buf)
  obtain d i d' i' where "a = (d, i)" "b = (d', i')" by (cases a, cases b)
  with assms(1) OpWrite show ?thesis
    by (cases r rule: file_reply.exhaust) (auto simp: at_write_def prefix_write_at_end split: sum.splits
      elim!: abs_step.elims(2))
qed (use abs_step_keeps [OF assms(1)] assms(2) in auto)

lemma append_run_grows:
  "abs_run True ops a rs b \<Longrightarrow> \<forall>n. OpTruncate n \<notin> set ops \<Longrightarrow> prefix (fst a) (fst b)"
  by (induction True ops a rs b rule: abs_run.induct)
    (auto intro: prefix_order.trans dest: append_step_grows)

text \<open>
  C18: appending never overwrites: over any library whose file functions behave as documented, whatever
  sequence of reads, writes, seeks and queries runs on a handle in append mode, with short transfers
  and failing calls anywhere, what was in the file is still there, unchanged and in front.
\<close>

theorem appending_never_overwrites:
  assumes "session_contract C L" and "appends st" and "\<forall>op \<in> set ops. op_fits op"
    and "\<forall>n. OpTruncate n \<notin> set ops"
  shows "\<exists>rs st'. file_session L ops st = Done (rs, st') \<and> prefix (contents C st) (contents C st')"
proof -
  obtain rs st' where "file_session L ops st = Done (rs, st')"
    "abs_run True ops (abs_of C st) rs (abs_of C st')"
    using session_refines [OF assms(1,3)] assms(2) by (metis (full_types))
  with append_run_grows [OF this(2) assms(4)] show ?thesis by (auto simp: abs_of_def)
qed

theorem appending_never_overwrites_witness:
  "\<exists>rs st'. file_session sess_file [OpSeek (Start 0), OpWrite [7, 8]] append_state = Done (rs, st') \<and>
     prefix [1, 2, 3] (contents one_content st')"
proof -
  have a: "appends append_state" "contents one_content append_state = [1, 2, 3]"
    by (simp_all add: append_state_def appends_def contents_def one_content_def one_state_def O_APPEND_def
      isize_max_def)
  then show ?thesis
    using appending_never_overwrites [OF sess_file_contract a(1), of "[OpSeek (Start 0), OpWrite [7, 8]]"]
    by (auto simp: isize_max_def)
qed

end
