(* ===== verification/Store.thy ===== *)
theory Store
  imports FsTree FileSession
begin

text \<open>
  The whole interface of mounted file systems at once: path operations and queries on any number of
  mounts, and any number of files open on them. Its specification is a store: one tree for each
  mount, whose inodes carry the bytes of the files, and a list of handles, each a position in the
  file of an inode. Handles on one file share its bytes, under whatever names and whatever happens to
  the names.
\<close>

section \<open>The bytes of an inode\<close>

definition file_data :: "fstree \<Rightarrow> nat \<Rightarrow> bytes" where
  "file_data t i = (case inodes t i of None \<Rightarrow> [] | Some n \<Rightarrow> i_data n)"

definition set_data :: "nat \<Rightarrow> bytes \<Rightarrow> fstree \<Rightarrow> fstree" where
  "set_data i d t = (case inodes t i of None \<Rightarrow> t
     | Some n \<Rightarrow> t\<lparr>inodes := (inodes t)(i \<mapsto> n\<lparr>i_data := d\<rparr>)\<rparr>)"

text \<open>An inode that still has a name, and whose bytes a vector can hold.\<close>

definition live :: "fstree \<Rightarrow> nat \<Rightarrow> bool" where
  "live t i \<longleftrightarrow> i \<in> ran (entries t) \<and> inodes t i \<noteq> None"

definition usable :: "fstree \<Rightarrow> nat \<Rightarrow> bool" where
  "usable t i \<longleftrightarrow> live t i \<and> length (file_data t i) \<le> isize_max"

lemma set_data_entries [simp]: "entries (set_data i d t) = entries t"
  by (simp add: set_data_def split: option.split)

lemma set_data_inodes: "inodes (set_data i d t) j =
    (if j = i then map_option (\<lambda>n. n\<lparr>i_data := d\<rparr>) (inodes t i) else inodes t j)"
  by (simp add: set_data_def split: option.split)

lemma file_data_set_data: "inodes t i \<noteq> None \<Longrightarrow> file_data (set_data i d t) i = d"
  by (auto simp: file_data_def set_data_inodes)

lemma file_data_set_other: "j \<noteq> i \<Longrightarrow> file_data (set_data i d t) j = file_data t j"
  by (simp add: file_data_def set_data_inodes)

lemma set_data_set_data [simp]: "set_data i d (set_data i e t) = set_data i d t"
  by (auto simp: set_data_def split: option.split)

lemma set_data_same [simp]: "set_data i (file_data t i) t = t"
  by (auto simp: set_data_def file_data_def map_upd_triv split: option.split)

lemma live_set_data [simp]: "live (set_data i d t) j \<longleftrightarrow> live t j"
  by (simp add: live_def set_data_inodes)

section \<open>The contract\<close>

text \<open>
  A C handle belongs to a mount (\<open>mnt\<close>) and to the inode in its field. The contract is for a period
  in which nothing is mounted or unmounted. It says nothing of a handle whose file was removed.
\<close>

definition ino :: "ext4_file \<Rightarrow> nat" where
  "ino f = unat (f_inode f)"

definition same_file :: "(ext4_file \<Rightarrow> u64) \<Rightarrow> ext4_file \<Rightarrow> ext4_file \<Rightarrow> bool" where
  "same_file mnt f f' \<longleftrightarrow> mnt f' = mnt f \<and> f_inode f' = f_inode f \<and> f_flags f' = f_flags f"

text \<open>What the file functions see are the bytes of the inode.\<close>

definition handles_see :: "'w forest \<Rightarrow> 'w content \<Rightarrow> (ext4_file \<Rightarrow> u64) \<Rightarrow> bool" where
  "handles_see V C mnt \<longleftrightarrow>
     (\<forall>f w. usable (V w (mnt f)) (ino f) \<longrightarrow> C f w = file_data (V w (mnt f)) (ino f))"

definition reads_local :: "'w forest \<Rightarrow> (ext4_file \<Rightarrow> u64) \<Rightarrow> 'w lwext4 \<Rightarrow> bool" where
  "reads_local V mnt L \<longleftrightarrow> (\<forall>f w. live (V w (mnt f)) (ino f) \<longrightarrow>
     (\<forall>buf n. let ((r, f', out, k), w') = l_fread (file_fns L) f buf n 0 w in V w' = V w \<and> same_file mnt f f') \<and>
     (\<forall>off org. let ((r, f'), w') = l_fseek (file_fns L) f off org w in V w' = V w \<and> same_file mnt f f') \<and>
     V (snd (l_ftell (file_fns L) f w)) = V w)"

text \<open>Writing and truncating change the bytes of the one inode, and nothing else.\<close>

definition writes_local :: "'w forest \<Rightarrow> 'w content \<Rightarrow> (ext4_file \<Rightarrow> u64) \<Rightarrow> 'w lwext4 \<Rightarrow> bool" where
  "writes_local V C mnt L \<longleftrightarrow> (\<forall>f w. live (V w (mnt f)) (ino f) \<longrightarrow>
     (\<forall>buf n. let ((r, f', k), w') = l_fwrite (file_fns L) f buf n 0 w in
        same_file mnt f f' \<and> V w' = (V w)(mnt f := set_data (ino f) (C f' w') (V w (mnt f)))) \<and>
     (\<forall>n. let ((r, f'), w') = l_ftruncate (file_fns L) f n w in
        same_file mnt f f' \<and> V w' = (V w)(mnt f := set_data (ino f) (C f' w') (V w (mnt f)))))"

text \<open>
  Opening finds the file, cut to nothing if asked, or makes it. A failed call that may not create or
  truncate changes nothing.
\<close>

definition file_opened :: "i32 \<Rightarrow> string \<Rightarrow> nat \<Rightarrow> fstree \<Rightarrow> fstree \<Rightarrow> bool" where
  "file_opened fl k i t t' \<longleftrightarrow> entries t' k = Some i \<and>
     (case node_at t k of
        Some n \<Rightarrow> t' = (if raw_has fl O_TRUNC then set_data i [] t else t) \<and>
          \<not> (raw_has fl O_CREAT \<and> raw_has fl O_EXCL)
      | None \<Rightarrow> raw_has fl O_CREAT \<and> touched {k} t t' \<and>
          (\<exists>n. node_at t' k = Some n \<and> file_type_of_mode (i_mode n) = RegularFile \<and> i_data n = []))"

definition open_failed :: "i32 \<Rightarrow> string \<Rightarrow> fstree \<Rightarrow> fstree \<Rightarrow> bool" where
  "open_failed fl k t t' \<longleftrightarrow>
     (if raw_has fl O_CREAT \<or> raw_has fl O_TRUNC then touched {k} t t' else t' = t)"

definition opens_right :: "'w forest \<Rightarrow> (ext4_file \<Rightarrow> u64) \<Rightarrow> 'w lwext4 \<Rightarrow> bool" where
  "opens_right V mnt L \<longleftrightarrow> (\<forall>did k fl f w. c_key k \<longrightarrow>
     (let ((r, f'), w') = l_fopen2 (file_fns L) f (mp_name did @ k) fl w in
      (\<forall>e. e \<noteq> did \<longrightarrow> V w' e = V w e) \<and>
      (if r = 0 then mnt f' = did \<and> file_opened fl k (ino f') (V w did) (V w' did) \<and>
         (f_flags f' AND O_APPEND \<noteq> 0 \<longleftrightarrow> raw_has fl O_APPEND) \<and>
         (raw_has fl O_APPEND \<or> fpos f' = 0)
       else open_failed fl k (V w did) (V w' did))))"

definition store_contract ::
  "'w forest \<Rightarrow> 'w content \<Rightarrow> (ext4_file \<Rightarrow> u64) \<Rightarrow> 'w lwext4 \<Rightarrow> bool" where
  "store_contract V C mnt L \<longleftrightarrow> tree_contract V L \<and> session_contract C L \<and> handles_see V C mnt \<and>
     reads_local V mnt L \<and> writes_local V C mnt L \<and> opens_right V mnt L"

lemma store_contractD:
  assumes "store_contract V C mnt L"
  shows "tree_contract V L" "session_contract C L" "handles_see V C mnt" "reads_local V mnt L"
    "writes_local V C mnt L" "opens_right V mnt L" "probe_contract V L"
  using assms by (simp_all add: store_contract_def tree_contract_def)

section \<open>Programs\<close>

text \<open>
  A program has a list of handles, and names them by their index. Using an index that holds no file
  does nothing; a Rust program has no such call.
\<close>

datatype api_call = Names Ext4Fs ns_call | OpenFile Ext4Fs string OpenFlags | OnFile nat file_op
  | ReadAll nat bytes | WriteAll nat bytes | CloseFile nat

fun used_file :: "api_call \<Rightarrow> nat option" where
  "used_file (OnFile n op) = Some n"
| "used_file (ReadAll n buf) = Some n"
| "used_file (WriteAll n buf) = Some n"
| "used_file (CloseFile n) = Some n"
| "used_file _ = None"

datatype api_reply = NsReply ns_reply | Opened "error + nat" | FileReply file_reply
  | ReadAllReply "error + usize" bytes | WriteAllReply "error + unit" | Closed | NoFile

type_synonym 'w program = "File option list \<times> 'w world"

definition file_at :: "'a option list \<Rightarrow> nat \<Rightarrow> 'a option" where
  "file_at H n = (if n < length H then H ! n else None)"

definition on_file ::
  "('r \<Rightarrow> api_reply) \<Rightarrow> ('w file_state \<Rightarrow> ('r \<times> 'w file_state) rust option) \<Rightarrow> nat \<Rightarrow> 'w program \<Rightarrow>
   (api_reply \<times> 'w program) rust option" where
  "on_file k g n = (\<lambda>(H, w). case file_at H n of
     None \<Rightarrow> Some (Done (NoFile, (H, w)))
   | Some f \<Rightarrow> map_option (\<lambda>m. bind_rust m (\<lambda>(r, (f, w)). Done (k r, (H[n := Some f], w)))) (g (f, w)))"

fun api_exec :: "profile \<Rightarrow> 'w lwext4 \<Rightarrow> api_call \<Rightarrow> 'w program \<Rightarrow> (api_reply \<times> 'w program) rust option" where
  "api_exec p L (Names fs c) (H, w) =
     Some (bind_rust (run_call L fs c w) (\<lambda>(r, w). Done (NsReply r, (H, w))))"
| "api_exec p L (OpenFile fs path flags) (H, w) =
     Some (bind_rust (open_file L fs path flags w) (\<lambda>(r, w). Done (case r of
       Inl e \<Rightarrow> (Opened (Inl e), (H, w))
     | Inr f \<Rightarrow> (Opened (Inr (length H)), (H @ [Some f], w)))))"
| "api_exec p L (OnFile n op) s = on_file FileReply (\<lambda>st. Some (file_step L op st)) n s"
| "api_exec p L (ReadAll n buf) s = on_file (\<lambda>(r, out). ReadAllReply r out) (File_read_to_end p L buf) n s"
| "api_exec p L (WriteAll n buf) s = on_file WriteAllReply (File_write_all p L buf) n s"
| "api_exec p L (CloseFile n) (H, w) = (case file_at H n of
     None \<Rightarrow> Some (Done (NoFile, (H, w)))
   | Some f \<Rightarrow> Some (bind_rust (File_drop L f w) (\<lambda>(u, w). Done (Closed, (H[n := None], w)))))"

fun run_api ::
  "profile \<Rightarrow> 'w lwext4 \<Rightarrow> api_call list \<Rightarrow> 'w program \<Rightarrow> (api_reply list \<times> 'w program) rust option" where
  "run_api p L [] s = Some (Done ([], s))"
| "run_api p L (c # cs) s = (case api_exec p L c s of
     None \<Rightarrow> None
   | Some Panic \<Rightarrow> Some Panic
   | Some (Done (r, s)) \<Rightarrow> map_option (\<lambda>m. bind_rust m (\<lambda>(rs, s). Done (r # rs, s))) (run_api p L cs s))"

section \<open>The abstract store\<close>

record afile =
  af_mount :: u64
  af_ino :: nat
  af_pos :: nat
  af_append :: bool

type_synonym astore = "(u64 \<Rightarrow> fstree) \<times> afile option list"

definition data_at :: "(u64 \<Rightarrow> fstree) \<Rightarrow> afile \<Rightarrow> bytes" where
  "data_at T a = file_data (T (af_mount a)) (af_ino a)"

definition put_data :: "afile \<Rightarrow> bytes \<Rightarrow> (u64 \<Rightarrow> fstree) \<Rightarrow> (u64 \<Rightarrow> fstree)" where
  "put_data a d T = T(af_mount a := set_data (af_ino a) d (T (af_mount a)))"

text \<open>
  The steps of the store. The position is left open after a failed call and after reading a whole
  file.
\<close>

inductive store_step :: "api_call \<Rightarrow> astore \<Rightarrow> api_reply \<Rightarrow> astore \<Rightarrow> bool" where
  st_names: "named did fs \<Longrightarrow> ns_step (is_read_only fs) c (T did) r t \<Longrightarrow>
    store_step (Names fs c) (T, H) (NsReply r) (T(did := t), H)"
| st_open: "named did fs \<Longrightarrow> NUL \<notin> set path \<Longrightarrow>
    file_opened (OpenFlags_to_raw flags) (rel path) (af_ino a) (T did) t \<Longrightarrow>
    af_mount a = did \<Longrightarrow> af_append a = contains flags APPEND \<Longrightarrow>
    af_append a \<or> af_pos a = 0 \<Longrightarrow>
    store_step (OpenFile fs path flags) (T, H) (Opened (Inr (length H))) (T(did := t), H @ [Some a])"
| st_open_failed: "named did fs \<Longrightarrow>
    (if NUL \<in> set path then t = T did else open_failed (OpenFlags_to_raw flags) (rel path) (T did) t) \<Longrightarrow>
    store_step (OpenFile fs path flags) (T, H) (Opened (Inl e)) (T(did := t), H)"
| st_file: "file_at H n = Some a \<Longrightarrow> abs_step (af_append a) op (data_at T a, af_pos a) r (d, i) \<Longrightarrow>
    store_step (OnFile n op) (T, H) (FileReply r) (put_data a d T, H[n := Some (a\<lparr>af_pos := i\<rparr>)])"
| st_read_all: "file_at H n = Some a \<Longrightarrow>
    (\<forall>m. r = Inr m \<longrightarrow> k = length (data_at T a) \<and> unat m = length (data_at T a)) \<Longrightarrow>
    store_step (ReadAll n buf) (T, H) (ReadAllReply r (buf @ take k (data_at T a)))
      (T, H[n := Some (a\<lparr>af_pos := i\<rparr>)])"
| st_write_all: "file_at H n = Some a \<Longrightarrow> at = at_write (af_append a) (data_at T a, af_pos a) \<Longrightarrow>
    m \<le> length buf \<Longrightarrow>
    (r = Inr () \<longrightarrow> m = length buf \<and> (buf \<noteq> [] \<longrightarrow> i = at + length buf)) \<Longrightarrow>
    store_step (WriteAll n buf) (T, H) (WriteAllReply r)
      (put_data a (write_at at (take m buf) (data_at T a)) T, H[n := Some (a\<lparr>af_pos := i\<rparr>)])"
| st_close: "file_at H n = Some a \<Longrightarrow> store_step (CloseFile n) (T, H) Closed (T, H[n := None])"
| st_no_file: "used_file c = Some n \<Longrightarrow> file_at H n = None \<Longrightarrow>
    store_step c (T, H) NoFile (T, H)"

inductive_cases store_step_OpenE [consumes 1, case_names opened failed no_file]: "store_step (OpenFile fs path flags) s r s'"
inductive_cases store_step_NamesE: "store_step (Names fs c) s r s'"
inductive_cases store_step_ReadAllE: "store_step (ReadAll n buf) s r s'"
inductive_cases store_step_WriteAllE: "store_step (WriteAll n buf) s r s'"
inductive_cases store_step_CloseE: "store_step (CloseFile n) s r s'"

inductive store_run :: "api_call list \<Rightarrow> astore \<Rightarrow> api_reply list \<Rightarrow> astore \<Rightarrow> bool" where
  sr_Nil: "store_run [] s [] s"
| sr_Cons: "store_step c s r s' \<Longrightarrow> store_run cs s' rs s'' \<Longrightarrow> store_run (c # cs) s (r # rs) s''"

inductive_cases store_run_ConsE: "store_run (c # cs) s rs s'"

text \<open>
  A call through a handle whose file has lost its last name, or is too large for a vector: of it,
  and of what follows, nothing is promised.
\<close>

fun misuse :: "api_call \<Rightarrow> astore \<Rightarrow> bool" where
  "misuse (OnFile n op) (T, H) \<longleftrightarrow>
     (case file_at H n of None \<Rightarrow> False | Some a \<Rightarrow> \<not> usable (T (af_mount a)) (af_ino a))"
| "misuse (ReadAll n buf) (T, H) \<longleftrightarrow>
     (case file_at H n of None \<Rightarrow> False | Some a \<Rightarrow> \<not> usable (T (af_mount a)) (af_ino a) \<or>
        isize_max < length buf + length (data_at T a))"
| "misuse (WriteAll n buf) (T, H) \<longleftrightarrow>
     (case file_at H n of None \<Rightarrow> False | Some a \<Rightarrow> \<not> usable (T (af_mount a)) (af_ino a))"
| "misuse _ _ \<longleftrightarrow> False"

text \<open>The calls the contract speaks of: canonical paths on named mounts, slices a machine can hold.\<close>

fun api_ok :: "api_call \<Rightarrow> bool" where
  "api_ok (Names fs c) \<longleftrightarrow> (\<exists>did. named did fs) \<and> call_ok c"
| "api_ok (OpenFile fs path flags) \<longleftrightarrow> (\<exists>did. named did fs) \<and> canonical (rel path)"
| "api_ok (OnFile n op) \<longleftrightarrow> op_fits op"
| "api_ok (ReadAll n buf) \<longleftrightarrow> True"
| "api_ok (WriteAll n buf) \<longleftrightarrow> length buf \<le> isize_max"
| "api_ok (CloseFile n) \<longleftrightarrow> True"

end
