(* ===== verification/DemoTree.thy ===== *)
theory DemoTree
  imports FsTree
begin

text \<open>
  A library with a directory tree: it meets the contract of the path functions, and the witnesses of
  the properties run on it. It serves the mount point of number 0; the tree is a list of paths with
  inode numbers and a table of inodes.
\<close>

section \<open>State\<close>

record tdemo =
  paths :: "(string \<times> nat) list"
  table :: "nat \<rightharpoonup> inode"

definition tree_of :: "tdemo \<Rightarrow> fstree" where
  "tree_of w = \<lparr>entries = map_of (paths w), inodes = table w\<rparr>"

definition demo_forest :: "tdemo forest" where
  "demo_forest w did = (if did = 0 then tree_of w else \<lparr>entries = Map.empty, inodes = Map.empty\<rparr>)"

definition key_of :: "string \<Rightarrow> string option" where
  "key_of path = (if take 5 path = ''/mp0/'' then Some (drop 5 path) else None)"

lemma key_of_mp: "key_of (mp_name did @ k) = (if did = 0 then Some k else None)"
proof -
  have mp0: "mp_name 0 = ''/mp0/''" by code_simp
  show ?thesis
  proof (cases "did = 0")
    case True
    then show ?thesis by (simp add: key_of_def mp0)
  next
    case False
    have "take 5 (mp_name did @ k) \<noteq> ''/mp0/''"
    proof
      assume "take 5 (mp_name did @ k) = ''/mp0/''"
      then have "mp_name did @ k = mp_name 0 @ drop 5 (mp_name did @ k)"
        using append_take_drop_id [of 5 "mp_name did @ k"] by (simp add: mp0)
      with False show False using mp.prefix_free [of did k 0] by blast
    qed
    with False show ?thesis by (simp add: key_of_def)
  qed
qed

section \<open>Operations\<close>

text \<open>A changing call: a partial function on the state.\<close>

definition on_tree :: "(string \<Rightarrow> tdemo \<Rightarrow> tdemo option) \<Rightarrow> string \<Rightarrow> (tdemo, i32) cfun" where
  "on_tree g path w = (case Option.bind (key_of path) (\<lambda>k. g k w) of
     None \<Rightarrow> (ENOENT, w) | Some w' \<Rightarrow> (0, w'))"

definition fresh_ino :: "tdemo \<Rightarrow> nat" where
  "fresh_ino w = Suc (foldr max (map snd (paths w)) 0)"

definition add_node :: "string \<Rightarrow> inode \<Rightarrow> tdemo \<Rightarrow> tdemo" where
  "add_node k n w = w\<lparr>paths := (k, fresh_ino w) # paths w, table := (table w)(fresh_ino w \<mapsto> n)\<rparr>"

definition new_dir :: inode where
  "new_dir = \<lparr>i_mode = 0x41ED, i_uid = 0, i_gid = 0, i_data = [], i_target = []\<rparr>"

definition t_mkdir :: "string \<Rightarrow> tdemo \<Rightarrow> tdemo option" where
  "t_mkdir k w = (case node_at (tree_of w) k of
     Some n \<Rightarrow> if file_type_of_mode (i_mode n) = Directory then Some w else None
   | None \<Rightarrow> if entries (tree_of w) k = None then Some (add_node k new_dir w) else None)"

definition t_symlink :: "string \<Rightarrow> string \<Rightarrow> tdemo \<Rightarrow> tdemo option" where
  "t_symlink target k w = (if entries (tree_of w) k = None
     then Some (add_node k \<lparr>i_mode = 0xA1FF, i_uid = 0, i_gid = 0, i_data = [],
       i_target = bytes_of_str target\<rparr> w) else None)"

definition t_remove :: "string \<Rightarrow> tdemo \<Rightarrow> tdemo option" where
  "t_remove k w = (if entries (tree_of w) k = None then None
     else Some (w\<lparr>paths := filter (\<lambda>(x, i). x \<noteq> k) (paths w)\<rparr>))"

definition t_rmdir :: "string \<Rightarrow> tdemo \<Rightarrow> tdemo option" where
  "t_rmdir k w = Some (w\<lparr>paths := filter (\<lambda>(x, i). \<not> within k x) (paths w)\<rparr>)"

definition t_link :: "string \<Rightarrow> string \<Rightarrow> tdemo \<Rightarrow> tdemo option" where
  "t_link d k w = (case entries (tree_of w) k of
     Some i \<Rightarrow> if entries (tree_of w) d = None then Some (w\<lparr>paths := (d, i) # paths w\<rparr>) else None
   | None \<Rightarrow> None)"

definition moved_path :: "string \<Rightarrow> string \<Rightarrow> string \<Rightarrow> string" where
  "moved_path s d x = (if within s x then d @ drop (length s) x else x)"

definition t_rename :: "string \<Rightarrow> string \<Rightarrow> tdemo \<Rightarrow> tdemo option" where
  "t_rename d s w =
     (if apart s d \<and> entries (tree_of w) s \<noteq> None \<and> (\<forall>(x, i) \<in> set (paths w). \<not> within d x)
      then Some (w\<lparr>paths := map (\<lambda>(x, i). (moved_path s d x, i)) (paths w)\<rparr>) else None)"

definition t_inode :: "(inode \<Rightarrow> inode) \<Rightarrow> string \<Rightarrow> tdemo \<Rightarrow> tdemo option" where
  "t_inode g k w = (case entries (tree_of w) k of
     None \<Rightarrow> None
   | Some i \<Rightarrow> map_option (\<lambda>n. w\<lparr>table := (table w)(i \<mapsto> g n)\<rparr>) (table w i))"

text \<open>A query: the inode, or \<open>ENOENT\<close>.\<close>

definition ask_tree :: "(inode \<Rightarrow> 'r option) \<Rightarrow> 'r \<Rightarrow> string \<Rightarrow> (tdemo, i32 \<times> 'r) cfun" where
  "ask_tree g x path w = (case Option.bind (key_of path) (\<lambda>k. Option.bind (node_at (tree_of w) k) g) of
     None \<Rightarrow> ((ENOENT, x), w) | Some y \<Rightarrow> ((0, y), w))"

definition read_target :: "bytes \<Rightarrow> usize \<Rightarrow> inode \<Rightarrow> (bytes \<times> usize) option" where
  "read_target buf sz n =
     (let cnt = min (unat sz) (length (i_target n)) in
      if file_type_of_mode (i_mode n) = Symlink
      then Some (take cnt (i_target n) @ drop cnt buf, of_nat cnt) else None)"

definition tree_path_fns :: "tdemo path_lib" where
  "tree_path_fns = \<lparr>l_fremove = on_tree t_remove,
     l_flink = (\<lambda>x y. case key_of y of None \<Rightarrow> (\<lambda>w. (ENOENT, w)) | Some d \<Rightarrow> on_tree (t_link d) x),
     l_frename = (\<lambda>x y. case key_of y of None \<Rightarrow> (\<lambda>w. (ENOENT, w)) | Some d \<Rightarrow> on_tree (t_rename d) x),
     l_fsymlink = (\<lambda>target. on_tree (t_symlink target)),
     l_readlink = (\<lambda>x buf n r. ask_tree (read_target buf n) (buf, r) x),
     l_dir_mk = on_tree t_mkdir, l_dir_rm = on_tree t_rmdir,
     l_mode_get = (\<lambda>x m. ask_tree (\<lambda>n. Some (i_mode n)) m x),
     l_mode_set = (\<lambda>x m. on_tree (t_inode (\<lambda>n. n\<lparr>i_mode := (i_mode n AND 0xF000) OR (m AND 0xFFF)\<rparr>)) x),
     l_owner_get = (\<lambda>x u g. ask_tree (\<lambda>n. Some (i_uid n, i_gid n)) (u, g) x),
     l_owner_set = (\<lambda>x u g. on_tree (t_inode (\<lambda>n. n\<lparr>i_uid := u, i_gid := g\<rparr>)) x),
     l_atime_get = (\<lambda>x t. ask_tree (\<lambda>n. Some 0) t x), l_mtime_get = (\<lambda>x t. ask_tree (\<lambda>n. Some 0) t x),
     l_ctime_get = (\<lambda>x t. ask_tree (\<lambda>n. Some 0) t x),
     l_inode_exist = (\<lambda>x ty w. case ask_tree (\<lambda>n.
         if ucast (FileType_to_raw (file_type_of_mode (i_mode n))) = ty then Some () else None) () x w of
       ((r, u), w) \<Rightarrow> (r, w))\<rparr>"

definition tree_file_fns :: "tdemo file_lib" where
  "tree_file_fns = demo_file_fns\<lparr>
     l_fopen2 := (\<lambda>f x flags. ask_tree (\<lambda>n. if length (i_data n) < 2 ^ 64 then Some (f\<lparr>f_fsize := of_nat (length (i_data n))\<rparr>) else None) f x),
     l_fsize := (\<lambda>f w. (f_fsize f, w))\<rparr>"

definition tree_lib :: "tdemo mount_lib \<Rightarrow> tdemo lwext4" where
  "tree_lib M = \<lparr>mount_fns = M, file_fns = tree_file_fns, path_fns = tree_path_fns,
     dir_fns = demo_dir_fns, mkfs_fns = demo_mkfs_fns\<rparr>"

section \<open>It meets the contract\<close>

lemma ENOENT_code [simp]: "ENOENT \<noteq> 0"
  by (simp add: ENOENT_def)

lemma on_tree_effect:
  assumes "\<And>w w'. g k w = Some w' \<Longrightarrow> good (tree_of w) (tree_of w')"
  shows "effect demo_forest did (on_tree g (mp_name did @ k)) good (touched K)"
proof (cases "did = 0")
  case True
  then show ?thesis using assms key_of_mp [of did k]
    by (auto simp: effect_def on_tree_def demo_forest_def split: option.splits)
next
  case False
  then show ?thesis using key_of_mp [of did k] by (simp add: effect_def on_tree_def)
qed

lemma ask_tree_answers:
  assumes "\<And>n y. g n = Some y \<Longrightarrow> right n y"
  shows "answers demo_forest (ask_tree g x (mp_name did @ k)) did k right"
  using assms key_of_mp [of did k]
  by (auto simp: answers_def ask_tree_def demo_forest_def bind_eq_Some_conv split: option.splits)

lemma foldr_max: "(x :: nat) \<in> set xs \<Longrightarrow> x \<le> foldr max xs 0"
  by (induction xs) auto

lemma fresh_ino: "(x, i) \<in> set (paths w) \<Longrightarrow> i \<noteq> fresh_ino w"
  using foldr_max [of i "map snd (paths w)"] by (force simp: fresh_ino_def)

lemma tree_of_sel [simp]:
  "entries (tree_of w) = map_of (paths w)" "inodes (tree_of w) = table w"
  by (simp_all add: tree_of_def)

lemma add_node_at: "node_at (tree_of (add_node k n w)) k = Some n"
  by (simp add: node_at_def add_node_def)

lemma add_node_same: "x \<noteq> k \<Longrightarrow> same_at (tree_of w) (tree_of (add_node k n w)) x"
  by (cases "map_of (paths w) x")
    (auto simp: same_at_def node_at_def add_node_def dest!: map_of_SomeD fresh_ino)

lemma add_node_touched: "touched {k} (tree_of w) (tree_of (add_node k n w))"
  unfolding touched_def using add_node_same within_refl by (metis insertI1)

lemma file_types: "file_type_of_mode 0x41ED = Directory" "file_type_of_mode 0xA1FF = Symlink"
  by code_simp+

lemma t_mkdir_good: "t_mkdir k w = Some w' \<Longrightarrow> dir_made k (tree_of w) (tree_of w')"
  by (auto simp: t_mkdir_def dir_made_def add_node_touched add_node_at new_dir_def file_types
      split: option.splits if_splits)

lemma t_symlink_good: "t_symlink target k w = Some w' \<Longrightarrow> symlinked target k (tree_of w) (tree_of w')"
  by (auto simp: t_symlink_def symlinked_def add_node_touched add_node_at file_types split: if_splits)

lemma map_of_filter_keys: "map_of (filter (\<lambda>(x, i). P x) xs) y = (if P y then map_of xs y else None)"
  by (induction xs) auto

lemma t_remove_good: "t_remove k w = Some w' \<Longrightarrow> entry_removed k (tree_of w) (tree_of w')"
  by (auto simp: t_remove_def entry_removed_def same_at_def node_at_def map_of_filter_keys split: if_splits)

lemma t_rmdir_good: "t_rmdir k w = Some w' \<Longrightarrow> subtree_removed k (tree_of w) (tree_of w')"
  by (auto simp: t_rmdir_def subtree_removed_def same_at_def node_at_def map_of_filter_keys)

lemma t_link_good: "t_link d k w = Some w' \<Longrightarrow> linked k d (tree_of w) (tree_of w')"
  by (auto simp: t_link_def linked_def same_at_def node_at_def split: option.splits if_splits)

lemma t_inode_good:
  "t_inode g k w = Some w' \<Longrightarrow> (\<And>n. R n (g n)) \<Longrightarrow> inode_changed R k (tree_of w) (tree_of w')"
  by (fastforce simp: t_inode_def inode_changed_def split: option.splits)

text \<open>Renaming every path of the list at once.\<close>

lemma map_of_rename:
  assumes "\<forall>(z, i) \<in> set xs. f z = y \<longleftrightarrow> z = y'"
  shows "map_of (map (\<lambda>(z, i). (f z, i)) xs) y = map_of xs y'"
  using assms by (induction xs) auto

lemma map_of_rename_None:
  assumes "\<forall>(z, i) \<in> set xs. f z \<noteq> y"
  shows "map_of (map (\<lambda>(z, i). (f z, i)) xs) y = None"
  using assms by (induction xs) auto

lemma moved_within: "within s z \<Longrightarrow> within d (moved_path s d z)"
  by (auto simp: moved_path_def within_split)

lemma t_rename_good:
  assumes "t_rename d s w = Some w'"
  shows "subtree_moved s d (tree_of w) (tree_of w')"
proof -
  let ?f = "moved_path s d"
  have a: "apart s d" and src: "map_of (paths w) s \<noteq> None"
    and free: "\<forall>(x, i) \<in> set (paths w). \<not> within d x"
    and w': "w' = w\<lparr>paths := map (\<lambda>(x, i). (?f x, i)) (paths w)\<rparr>"
    using assms by (auto simp: t_rename_def split: if_splits)
  have to_d: "?f z = y \<longleftrightarrow> z = s @ drop (length d) y" if "(z, i) \<in> set (paths w)" "within d y" for z i y
  proof -
    from that(2) obtain v where y: "y = d @ v" "v = [] \<or> hd v = CHR ''/''" by (auto simp: within_split)
    have "\<not> within d z" using free that(1) by auto
    then have "z \<noteq> y" using that(2) by auto
    moreover have "within s (s @ v)" using y(2) by (auto simp: within_split)
    ultimately show ?thesis using y by (auto simp: moved_path_def within_split)
  qed
  have gone: "?f z \<noteq> y" if "within s y" for z y
    using that moved_within [of s z d] apart_disjoint [OF a that] by (cases "within s z") (auto simp: moved_path_def)
  have stay: "?f z = y \<longleftrightarrow> z = y" if "\<not> within s y" "\<not> within d y" for z y
    using that moved_within [of s z d] by (cases "within s z") (auto simp: moved_path_def)
  have e: "entries (tree_of w') y = (if within s y then None
      else if within d y then entries (tree_of w) (s @ drop (length d) y) else entries (tree_of w) y)" for y
  proof -
    consider "within s y" | "\<not> within s y" "within d y" | "\<not> within s y" "\<not> within d y" by blast
    then show ?thesis
    proof cases
      case 1
      then show ?thesis using gone by (simp add: w' map_of_rename_None)
    next
      case 2
      then show ?thesis using to_d by (simp add: w', intro map_of_rename) auto
    next
      case 3
      then show ?thesis using stay by (simp add: w', intro map_of_rename) auto
    qed
  qed
  have i: "inodes (tree_of w') = inodes (tree_of w)" by (simp add: w')
  show ?thesis
    unfolding subtree_moved_def same_at_def node_at_def e i using src by simp
qed

lemma demo_changes: "changes_contract demo_forest (tree_lib M)"
proof -
  have bits: "((x AND 0xF000) OR (m AND 0xFFF)) AND 0xFFF = m AND 0xFFF"
    "((x AND 0xF000) OR (m AND 0xFFF)) AND 0xF000 = x AND 0xF000" for x m :: u32
    by (simp_all add: bit.conj_disj_distrib2 and.assoc)
  have "effect demo_forest did (l_frename tree_path_fns (mp_name did @ k) (mp_name did @ d))
      (subtree_moved k d) (touched K)"
    "effect demo_forest did (l_flink tree_path_fns (mp_name did @ k) (mp_name did @ d))
      (linked k d) (touched K)" for did k d K
    by (cases "did = 0"; simp add: tree_path_fns_def key_of_mp effect_def [of _ _ "\<lambda>w. (ENOENT, w)"]
      on_tree_effect [of "t_rename d" k "subtree_moved k d" 0] on_tree_effect [of "t_link d" k "linked k d" 0]
      t_rename_good t_link_good)+
  then show ?thesis
    unfolding changes_contract_def tree_lib_def mode_changed_def owner_changed_def
    by (auto simp: tree_path_fns_def intro!: on_tree_effect t_mkdir_good t_symlink_good t_remove_good
      t_rmdir_good t_inode_good bits)
qed

lemma read_target_right:
  assumes "read_target buf sz n = Some (out, cnt)"
  shows "file_type_of_mode (i_mode n) = Symlink \<and> take (unat cnt) out = take (unat sz) (i_target n)"
proof -
  let ?m = "min (unat sz) (length (i_target n))"
  have "unat sz < 2 ^ 64" by (rule unat_u64_lt)
  then have "?m < 2 ^ 64" by linarith
  then have "unat (of_nat ?m :: usize) = ?m" by (simp add: unat_of_nat)
  with assms show ?thesis by (auto simp: read_target_def Let_def min_def split: if_splits)
qed

lemma demo_queries: "queries_contract demo_forest (tree_lib M)"
proof -
  have ex: "(\<lambda>w. case l_inode_exist tree_path_fns p ty w of (r, w) \<Rightarrow> ((r, ()), w)) =
      ask_tree (\<lambda>n. if ucast (FileType_to_raw (file_type_of_mode (i_mode n))) = ty then Some () else None) () p"
    for p ty
    by (auto simp: fun_eq_iff tree_path_fns_def split: prod.splits)
  show ?thesis
    unfolding queries_contract_def tree_lib_def lwext4.select_convs ex
    by (auto simp: tree_path_fns_def intro!: ask_tree_answers dest: read_target_right split: if_splits)
qed

lemma demo_probe: "probe_contract demo_forest (tree_lib M)"
proof -
  define g :: "ext4_file \<Rightarrow> inode \<Rightarrow> ext4_file option" where
    "g = (\<lambda>f n. if length (i_data n) < 2 ^ 64 then Some (f\<lparr>f_fsize := of_nat (length (i_data n))\<rparr>) else None)"
  have "answers demo_forest (ask_tree (g f) f (mp_name did @ k)) did k
      (\<lambda>n f'. unat (f_fsize f') = length (i_data n))" for f did k
    by (rule ask_tree_answers) (auto simp: g_def unat_of_nat split: if_splits)
  then show ?thesis
    by (simp add: probe_contract_def tree_lib_def tree_file_fns_def demo_file_fns_def answers_def g_def
      case_prod_beta)
qed

lemma demo_tree_contract: "tree_contract demo_forest (tree_lib M)"
  by (simp add: tree_contract_def demo_changes demo_queries demo_probe)

text \<open>A tree with a file of five bytes; the mount functions are not used.\<close>

definition demo_tree :: "tdemo world" where
  "demo_tree = \<lparr>counter = 1, cst = \<lparr>paths = [(''f'', 0)],
     table = [0 \<mapsto> \<lparr>i_mode = 0x81A4, i_uid = 5, i_gid = 6, i_data = [1, 2, 3, 4, 5], i_target = []\<rparr>]\<rparr>, calls = []\<rparr>"

definition idle_mount_fns :: "'w mount_lib" where
  "idle_mount_fns = \<lparr>l_device_register = (\<lambda>bd n w. (0, w)), l_device_unregister = (\<lambda>n w. (0, w)),
     l_mount = (\<lambda>dev mp ro w. (0, w)), l_umount = (\<lambda>mp w. (0, w)),
     l_mount_point_stats = (\<lambda>mp st w. ((0, st), w)), l_journal_start = (\<lambda>mp w. (0, w)),
     l_journal_stop = (\<lambda>mp w. (0, w)), l_recover = (\<lambda>mp w. (0, w)), l_cache_flush = (\<lambda>mp w. (0, w))\<rparr>"

abbreviation demo_tree_lib :: "tdemo lwext4" where
  "demo_tree_lib \<equiv> tree_lib idle_mount_fns"

lemmas demo_eval = ffi_defs rust_simps try_st_def tree_lib_def tree_path_fns_def tree_file_fns_def
  on_tree_def ask_tree_def key_of_def node_at_def

lemma demo_make_path:
  "NUL \<notin> set s \<Longrightarrow> make_path demo_fs (CHR ''/'' # s) = Inr (''/mp0/'' @ s)"
  using make_path_full [OF demo_fs_facts(1), of "CHR ''/'' # s"] by simp

lemma demo_writable: "\<not> read_only demo_fs"
  using demo_fs_facts(2) by (simp add: is_read_only_def)

end
