(* ===== verification/DemoStore.thy ===== *)
theory DemoStore
  imports Store DemoTree
begin

text \<open>
  A library with a tree and the bytes of its files: it meets the contract of the store. Its file
  functions are those of the one-file library, on the bytes of the inode a handle names.
\<close>

section \<open>State\<close>

definition slot :: "tdemo \<Rightarrow> ext4_file \<Rightarrow> bytes" where
  "slot w f = take isize_max (file_data (tree_of w) (ino f))"

definition slot_content :: "tdemo content" where
  "slot_content f w = slot w f"

definition put_slot :: "nat \<Rightarrow> bytes \<Rightarrow> tdemo \<Rightarrow> tdemo" where
  "put_slot i d w = (case table w i of None \<Rightarrow> w
     | Some n \<Rightarrow> w\<lparr>table := (table w)(i \<mapsto> n\<lparr>i_data := d\<rparr>)\<rparr>)"

text \<open>A function that changes the bytes needs an inode that exists.\<close>

definition on_slot :: "(bytes \<Rightarrow> (i32 \<times> 'r) \<times> bytes) \<Rightarrow> 'r \<Rightarrow> ext4_file \<Rightarrow> (tdemo, i32 \<times> 'r) cfun" where
  "on_slot g x f w = (case table w (ino f) of None \<Rightarrow> ((EIO, x), w)
     | Some n \<Rightarrow> (case g (slot w f) of (r, d) \<Rightarrow> (r, put_slot (ino f) (take isize_max d) w)))"

section \<open>Functions\<close>

definition s_fread ::
  "ext4_file \<Rightarrow> bytes \<Rightarrow> usize \<Rightarrow> usize \<Rightarrow> (tdemo, i32 \<times> ext4_file \<times> bytes \<times> usize) cfun" where
  "s_fread f buf n r w = (fst (one_fread f buf n r (slot w f)), w)"

definition s_fseek :: "ext4_file \<Rightarrow> i64 \<Rightarrow> u32 \<Rightarrow> (tdemo, i32 \<times> ext4_file) cfun" where
  "s_fseek f off org w = (fst (sess_fseek f off org []), w)"

definition new_file :: inode where
  "new_file = \<lparr>i_mode = 0x81A4, i_uid = 0, i_gid = 0, i_data = [], i_target = []\<rparr>"

definition handle_on :: "nat \<Rightarrow> i32 \<Rightarrow> ext4_file \<Rightarrow> ext4_file" where
  "handle_on i fl f = f\<lparr>f_inode := of_nat i, f_flags := fl, f_fpos := 0\<rparr>"

definition s_open :: "ext4_file \<Rightarrow> i32 \<Rightarrow> string \<Rightarrow> tdemo \<Rightarrow> (ext4_file \<times> tdemo) option" where
  "s_open f fl k w = (case entries (tree_of w) k of
     Some i \<Rightarrow>
       if table w i = None \<or> 2 ^ 32 \<le> i \<or> isize_max < length (file_data (tree_of w) i) \<or>
         raw_has fl O_CREAT \<and> raw_has fl O_EXCL then None
       else Some (handle_on i fl f, if raw_has fl O_TRUNC then put_slot i [] w else w)
   | None \<Rightarrow>
       if raw_has fl O_CREAT \<and> fresh_ino w < 2 ^ 32
       then Some (handle_on (fresh_ino w) fl f, add_node k new_file w) else None)"

definition s_fopen2 :: "ext4_file \<Rightarrow> string \<Rightarrow> i32 \<Rightarrow> (tdemo, i32 \<times> ext4_file) cfun" where
  "s_fopen2 f path fl w = (case Option.bind (key_of path) (\<lambda>k. s_open f fl k w) of
     None \<Rightarrow> ((ENOENT, f), w) | Some (f', w') \<Rightarrow> ((0, f'), w'))"

definition store_file_fns :: "tdemo file_lib" where
  "store_file_fns = \<lparr>l_fopen2 = s_fopen2, l_fclose = (\<lambda>f w. ((0, f), w)),
     l_ftruncate = (\<lambda>f n. on_slot (sess_ftruncate f n) f f), l_fread = s_fread,
     l_fwrite = (\<lambda>f buf n r. on_slot (one_fwrite f buf n r) (f, 0) f),
     l_fseek = s_fseek, l_ftell = (\<lambda>f w. (f_fpos f, w)),
     l_fsize = (\<lambda>f w. (of_nat (length (slot w f)), w))\<rparr>"

definition store_lib :: "tdemo lwext4" where
  "store_lib = (tree_lib idle_mount_fns)\<lparr>file_fns := store_file_fns\<rparr>"

section \<open>It meets the contract\<close>

lemma length_slot: "length (slot w f) \<le> isize_max"
  by (simp add: slot_def)

lemma one_content_slot: "one_content f (slot w g) = slot w g"
  by (simp add: one_content_def length_slot)

lemma tree_of_put_slot: "tree_of (put_slot i d w) = set_data i d (tree_of w)"
  by (simp add: put_slot_def set_data_def tree_of_def split: option.split)

lemma slot_put_slot:
  "table w (ino f) \<noteq> None \<Longrightarrow> ino f' = ino f \<Longrightarrow> length d \<le> isize_max \<Longrightarrow> slot (put_slot (ino f) d w) f' = d"
  by (simp add: slot_def tree_of_put_slot file_data_set_data)

lemma store_lib_sel [simp]:
  "path_fns store_lib = tree_path_fns" "file_fns store_lib = store_file_fns"
  by (simp_all add: store_lib_def tree_lib_def)

lemma store_changes: "changes_contract demo_forest store_lib"
  using demo_changes [of idle_mount_fns] by (simp add: changes_contract_def tree_lib_def)

lemma store_queries: "queries_contract demo_forest store_lib"
  using demo_queries [of idle_mount_fns] by (simp add: queries_contract_def tree_lib_def)

lemma EIO_code [simp]: "EIO \<noteq> 0"
  by (simp add: EIO_def)

lemma same_handles:
  "fst (one_fread f buf n r d) = (x, f', y) \<Longrightarrow> f_inode f' = f_inode f \<and> f_mp f' = f_mp f \<and> f_flags f' = f_flags f"
  "fst (one_fwrite f buf n r d) = (x, f', k) \<Longrightarrow> f_inode f' = f_inode f \<and> f_flags f' = f_flags f"
  "fst (sess_fseek f off org d) = (x, f') \<Longrightarrow> f_inode f' = f_inode f \<and> f_flags f' = f_flags f"
  "fst (sess_ftruncate f m d) = (x, f') \<Longrightarrow> f' = f"
  by (auto simp: one_fread_def one_fwrite_def sess_fseek_def sess_ftruncate_def Let_def split: if_splits)

lemma slot_reads: "fread_contract slot_content store_lib"
  unfolding fread_contract_def
proof (intro allI impI)
  fix f :: ext4_file and buf :: bytes and n :: usize and w :: tdemo
  assume len: "length buf = unat n"
  obtain r f' out k d where c: "one_fread f buf n 0 (slot w f) = ((r, f', out, k), d)" by (metis surj_pair)
  have "ino f' = ino f" using same_handles(1) [of f buf n 0 "slot w f"] c by (simp add: ino_def)
  moreover have "l_fread (file_fns one_file) f buf n 0 (slot w f) = ((r, f', out, k), d)"
    using c by (simp add: one_file_def)
  moreover have "fread_contract one_content one_file" using one_file_reads by (simp add: read_contract_def)
  note this [unfolded fread_contract_def, rule_format, OF len, of f "slot w f"]
  ultimately show "let ((r, f', buf', k), w') = l_fread (file_fns store_lib) f buf n 0 w in
      slot_content f' w' = slot_content f w \<and> length buf' = length buf \<and>
      (r = 0 \<longrightarrow> unat k \<le> unat n \<and> unat k \<le> length (slot_content f w) - fpos f \<and>
         (k = 0 \<longrightarrow> n = 0 \<or> length (slot_content f w) \<le> fpos f) \<and>
         take (unat k) buf' = slice (fpos f) (unat k) (slot_content f w) \<and> fpos f' = fpos f + unat k)"
    using c by (simp add: store_file_fns_def s_fread_def slot_content_def slot_def one_content_def)
qed

lemma slot_writes: "fwrite_contract slot_content store_lib"
  unfolding fwrite_contract_def
proof (intro allI)
  fix f :: ext4_file and buf :: bytes and w :: tdemo
  obtain r f' k d where c: "one_fwrite f buf (slice_len buf) 0 (slot w f) = ((r, f', k), d)" by (metis surj_pair)
  have h: "ino f' = ino f" "f_flags f' = f_flags f"
    using same_handles(2) [of f buf "slice_len buf" 0 "slot w f"] c by (simp_all add: ino_def)
  have "l_fwrite (file_fns one_file) f buf (slice_len buf) 0 (slot w f) = ((r, f', k), d)"
    using c by (simp add: one_file_def)
  note one = one_file_writes [unfolded fwrite_contract_def, rule_format, of f buf "slot w f", unfolded this,
      unfolded one_content_slot]
  show "let ((r, f', k), w') = l_fwrite (file_fns store_lib) f buf (slice_len buf) 0 w in
      f_flags f' = f_flags f \<and>
      (if r = 0 then unat k \<le> length buf \<and>
         slot_content f' w' = write_at (write_start f (slot_content f w)) (take (unat k) buf) (slot_content f w) \<and>
         fpos f' = write_start f (slot_content f w) + unat k
       else \<exists>m \<le> length buf. slot_content f' w' =
         write_at (write_start f (slot_content f w)) (take m buf) (slot_content f w))"
  proof (cases "table w (ino f)")
    case None
    then show ?thesis
      by (auto simp: store_file_fns_def on_slot_def write_at_def intro!: exI [of _ 0])
  next
    case (Some n)
    then have "slot (put_slot (ino f) (take isize_max d) w) f' = one_content f' d"
      using slot_put_slot [of w f f' "take isize_max d"] h by (simp add: one_content_def)
    with Some c h one show ?thesis by (simp add: store_file_fns_def on_slot_def slot_content_def)
  qed
qed

lemma slot_seeks: "seeks_right slot_content store_lib"
  unfolding seeks_right_def
proof (intro allI)
  fix f :: ext4_file and off :: i64 and org :: u32 and w :: tdemo
  obtain r f' d where c: "sess_fseek f off org [] = ((r, f'), d)" by (metis surj_pair)
  have "ino f' = ino f" using same_handles(3) [of f off org "[]"] c by (simp add: ino_def)
  then have "slot w f' = slot w f" by (simp add: slot_def)
  moreover have "l_fseek (file_fns sess_file) f off org [] = ((r, f'), d)" using c by (simp add: sess_file_sel)
  note sess_fseek_right [unfolded seeks_right_def, rule_format, of f off org "[]", unfolded this]
  ultimately show "let ((r, f'), w') = l_fseek (file_fns store_lib) f off org w in
      slot_content f' w' = slot_content f w \<and> f_flags f' = f_flags f \<and>
      (r = 0 \<longrightarrow> (org = SEEK_SET \<longrightarrow> int (fpos f') = sint off) \<and>
        (org = SEEK_CUR \<longrightarrow> int (fpos f') = int (fpos f) + sint off))"
    using c by (simp add: store_file_fns_def s_fseek_def slot_content_def)
qed

lemma slot_truncates: "truncates_right slot_content store_lib"
  unfolding truncates_right_def
proof (intro allI)
  fix f :: ext4_file and n :: u64 and w :: tdemo
  show "let ((r, f'), w') = l_ftruncate (file_fns store_lib) f n w in f_flags f' = f_flags f \<and>
     (r = 0 \<longrightarrow> fpos f' \<le> fpos f \<and> (slot_content f' w' = resize (unat n) (slot_content f w) \<or>
       slot_content f' w' = slot_content f w \<and> length (slot_content f w) \<le> unat n))"
  proof (cases "table w (ino f) = None \<or> isize_max < unat n")
    case True
    then show ?thesis
      by (auto simp: store_file_fns_def on_slot_def sess_ftruncate_def ENOSPC_def split: option.split)
  next
    case False
    then obtain nd where nd: "table w (ino f) = Some nd" "unat n \<le> isize_max" by auto
    have "take isize_max (resize (unat n) (slot w f)) = resize (unat n) (slot w f)"
      using nd(2) by (simp add: resize_def)
    moreover have "slot (put_slot (ino f) (resize (unat n) (slot w f)) w) f = resize (unat n) (slot w f)"
      using nd by (intro slot_put_slot) (simp_all add: resize_def)
    ultimately show ?thesis
      using nd by (simp add: store_file_fns_def on_slot_def sess_ftruncate_def slot_content_def)
  qed
qed

lemma slot_session: "session_contract slot_content store_lib"
proof -
  have "unat (of_nat (length (slot w f)) :: u64) = length (slot w f)" for w f
    using length_slot [of w f] isize_max_bounds(1) by (simp add: unat_of_nat)
  then have "fsize_contract slot_content store_lib" "tells_right slot_content store_lib"
    by (simp_all add: fsize_contract_def tells_right_def store_file_fns_def slot_content_def)
  moreover have "read_keeps_flags store_lib"
    by (auto simp: read_keeps_flags_def store_file_fns_def s_fread_def dest: same_handles(1) [OF sym])
  ultimately show ?thesis
    using slot_reads slot_writes slot_seeks slot_truncates by (simp add: session_contract_def)
qed

text \<open>All handles are on the one mount there is.\<close>

abbreviation demo_mnt :: "ext4_file \<Rightarrow> u64" where
  "demo_mnt \<equiv> \<lambda>f. 0"

lemma demo_forest_0: "demo_forest w 0 = tree_of w"
  by (simp add: demo_forest_def)

lemma demo_forest_put:
  "demo_forest (put_slot i d w) = (demo_forest w)(0 := set_data i d (tree_of w))"
  by (simp add: fun_eq_iff demo_forest_def tree_of_put_slot)

lemma store_sees: "handles_see demo_forest slot_content demo_mnt"
  by (simp add: handles_see_def demo_forest_0 slot_content_def slot_def usable_def)

lemma store_reads: "reads_local demo_forest demo_mnt store_lib"
  by (auto simp: reads_local_def store_file_fns_def s_fread_def s_fseek_def same_file_def
      dest: same_handles(1,3) [OF sym])

lemma live_table: "live (tree_of w) i \<Longrightarrow> \<exists>n. table w i = Some n"
  by (simp add: live_def)

lemma store_writes: "writes_local demo_forest slot_content demo_mnt store_lib"
proof -
  have wr: "same_file demo_mnt f f' \<and>
      demo_forest w' = (demo_forest w)(0 := set_data (ino f) (slot_content f' w') (tree_of w))"
    if lv: "live (tree_of w) (ino f)" and c: "on_slot g x f w = ((r, y), w')"
      and keep: "\<And>d. g (slot w f) = ((r, y), d) \<Longrightarrow> f_inode f' = f_inode f \<and> f_flags f' = f_flags f"
    for f f' :: ext4_file and w w' r and x y :: 'c and g
  proof -
    obtain n where n: "table w (ino f) = Some n" using live_table [OF lv] by blast
    obtain d where d: "g (slot w f) = ((r, y), d)" "w' = put_slot (ino f) (take isize_max d) w"
      using c n by (auto simp: on_slot_def split: prod.splits)
    have k: "ino f' = ino f" "same_file demo_mnt f f'" using keep [OF d(1)] by (simp_all add: ino_def same_file_def)
    then have "slot_content f' w' = take isize_max d"
      using n slot_put_slot [of w f f' "take isize_max d"] by (simp add: d(2) slot_content_def)
    with k show ?thesis by (simp add: d(2) demo_forest_put)
  qed
  have 1: "let ((r, f', k), w') = l_fwrite (file_fns store_lib) f buf n 0 w in
        same_file demo_mnt f f' \<and>
        demo_forest w' = (demo_forest w)(0 := set_data (ino f) (slot_content f' w') (tree_of w))"
    if lv: "live (tree_of w) (ino f)" for f w buf n
  proof -
    obtain r f' k w' where c: "on_slot (one_fwrite f buf n 0) (f, 0) f w = ((r, f', k), w')" by (metis surj_pair)
    have "f_inode f' = f_inode f \<and> f_flags f' = f_flags f" if "one_fwrite f buf n 0 (slot w f) = ((r, f', k), d)" for d
      using that by (intro same_handles(2) [of f buf n 0 "slot w f" r f' k]) simp
    from wr [OF lv c this] show ?thesis by (simp add: store_file_fns_def c)
  qed
  have 2: "let ((r, f'), w') = l_ftruncate (file_fns store_lib) f n w in
        same_file demo_mnt f f' \<and>
        demo_forest w' = (demo_forest w)(0 := set_data (ino f) (slot_content f' w') (tree_of w))"
    if lv: "live (tree_of w) (ino f)" for f w n
  proof -
    obtain r f' w' where c: "on_slot (sess_ftruncate f n) f f w = ((r, f'), w')" by (metis surj_pair)
    have "f_inode f' = f_inode f \<and> f_flags f' = f_flags f" if "sess_ftruncate f n (slot w f) = ((r, f'), d)" for d
      using that same_handles(4) [of f n "slot w f" r f'] by simp
    from wr [OF lv c this] show ?thesis by (simp add: store_file_fns_def c)
  qed
  from 1 2 show ?thesis unfolding writes_local_def demo_forest_0 by blast
qed

lemma handle_on_ino: "i < 2 ^ 32 \<Longrightarrow> ino (handle_on i fl f) = i"
  by (simp add: ino_def handle_on_def unat_of_nat)

lemma handle_on_sel: "f_flags (handle_on i fl f) = fl" "f_fpos (handle_on i fl f) = 0"
  by (simp_all add: handle_on_def)

lemma put_slot_paths [simp]: "paths (put_slot i d w) = paths w"
  by (simp add: put_slot_def split: option.split)

lemma s_open_right:
  assumes "s_open f fl k w = Some (f', w')"
  shows "file_opened fl k (ino f') (tree_of w) (tree_of w') \<and> f_flags f' = fl \<and> fpos f' = 0"
proof (cases "map_of (paths w) k")
  case (Some i)
  then obtain n where "table w i = Some n" "i < 2 ^ 32" "\<not> (raw_has fl O_CREAT \<and> raw_has fl O_EXCL)"
    "f' = handle_on i fl f" "w' = (if raw_has fl O_TRUNC then put_slot i [] w else w)"
    using assms by (auto simp: s_open_def split: if_splits)
  with Some show ?thesis
    by (auto simp: file_opened_def handle_on_ino node_at_def tree_of_put_slot handle_on_sel)
next
  case None
  then have "raw_has fl O_CREAT" "fresh_ino w < 2 ^ 32" "f' = handle_on (fresh_ino w) fl f"
    "w' = add_node k new_file w"
    using assms by (auto simp: s_open_def split: if_splits)
  moreover have "file_type_of_mode 0x81A4 = RegularFile" by code_simp
  ultimately show ?thesis using None add_node_touched [of k w new_file] add_node_at [of k new_file w]
    by (auto simp: file_opened_def handle_on_ino node_at_def handle_on_sel new_file_def add_node_def)
qed

lemma s_open_reading:
  assumes "s_open f fl k w = Some (f', w')" and "\<not> raw_has fl O_CREAT" and "\<not> raw_has fl O_TRUNC"
  shows "\<exists>i n. map_of (paths w) k = Some i \<and> table w i = Some n \<and> i < 2 ^ 32 \<and>
    length (i_data n) \<le> isize_max \<and> f' = handle_on i fl f \<and> w' = w"
proof (cases "map_of (paths w) k")
  case None
  with assms show ?thesis by (simp add: s_open_def)
next
  case (Some i)
  with assms show ?thesis
    by (cases "table w i") (auto simp: s_open_def file_data_def split: if_splits)
qed

lemma store_opens: "opens_right demo_forest demo_mnt store_lib"
  unfolding opens_right_def
proof (intro allI impI)
  fix did k fl f w
  show "let ((r, f'), w') = l_fopen2 (file_fns store_lib) f (mp_name did @ k) fl w in
      (\<forall>e. e \<noteq> did \<longrightarrow> demo_forest w' e = demo_forest w e) \<and>
      (if r = 0 then 0 = did \<and> file_opened fl k (ino f') (demo_forest w did) (demo_forest w' did) \<and>
         (f_flags f' AND O_APPEND \<noteq> 0 \<longleftrightarrow> raw_has fl O_APPEND) \<and> (raw_has fl O_APPEND \<or> fpos f' = 0)
       else open_failed fl k (demo_forest w did) (demo_forest w' did))"
    using s_open_right [of f fl k w] key_of_mp [of did k] raw_has_append [of fl]
    by (auto simp: store_file_fns_def s_fopen2_def open_failed_def demo_forest_def split: option.splits prod.splits)
qed

lemma store_probe: "probe_contract demo_forest store_lib"
  unfolding probe_contract_def
proof (intro conjI allI impI)
  fix did k f w
  have rd: "\<not> raw_has O_RDONLY O_CREAT" "\<not> raw_has O_RDONLY O_TRUNC" by code_simp+
  show "let ((r, f'), w') = l_fopen2 (file_fns store_lib) f (mp_name did @ k) O_RDONLY w in
      demo_forest w' = demo_forest w \<and> (r = 0 \<longrightarrow> (\<exists>n. node_at (demo_forest w did) k = Some n \<and>
        unat (fst (l_fsize (file_fns store_lib) f' w')) = length (i_data n)))"
  proof (cases "Option.bind (key_of (mp_name did @ k)) (\<lambda>k. s_open f O_RDONLY k w)")
    case None
    then show ?thesis by (simp add: store_file_fns_def s_fopen2_def)
  next
    case (Some x)
    then obtain f' w' where x: "x = (f', w')" "did = 0" "s_open f O_RDONLY k w = Some (f', w')"
      using key_of_mp [of did k] by (cases x) (auto split: if_splits)
    then obtain i n where i: "map_of (paths w) k = Some i" "table w i = Some n" "i < 2 ^ 32"
      "length (i_data n) \<le> isize_max" "f' = handle_on i O_RDONLY f" "w' = w"
      using s_open_reading [OF _ rd] by blast
    have "slot w f' = i_data n" using i by (simp add: slot_def handle_on_ino file_data_def)
    moreover have "unat (of_nat (length (i_data n)) :: u64) = length (i_data n)"
      using i(4) isize_max_bounds(1) by (simp add: unat_of_nat)
    ultimately show ?thesis
      using Some i x by (simp add: store_file_fns_def s_fopen2_def demo_forest_0 node_at_def)
  qed
qed (simp_all add: store_file_fns_def)

lemma demo_store_contract: "store_contract demo_forest slot_content demo_mnt store_lib"
  by (simp add: store_contract_def tree_contract_def store_changes store_queries store_probe slot_session
    store_sees store_reads store_writes store_opens)

lemma store_reads_succeed: "reads_succeed store_lib"
  by (simp add: reads_succeed_def store_file_fns_def s_fread_def s_fseek_def one_fread_def sess_fseek_def
    Let_def seek_defs)

end
