(* ===== verification/StoreRefines.thy ===== *)
theory StoreRefines
  imports Store
begin

text \<open>
  Programs refine the store: what one call does to the trees and to its handle, one simulation step
  for each kind of call, and sequences of them. The last section states single calls on the store,
  for properties that follow a file through several of them.
\<close>

section \<open>From programs to the store\<close>

definition afile_of :: "(ext4_file \<Rightarrow> u64) \<Rightarrow> File \<Rightarrow> afile" where
  "afile_of mnt f = \<lparr>af_mount = mnt (inner f), af_ino = ino (inner f), af_pos = fpos (inner f),
     af_append = (f_flags (inner f) AND O_APPEND \<noteq> 0)\<rparr>"

definition store_of :: "'w forest \<Rightarrow> (ext4_file \<Rightarrow> u64) \<Rightarrow> 'w program \<Rightarrow> astore" where
  "store_of V mnt = (\<lambda>(H, w). (V (cst w), map (map_option (afile_of mnt)) H))"

lemma file_at_map: "file_at (map (map_option g) H) n = map_option g (file_at H n)"
  by (simp add: file_at_def)

text \<open>
  What calls through one handle keep: the handle stays on its file, and the trees are as in the
  beginning except for the bytes of that file.
\<close>

definition file_inv ::
  "'w forest \<Rightarrow> 'w content \<Rightarrow> (ext4_file \<Rightarrow> u64) \<Rightarrow> (u64 \<Rightarrow> fstree) \<Rightarrow> ext4_file \<Rightarrow> 'w file_state \<Rightarrow> bool" where
  "file_inv V C mnt T f st \<longleftrightarrow> same_file mnt f (inner (fst st)) \<and>
     V (cst (snd st)) = T(mnt f := set_data (ino f) (contents C st) (T (mnt f)))"

lemma readD:
  assumes "reads_local V mnt L" and "live (V w (mnt f)) (ino f)"
  shows fread_local: "l_fread (file_fns L) f buf n 0 w = ((r, f', out, k), w') \<Longrightarrow> V w' = V w \<and> same_file mnt f f'"
    and fseek_local: "l_fseek (file_fns L) f off org w = ((r, f'), w') \<Longrightarrow> V w' = V w \<and> same_file mnt f f'"
    and ftell_local: "l_ftell (file_fns L) f w = (m, w') \<Longrightarrow> V w' = V w"
proof -
  note * = assms(1) [unfolded reads_local_def, THEN spec, THEN spec, THEN mp, OF assms(2)]
  show "l_fread (file_fns L) f buf n 0 w = ((r, f', out, k), w') \<Longrightarrow> V w' = V w \<and> same_file mnt f f'"
    using * [THEN conjunct1, rule_format, of buf n] by simp
  show "l_fseek (file_fns L) f off org w = ((r, f'), w') \<Longrightarrow> V w' = V w \<and> same_file mnt f f'"
    using * [THEN conjunct2, THEN conjunct1, rule_format, of off org] by simp
  show "l_ftell (file_fns L) f w = (m, w') \<Longrightarrow> V w' = V w"
    using * [THEN conjunct2, THEN conjunct2] by simp
qed

lemma writeD:
  assumes "writes_local V C mnt L" and "live (V w (mnt f)) (ino f)"
  shows fwrite_local: "l_fwrite (file_fns L) f buf n 0 w = ((r, f', k), w') \<Longrightarrow>
      same_file mnt f f' \<and> V w' = (V w)(mnt f := set_data (ino f) (C f' w') (V w (mnt f)))"
    and ftruncate_local: "l_ftruncate (file_fns L) f m w = ((r, f'), w') \<Longrightarrow>
      same_file mnt f f' \<and> V w' = (V w)(mnt f := set_data (ino f) (C f' w') (V w (mnt f)))"
proof -
  note * = assms(1) [unfolded writes_local_def, THEN spec, THEN spec, THEN mp, OF assms(2)]
  show "l_fwrite (file_fns L) f buf n 0 w = ((r, f', k), w') \<Longrightarrow>
      same_file mnt f f' \<and> V w' = (V w)(mnt f := set_data (ino f) (C f' w') (V w (mnt f)))"
    using * [THEN conjunct1, rule_format, of buf n] by simp
  show "l_ftruncate (file_fns L) f m w = ((r, f'), w') \<Longrightarrow>
      same_file mnt f f' \<and> V w' = (V w)(mnt f := set_data (ino f) (C f' w') (V w (mnt f)))"
    using * [THEN conjunct2, rule_format, of m] by simp
qed

text \<open>The handle of a method's state is still on its file and the trees are \<open>T\<close>.\<close>

definition at_rest :: "'w forest \<Rightarrow> (ext4_file \<Rightarrow> u64) \<Rightarrow> (u64 \<Rightarrow> fstree) \<Rightarrow> ext4_file \<Rightarrow> 'w file_state \<Rightarrow> bool" where
  "at_rest V mnt T f st \<longleftrightarrow> same_file mnt f (inner (fst st)) \<and> V (cst (snd st)) = T"

lemma File_read_rest:
  assumes "reads_local V mnt L" and "live (T (mnt f)) (ino f)" and "at_rest V mnt T f st"
    and "File_read L b st = Done (x, st')"
  shows "at_rest V mnt T f st'"
proof -
  obtain self w where st: "st = (self, w)" by (cases st)
  obtain r f' out k s where c: "l_fread (file_fns L) (inner self) b (slice_len b) 0 (cst w) = ((r, f', out, k), s)"
    by (metis surj_pair)
  have "live (V (cst w) (mnt (inner self))) (ino (inner self))"
    using assms(2,3) by (simp add: at_rest_def same_file_def ino_def st)
  from readD(1) [OF assms(1) this c] have "V s = V (cst w)" "same_file mnt (inner self) f'" by simp_all
  then show ?thesis
    using assms(3,4) c by (cases "r = 0") (auto simp: File_read_def st ffi_defs rust_simps at_rest_def same_file_def)
qed

lemma File_position_rest:
  assumes "reads_local V mnt L" and "live (T (mnt f)) (ino f)" and "at_rest V mnt T f st"
    and "File_position L st = Done (x, st')"
  shows "at_rest V mnt T f st'"
proof -
  obtain self w where st: "st = (self, w)" by (cases st)
  obtain n s where c: "l_ftell (file_fns L) (inner self) (cst w) = (n, s)" by fastforce
  have "live (V (cst w) (mnt (inner self))) (ino (inner self))"
    using assms(2,3) by (simp add: at_rest_def same_file_def ino_def st)
  from readD(3) [OF assms(1) this c] show ?thesis
    using assms(3,4) c by (auto simp: File_position_def st ffi_defs rust_simps at_rest_def same_file_def)
qed

lemma File_seek_rest:
  assumes "reads_local V mnt L" and "live (T (mnt f)) (ino f)" and "at_rest V mnt T f st"
    and "File_seek L pos st = Done (x, st')"
  shows "at_rest V mnt T f st'"
proof -
  obtain self w where st: "st = (self, w)" by (cases st)
  obtain off org where raw: "SeekFrom_to_raw pos = (off, org)" by fastforce
  obtain r f' s where c: "l_fseek (file_fns L) (inner self) off org (cst w) = ((r, f'), s)" by (metis surj_pair)
  have "live (V (cst w) (mnt (inner self))) (ino (inner self))"
    using assms(2,3) by (simp add: at_rest_def same_file_def ino_def st)
  from readD(2) [OF assms(1) this c] have "V s = V (cst w)" "same_file mnt (inner self) f'" by simp_all
  then have 1: "at_rest V mnt T f (self\<lparr>inner := f'\<rparr>, w\<lparr>cst := s, calls := cs\<rparr>)" for cs
    using assms(3) by (simp add: at_rest_def same_file_def st)
  show ?thesis
  proof (cases "r = 0")
    case True
    then obtain n where "File_position L (self\<lparr>inner := f'\<rparr>, w\<lparr>cst := s,
        calls := calls w @ [C_fseek (inner self) off org]\<rparr>) = Done (n, st')"
      using assms(4) c
      by (auto simp: File_seek_def st raw ffi_defs rust_simps try_st_def seq_st_def bind_rust_def split: rust.splits)
    then show ?thesis by (rule File_position_rest [OF assms(1,2) 1])
  next
    case False
    then show ?thesis using assms(4) c 1
      by (auto simp: File_seek_def st raw ffi_defs rust_simps try_st_def)
  qed
qed

lemma File_size_rest:
  assumes "probe_contract V L" and "at_rest V mnt T f st" and "File_size L st = Done (x, st')"
  shows "at_rest V mnt T f st'"
proof -
  obtain self w where st: "st = (self, w)" by (cases st)
  obtain n s where c: "l_fsize (file_fns L) (inner self) (cst w) = (n, s)" by fastforce
  have "V s = V (cst w)" using probeD(1) [OF assms(1), of "inner self" "cst w"] c by simp
  then show ?thesis
    using assms(2,3) c by (auto simp: File_size_def st ffi_defs rust_simps at_rest_def same_file_def)
qed

lemma read_to_end_rest:
  assumes "store_contract V C mnt L" and "live (T (mnt f)) (ino f)" and "at_rest V mnt T f st"
    and "File_read_to_end p L buf st = Some (Done (x, st'))"
  shows "at_rest V mnt T f st'"
  using store_contractD(4,7) [OF assms(1)] assms(2)
  by (intro read_to_end_keeps [where P = "at_rest V mnt T f", OF _ _ _ assms(4,3)])
    (auto intro: File_read_rest File_seek_rest File_size_rest)

lemma File_write_inv:
  assumes "writes_local V C mnt L" and "live (T (mnt f)) (ino f)" and "file_inv V C mnt T f st"
    and "File_write L b st = Done (x, st')"
  shows "file_inv V C mnt T f st'"
proof -
  obtain self w where st: "st = (self, w)" by (cases st)
  obtain r f' k s where c: "l_fwrite (file_fns L) (inner self) b (slice_len b) 0 (cst w) = ((r, f', k), s)"
    by (metis surj_pair)
  have "live (V (cst w) (mnt (inner self))) (ino (inner self))"
    using assms(2,3) by (simp add: file_inv_def same_file_def ino_def st)
  from writeD(1) [OF assms(1) this c] have "same_file mnt (inner self) f'"
    "V s = (V (cst w))(mnt (inner self) := set_data (ino (inner self)) (C f' s) (V (cst w) (mnt (inner self))))"
    by simp_all
  then show ?thesis
    using assms(3,4) c
    by (cases "r = 0") (auto simp: File_write_def st ffi_defs rust_simps file_inv_def same_file_def
      contents_def ino_def)
qed

lemma File_truncate_inv:
  assumes "writes_local V C mnt L" and "live (T (mnt f)) (ino f)" and "file_inv V C mnt T f st"
    and "File_truncate L n st = Done (x, st')"
  shows "file_inv V C mnt T f st'"
proof -
  obtain self w where st: "st = (self, w)" by (cases st)
  obtain r f' s where c: "l_ftruncate (file_fns L) (inner self) n (cst w) = ((r, f'), s)"
    by (metis surj_pair)
  have "live (V (cst w) (mnt (inner self))) (ino (inner self))"
    using assms(2,3) by (simp add: file_inv_def same_file_def ino_def st)
  from writeD(2) [OF assms(1) this c] have "same_file mnt (inner self) f'"
    "V s = (V (cst w))(mnt (inner self) := set_data (ino (inner self)) (C f' s) (V (cst w) (mnt (inner self))))"
    by simp_all
  then show ?thesis
    using assms(3,4) c
    by (cases "r = 0") (auto simp: File_truncate_def st ffi_defs rust_simps file_inv_def same_file_def
      contents_def ino_def)
qed

lemma write_all_inv:
  assumes "writes_local V C mnt L" and "live (T (mnt f)) (ino f)" and "file_inv V C mnt T f st"
    and "File_write_all p L buf st = Some (Done (x, st'))"
  shows "file_inv V C mnt T f st'"
  using assms(4) unfolding File_write_all_def
  by (rule write_loop_keeps [where P = "file_inv V C mnt T f", rotated])
    (use assms in \<open>auto intro: File_write_inv\<close>)

lemma rest_start: "at_rest V mnt (V (cst (snd st))) (inner (fst st)) st"
  by (simp add: at_rest_def same_file_def)

lemma inv_start:
  assumes "handles_see V C mnt" and "usable (V (cst (snd st)) (mnt (inner (fst st)))) (ino (inner (fst st)))"
  shows "file_inv V C mnt (V (cst (snd st))) (inner (fst st)) st"
  using assms by (simp add: file_inv_def same_file_def handles_see_def contents_def)

lemma rest_inv:
  assumes "handles_see V C mnt" and "usable (V (cst (snd st)) (mnt (inner (fst st)))) (ino (inner (fst st)))"
    and "at_rest V mnt (V (cst (snd st))) (inner (fst st)) st'" and "contents C st' = contents C st"
  shows "file_inv V C mnt (V (cst (snd st))) (inner (fst st)) st'"
  using assms by (simp add: file_inv_def at_rest_def handles_see_def contents_def)

lemma reply_of:
  assumes "seq_st m g st = Done (r, st')" and "\<And>x s. \<exists>y. g x s = Done (y, s)"
  shows "\<exists>x. m st = Done (x, st')"
  using assms by (auto simp: seq_st_def bind_rust_def split: rust.splits) (metis prod.inject rust.inject)

text \<open>What one call through a usable handle does to the trees.\<close>

lemma file_step_inv:
  assumes S: "store_contract V C mnt L"
    and U: "usable (V (cst (snd st)) (mnt (inner (fst st)))) (ino (inner (fst st)))"
    and step: "file_step L op st = Done (r, st')"
    and same: "abs_step ap op (abs_of C st) r (abs_of C st')"
  shows "file_inv V C mnt (V (cst (snd st))) (inner (fst st)) st'"
proof -
  note D = store_contractD [OF S]
  have lv: "live (V (cst (snd st)) (mnt (inner (fst st)))) (ino (inner (fst st)))"
    using U by (simp add: usable_def)
  note start = rest_start [of V mnt st]
  show ?thesis
  proof (cases op)
    case (OpRead buf)
    obtain x where x: "File_read L buf st = Done (x, st')" using reply_of [OF step [unfolded OpRead file_step.simps]]
      by (auto split: prod.split)
    have "contents C st' = contents C st" using abs_step_keeps [OF same] OpRead by (simp add: abs_of_def)
    with File_read_rest [OF D(4) lv start x] show ?thesis by (rule rest_inv [OF D(3) U])
  next
    case (OpWrite buf)
    obtain x where "File_write L buf st = Done (x, st')" using reply_of [OF step [unfolded OpWrite file_step.simps]]
      by (auto split: prod.split)
    then show ?thesis by (rule File_write_inv [OF D(5) lv inv_start [OF D(3) U]])
  next
    case (OpSeek pos)
    obtain x where x: "File_seek L pos st = Done (x, st')" using reply_of [OF step [unfolded OpSeek file_step.simps]]
      by (auto split: prod.split)
    have "contents C st' = contents C st" using abs_step_keeps [OF same] OpSeek by (simp add: abs_of_def)
    with File_seek_rest [OF D(4) lv start x] show ?thesis by (rule rest_inv [OF D(3) U])
  next
    case (OpTruncate n)
    obtain x where "File_truncate L n st = Done (x, st')" using reply_of [OF step [unfolded OpTruncate file_step.simps]]
      by (auto split: prod.split)
    then show ?thesis by (rule File_truncate_inv [OF D(5) lv inv_start [OF D(3) U]])
  next
    case OpPosition
    obtain x where x: "File_position L st = Done (x, st')" using reply_of [OF step [unfolded OpPosition file_step.simps]]
      by (auto split: prod.split)
    have "contents C st' = contents C st" using abs_step_keeps [OF same] OpPosition by (simp add: abs_of_def)
    with File_position_rest [OF D(4) lv start x] show ?thesis by (rule rest_inv [OF D(3) U])
  next
    case OpSize
    obtain x where x: "File_size L st = Done (x, st')" using reply_of [OF step [unfolded OpSize file_step.simps]]
      by (auto split: prod.split)
    have "contents C st' = contents C st" using abs_step_keeps [OF same] OpSize by (simp add: abs_of_def)
    with File_size_rest [OF D(7) start x] show ?thesis by (rule rest_inv [OF D(3) U])
  next
    case OpFlush
    with step have "st' = st" by (simp add: seq_st_def rust_simps File_flush_def)
    with inv_start [where st = st, OF D(3) U] show ?thesis by simp
  qed
qed

lemma APPEND_raw: "raw_has (OpenFlags_to_raw flags) O_APPEND \<longleftrightarrow> contains flags APPEND"
  using OpenFlags_to_raw_decodes [of flags] by blast

lemma one_tree: "(\<forall>e. e \<noteq> did \<longrightarrow> V' e = V e) \<Longrightarrow> V(did := V' did) = V'"
  by (auto simp: fun_eq_iff)

lemma names_refine:
  assumes S: "store_contract V C mnt L" and ok: "api_ok (Names fs c)"
  shows "\<exists>r s'. api_exec p L (Names fs c) s = Some (Done (r, s')) \<and>
    store_step (Names fs c) (store_of V mnt s) r (store_of V mnt s')"
proof -
  obtain H w where s: "s = (H, w)" by (cases s)
  from ok obtain did where n: "named did fs" and c: "call_ok c" by auto
  obtain r w' where 1: "run_call L fs c w = Done (r, w')"
    "\<forall>e. e \<noteq> did \<longrightarrow> V (cst w') e = V (cst w) e"
    "ns_step (is_read_only fs) c (V (cst w) did) r (V (cst w') did)"
    using call_refines [OF store_contractD(1) [OF S] n c] by blast
  from st_names [where T = "V (cst w)" and t = "V (cst w') did" and H = "map (map_option (afile_of mnt)) H", OF n 1(3)]
  have "store_step (Names fs c) (store_of V mnt s) (NsReply r) (store_of V mnt (H, w'))"
    by (simp add: store_of_def s one_tree [OF 1(2)])
  with 1(1) show ?thesis by (auto simp: s)
qed

lemma opensD:
  assumes "opens_right V mnt L" and "c_key k"
    and "l_fopen2 (file_fns L) f (mp_name did @ k) fl w = ((r, f'), w')"
  shows "\<forall>e. e \<noteq> did \<longrightarrow> V w' e = V w e"
    and "r = 0 \<Longrightarrow> mnt f' = did" and "r = 0 \<Longrightarrow> file_opened fl k (ino f') (V w did) (V w' did)"
    and "r = 0 \<Longrightarrow> f_flags f' AND O_APPEND \<noteq> 0 \<longleftrightarrow> raw_has fl O_APPEND"
    and "r = 0 \<Longrightarrow> raw_has fl O_APPEND \<or> fpos f' = 0"
    and "r \<noteq> 0 \<Longrightarrow> open_failed fl k (V w did) (V w' did)"
  using assms(1) [unfolded opens_right_def, rule_format, OF assms(2), of f did fl w] assms(3) by auto

lemma open_refines:
  assumes S: "store_contract V C mnt L" and ok: "api_ok (OpenFile fs path flags)"
  shows "\<exists>r s'. api_exec p L (OpenFile fs path flags) s = Some (Done (r, s')) \<and>
    store_step (OpenFile fs path flags) (store_of V mnt s) r (store_of V mnt s')"
proof -
  obtain H w where s: "s = (H, w)" by (cases s)
  let ?H = "map (map_option (afile_of mnt)) H" and ?fl = "OpenFlags_to_raw flags"
  from ok obtain did where n: "named did fs" and key: "canonical (rel path)" by auto
  show ?thesis
  proof (cases "NUL \<in> set path")
    case True
    then obtain e where "make_path fs path = Inl e" using make_path_rel(2) [OF n] by blast
    then have "api_exec p L (OpenFile fs path flags) s = Some (Done (Opened (Inl e), s))"
      by (simp add: s open_file_def File_open_def rust_simps)
    moreover have "store_step (OpenFile fs path flags) (V (cst w), ?H) (Opened (Inl e))
        ((V (cst w))(did := V (cst w) did), ?H)"
      using st_open_failed [OF n, of path "V (cst w) did" "V (cst w)" flags ?H e] True by simp
    ultimately show ?thesis by (auto simp: store_of_def s)
  next
    case False
    then have k: "c_key (rel path)" using key by (simp add: c_key_def rel_NUL)
    obtain r f s1 where c: "l_fopen2 (file_fns L) ext4_file_default (mp_name did @ rel path) ?fl (cst w) = ((r, f), s1)"
      by (metis surj_pair)
    note o = opensD [OF store_contractD(6) [OF S] k c]
    let ?w = "w\<lparr>cst := s1, calls := calls w @ [C_fopen2 (mp_name did @ rel path) ?fl]\<rparr>"
    show ?thesis
    proof (cases "r = 0")
      case True
      let ?f = "\<lparr>ffs = fs, inner = f, fpath = path\<rparr>"
      have "api_exec p L (OpenFile fs path flags) s = Some (Done (Opened (Inr (length H)), (H @ [Some ?f], ?w)))"
        using True c make_path_rel(1) [OF n False]
        by (simp add: s open_file_def File_open_def ffi_defs rust_simps try_st_def)
      moreover have "store_step (OpenFile fs path flags) (V (cst w), ?H) (Opened (Inr (length ?H)))
          ((V (cst w))(did := V s1 did), ?H @ [Some (afile_of mnt ?f)])"
        using o(2-5) [OF True] n False
        by (intro st_open) (simp_all add: afile_of_def APPEND_raw)
      ultimately show ?thesis using one_tree [OF o(1)] by (auto simp: store_of_def s)
    next
      case False
      obtain e where "api_exec p L (OpenFile fs path flags) s = Some (Done (Opened (Inl e), (H, ?w)))"
        using False c make_path_rel(1) [OF n \<open>NUL \<notin> set path\<close>]
        by (auto simp: s open_file_def File_open_def ffi_defs rust_simps try_st_def)
      moreover have "store_step (OpenFile fs path flags) (V (cst w), ?H) (Opened (Inl e))
          ((V (cst w))(did := V s1 did), ?H)" for e
        using o(6) [OF False] n \<open>NUL \<notin> set path\<close> by (intro st_open_failed) simp_all
      ultimately show ?thesis using one_tree [OF o(1)] by (auto simp: store_of_def s)
    qed
  qed
qed

text \<open>A call through a handle: what the method does, in the list of handles.\<close>

lemma file_inv_store:
  assumes "file_inv V C mnt (V (cst w)) (inner f) (f', w')" and "n < length H"
  shows "store_of V mnt (H[n := Some f'], w') =
    (put_data (afile_of mnt f) (contents C (f', w')) (V (cst w)),
     (map (map_option (afile_of mnt)) H)[n := Some (afile_of mnt f')])"
  using assms by (simp add: store_of_def file_inv_def put_data_def afile_of_def same_file_def map_update)

lemma afile_of_same:
  "same_file mnt (inner f) (inner f') \<Longrightarrow> afile_of mnt f' = (afile_of mnt f)\<lparr>af_pos := fpos (inner f')\<rparr>"
  by (simp add: afile_of_def same_file_def ino_def)

lemma file_at_Some: "file_at H n = Some f \<Longrightarrow> n < length H"
  by (simp add: file_at_def split: if_splits)

text \<open>The situation before a call through a usable handle.\<close>

lemma on_file_start:
  assumes S: "store_contract V C mnt L" and f: "file_at H n = Some f"
    and U: "usable (V (cst w) (mnt (inner f))) (ino (inner f))"
  shows "file_at (map (map_option (afile_of mnt)) H) n = Some (afile_of mnt f)"
    and "contents C (f, w) = data_at (V (cst w)) (afile_of mnt f)"
    and "abs_of C (f, w) = (data_at (V (cst w)) (afile_of mnt f), af_pos (afile_of mnt f))"
    and "appends (f, w) = af_append (afile_of mnt f)"
  using assms store_contractD(3) [OF S, unfolded handles_see_def, rule_format, of "cst w" "inner f"]
  by (simp_all add: file_at_map data_at_def afile_of_def contents_def abs_of_def position_of_def appends_def)

lemma file_refines:
  assumes S: "store_contract V C mnt L" and ok: "api_ok (OnFile n op)"
    and use: "\<not> misuse (OnFile n op) (store_of V mnt s)"
    and s: "s = (H, w)" and Some: "file_at H n = Some f"
  shows "\<exists>r s'. api_exec p L (OnFile n op) s = Some (Done (r, s')) \<and>
    store_step (OnFile n op) (store_of V mnt s) r (store_of V mnt s')"
proof -
  let ?H = "map (map_option (afile_of mnt)) H" and ?T = "V (cst w)"
  have U: "usable (?T (mnt (inner f))) (ino (inner f))"
    using use Some by (simp add: s store_of_def file_at_map afile_of_def)
  note b = on_file_start [OF S Some U]
  obtain r st' where 1: "file_step L op (f, w) = Done (r, st')"
    "abs_step (appends (f, w)) op (abs_of C (f, w)) r (abs_of C st')"
    using file_step_refines [OF store_contractD(2) [OF S], of op "(f, w)"] ok by auto
  obtain f' w' where st': "st' = (f', w')" by (cases st')
  have inv: "file_inv V C mnt ?T (inner f) (f', w')"
    using file_step_inv [OF S _ 1] U by (simp add: st')
  have "store_step (OnFile n op) (?T, ?H) (FileReply r) (put_data (afile_of mnt f) (contents C st') ?T,
      ?H[n := Some ((afile_of mnt f)\<lparr>af_pos := position_of st'\<rparr>)])"
    using b(1) 1(2) by (intro st_file) (simp_all add: b(3,4) abs_of_def [of C st'])
  moreover have "(afile_of mnt f)\<lparr>af_pos := position_of st'\<rparr> = afile_of mnt f'"
    using afile_of_same [of mnt f f'] inv by (simp add: file_inv_def st' position_of_def)
  ultimately show ?thesis
    using 1(1) Some file_inv_store [OF inv file_at_Some [OF Some]]
    by (auto simp: s on_file_def st' store_of_def)
qed

lemma write_all_refines:
  assumes S: "store_contract V C mnt L" and ok: "api_ok (WriteAll n buf)"
    and use: "\<not> misuse (WriteAll n buf) (store_of V mnt s)"
    and s: "s = (H, w)" and Some: "file_at H n = Some f"
  shows "\<exists>r s'. api_exec p L (WriteAll n buf) s = Some (Done (r, s')) \<and>
    store_step (WriteAll n buf) (store_of V mnt s) r (store_of V mnt s')"
proof -
  let ?H = "map (map_option (afile_of mnt)) H" and ?T = "V (cst w)"
  have U: "usable (?T (mnt (inner f))) (ino (inner f))"
    using use Some by (simp add: s store_of_def file_at_map afile_of_def)
  note b = on_file_start [OF S Some U]
  note D = store_contractD [OF S]
  obtain r m st' where 1: "File_write_all p L buf (f, w) = Some (Done (r, st'))" "m \<le> length buf"
    "contents C st' = write_at (start_of C (f, w)) (take m buf) (contents C (f, w))"
    "r = Inr () \<longrightarrow> m = length buf \<and> start_of C st' = start_of C (f, w) + length buf \<and>
      (buf \<noteq> [] \<longrightarrow> position_of st' = start_of C (f, w) + length buf)"
    using write_all_spec [OF session_contractD(2) [OF D(2)], of buf p "(f, w)"] ok by auto
  obtain f' w' where st': "st' = (f', w')" by (cases st')
  have inv: "file_inv V C mnt ?T (inner f) (f', w')"
    using write_all_inv [OF D(5) _ inv_start [OF D(3)] 1(1)] U by (simp add: st' usable_def)
  have at: "start_of C (f, w) = at_write (af_append (afile_of mnt f)) (data_at ?T (afile_of mnt f), af_pos (afile_of mnt f))"
    using b(2) by (simp add: start_of_def write_start_def at_write_def afile_of_def)
  have "store_step (WriteAll n buf) (?T, ?H) (WriteAllReply r) (put_data (afile_of mnt f) (contents C st') ?T,
      ?H[n := Some ((afile_of mnt f)\<lparr>af_pos := position_of st'\<rparr>)])"
    unfolding 1(3) b(2) using 1(2,4) by (intro st_write_all [OF b(1) at]) simp_all
  moreover have "(afile_of mnt f)\<lparr>af_pos := position_of st'\<rparr> = afile_of mnt f'"
    using afile_of_same [of mnt f f'] inv by (simp add: file_inv_def st' position_of_def)
  ultimately show ?thesis
    using 1(1) Some file_inv_store [OF inv file_at_Some [OF Some]]
    by (auto simp: s on_file_def st' store_of_def)
qed

lemma read_all_refines:
  assumes S: "store_contract V C mnt L" and use: "\<not> misuse (ReadAll n buf) (store_of V mnt s)"
    and s: "s = (H, w)" and Some: "file_at H n = Some f"
  shows "\<exists>r s'. api_exec p L (ReadAll n buf) s = Some (Done (r, s')) \<and>
    store_step (ReadAll n buf) (store_of V mnt s) r (store_of V mnt s')"
proof -
  let ?H = "map (map_option (afile_of mnt)) H" and ?T = "V (cst w)"
  have U: "usable (?T (mnt (inner f))) (ino (inner f))"
    and fits: "length buf + length (data_at ?T (afile_of mnt f)) \<le> isize_max"
    using use Some by (simp_all add: s store_of_def file_at_map afile_of_def)
  note b = on_file_start [OF S Some U]
  note D = store_contractD [OF S]
  from read_to_end_spec [OF session_reads [OF D(2)], of buf "(f, w)" p] fits obtain r k st' where
    1: "File_read_to_end p L buf (f, w) = Some (Done ((r, buf @ take k (contents C (f, w))), st'))"
    "\<forall>m. r = Inr m \<longrightarrow> k = length (contents C (f, w)) \<and> unat m = length (contents C (f, w))"
    unfolding b(2) by blast
  obtain f' w' where st': "st' = (f', w')" by (cases st')
  have "at_rest V mnt ?T (inner f) (f', w')"
    using read_to_end_rest [OF S _ rest_start 1(1)] U by (simp add: st' usable_def)
  then have rest: "V (cst w') = ?T" "afile_of mnt f' = (afile_of mnt f)\<lparr>af_pos := fpos (inner f')\<rparr>"
    by (simp_all add: at_rest_def afile_of_same)
  have "store_step (ReadAll n buf) (?T, ?H) (ReadAllReply r (buf @ take k (data_at ?T (afile_of mnt f))))
      (?T, ?H[n := Some ((afile_of mnt f)\<lparr>af_pos := fpos (inner f')\<rparr>)])"
    using 1(2) by (intro st_read_all [OF b(1)]) (simp add: b(2))
  then show ?thesis
    using 1(1) Some rest by (auto simp: s on_file_def st' store_of_def b(2) map_update)
qed

lemma close_refines:
  assumes S: "store_contract V C mnt L" and s: "s = (H, w)" and Some: "file_at H n = Some f"
  shows "\<exists>r s'. api_exec p L (CloseFile n) s = Some (Done (r, s')) \<and>
    store_step (CloseFile n) (store_of V mnt s) r (store_of V mnt s')"
proof -
  let ?H = "map (map_option (afile_of mnt)) H"
  obtain r f' s1 where c: "l_fclose (file_fns L) (inner f) (cst w) = ((r, f'), s1)" by (metis surj_pair)
  have "V s1 = V (cst w)"
    using probeD(2) [OF store_contractD(7) [OF S], of "inner f" "cst w"] c by simp
  with st_close [of ?H n "afile_of mnt f" "V (cst w)"] Some c show ?thesis
    by (auto simp: s store_of_def file_at_map File_drop_def ignore_def ffi_defs rust_simps map_update
      seq_st_def split: prod.splits)
qed

lemma no_file_refines:
  assumes "used_file c = Some n" and "file_at H n = None"
  shows "\<exists>r s'. api_exec p L c (H, w) = Some (Done (r, s')) \<and>
    store_step c (store_of V mnt (H, w)) r (store_of V mnt s')"
proof -
  have "api_exec p L c (H, w) = Some (Done (NoFile, (H, w)))"
    using assms by (cases c) (auto simp: on_file_def)
  moreover have "store_step c (store_of V mnt (H, w)) NoFile (store_of V mnt (H, w))"
    using assms(2) by (auto simp: store_of_def file_at_map intro: st_no_file [OF assms(1)])
  ultimately show ?thesis by blast
qed

lemma exec_refines:
  assumes S: "store_contract V C mnt L" and "api_ok c" and "\<not> misuse c (store_of V mnt s)"
  shows "\<exists>r s'. api_exec p L c s = Some (Done (r, s')) \<and> store_step c (store_of V mnt s) r (store_of V mnt s')"
proof (cases "used_file c")
  case None
  then show ?thesis
    using names_refine [OF S] open_refines [OF S] assms(2) by (cases c) simp_all
next
  case (Some n)
  obtain H w where s: "s = (H, w)" by (cases s)
  show ?thesis
  proof (cases "file_at H n")
    case None
    then show ?thesis unfolding s by (rule no_file_refines [OF Some])
  next
    case (Some f)
    show ?thesis
      using \<open>used_file c = Some n\<close> assms(2,3) file_refines [OF S _ _ s Some]
        write_all_refines [OF S _ _ s Some] read_all_refines [OF S _ s Some] close_refines [OF S s Some]
      by (cases c) simp_all
  qed
qed

lemma run_refines:
  assumes S: "store_contract V C mnt L" and "\<forall>c \<in> set cs. api_ok c"
  shows "\<exists>before rest rs s'. cs = before @ rest \<and> run_api p L before s = Some (Done (rs, s')) \<and>
    store_run before (store_of V mnt s) rs (store_of V mnt s') \<and>
    (rest = [] \<or> misuse (hd rest) (store_of V mnt s'))"
  using assms(2)
proof (induction cs arbitrary: s)
  case Nil
  then show ?case by (intro exI [of _ "[]"] exI [of _ s]) (simp add: sr_Nil)
next
  case (Cons c cs)
  show ?case
  proof (cases "misuse c (store_of V mnt s)")
    case True
    then show ?thesis by (intro exI [of _ "[]"] exI [of _ "c # cs"] exI [of _ s]) (simp add: sr_Nil)
  next
    case False
    obtain r s1 where 1: "api_exec p L c s = Some (Done (r, s1))"
      "store_step c (store_of V mnt s) r (store_of V mnt s1)"
      using exec_refines [OF S _ False, of p] Cons.prems by auto
    obtain before rest rs s2 where 2: "cs = before @ rest" "run_api p L before s1 = Some (Done (rs, s2))"
      "store_run before (store_of V mnt s1) rs (store_of V mnt s2)"
      "rest = [] \<or> misuse (hd rest) (store_of V mnt s2)"
      using Cons.IH [of s1] Cons.prems by (metis list.set_intros(2))
    have "run_api p L (c # before) s = Some (Done (r # rs, s2))" using 1(1) 2(2) by simp
    moreover have "store_run (c # before) (store_of V mnt s) (r # rs) (store_of V mnt s2)"
      using 1(2) 2(3) by (rule sr_Cons)
    ultimately show ?thesis using 2(1,4)
      by (intro exI [of _ "c # before"] exI [of _ rest] exI [of _ "r # rs"] exI [of _ s2]) simp
  qed
qed

section \<open>Single calls, on the store\<close>

lemma exec_step:
  assumes "store_contract V C mnt L" and "api_ok c" and "\<not> misuse c (store_of V mnt s)"
    and "api_exec p L c s = Some (Done (r, s'))"
  shows "store_step c (store_of V mnt s) r (store_of V mnt s')"
  using exec_refines [OF assms(1-3), of p] assms(4) by auto

lemma store_of_none: "store_of V mnt ([], w) = (V (cst w), [])"
  by (simp add: store_of_def)

lemma store_of_one: "store_of V mnt ([Some f], w) = (V (cst w), [Some (afile_of mnt f)])"
  by (simp add: store_of_def)

lemma file_at_0 [simp]: "file_at [x] 0 = x"
  by (simp add: file_at_def)

text \<open>Opening on the tree: the handle stands on the inode of the path.\<close>

lemma opened_live: "file_opened fl k i t t' \<Longrightarrow> entries t' k = Some i \<and> live t' i"
  by (auto simp: file_opened_def live_def node_at_def ran_def set_data_inodes bind_eq_Some_conv
      split: option.splits if_splits)

lemma opened_empty:
  assumes "file_opened fl k i t t'" and "raw_has fl O_TRUNC \<or> node_at t k = None"
  shows "file_data t' i = []"
  using assms
  by (auto simp: file_opened_def file_data_def node_at_def set_data_inodes bind_eq_Some_conv
      split: option.splits if_splits)

lemma opened_for_reading:
  assumes "file_opened fl k i t t'" and "\<not> raw_has fl O_CREAT" and "\<not> raw_has fl O_TRUNC"
  shows "t' = t \<and> entries t k = Some i"
  using assms by (auto simp: file_opened_def split: option.splits)

lemma open_step:
  assumes S: "store_contract V C mnt L" and n: "named did fs" and key: "canonical (rel path)"
    and run: "open_file L fs path flags w = Done (Inr f, w1)"
  shows "mnt (inner f) = did"
    and "file_opened (OpenFlags_to_raw flags) (rel path) (ino (inner f)) (V (cst w) did) (V (cst w1) did)"
    and "contains flags APPEND \<or> fpos (inner f) = 0"
    and "f_flags (inner f) AND O_APPEND \<noteq> 0 \<longleftrightarrow> contains flags APPEND"
proof -
  have "store_step (OpenFile fs path flags) (store_of V mnt ([], w)) (Opened (Inr 0)) (store_of V mnt ([Some f], w1))"
    using n key run by (intro exec_step [OF S]) (auto simp: store_of_def)
  then obtain did' where "named did' fs" "mnt (inner f) = did'"
    "file_opened (OpenFlags_to_raw flags) (rel path) (ino (inner f)) (V (cst w) did') (V (cst w1) did')"
    "contains flags APPEND \<or> fpos (inner f) = 0" "f_flags (inner f) AND O_APPEND \<noteq> 0 \<longleftrightarrow> contains flags APPEND"
    by (auto simp: store_of_def afile_of_def elim!: store_step_OpenE)
  moreover have "did' = did" using n \<open>named did' fs\<close> by (simp add: named_def)
  ultimately show "mnt (inner f) = did"
    "file_opened (OpenFlags_to_raw flags) (rel path) (ino (inner f)) (V (cst w) did) (V (cst w1) did)"
    "contains flags APPEND \<or> fpos (inner f) = 0" "f_flags (inner f) AND O_APPEND \<noteq> 0 \<longleftrightarrow> contains flags APPEND"
    by simp_all
qed

lemma write_all_step:
  assumes S: "store_contract V C mnt L" and u: "usable (V (cst w) (mnt (inner f))) (ino (inner f))"
    and len: "length buf \<le> isize_max" and run: "File_write_all p L buf (f, w) = Some (Done (Inr (), (f', w')))"
  shows "V (cst w') = put_data (afile_of mnt f)
    (write_at (write_start (inner f) (data_at (V (cst w)) (afile_of mnt f))) buf (data_at (V (cst w)) (afile_of mnt f)))
    (V (cst w))"
proof -
  have "store_step (WriteAll 0 buf) (store_of V mnt ([Some f], w)) (WriteAllReply (Inr ()))
      (store_of V mnt ([Some f'], w'))"
    using u len run
    by (intro exec_step [OF S]) (auto simp: store_of_one on_file_def afile_of_def)
  then show ?thesis
    by (auto simp: store_of_one write_start_def at_write_def afile_of_def elim!: store_step_WriteAllE)
qed

lemma read_all_step:
  assumes S: "store_contract V C mnt L" and u: "usable (V (cst w) (mnt (inner f))) (ino (inner f))"
    and run: "File_read_to_end p L [] (f, w) = Some (Done ((Inr m, out), st'))"
  shows "out = data_at (V (cst w)) (afile_of mnt f) \<and> unat m = length out"
proof -
  obtain f' w' where st': "st' = (f', w')" by (cases st')
  have "store_step (ReadAll 0 []) (store_of V mnt ([Some f], w)) (ReadAllReply (Inr m) out)
      (store_of V mnt ([Some f'], w'))"
    using u run
    by (intro exec_step [OF S]) (auto simp: store_of_one on_file_def afile_of_def st' usable_def data_at_def)
  then show ?thesis by (auto simp: store_of_one elim!: store_step_ReadAllE)
qed

lemma drop_step:
  assumes S: "store_contract V C mnt L" and run: "File_drop L f w = Done (u, w')"
  shows "V (cst w') = V (cst w)"
proof -
  have "store_step (CloseFile 0) (store_of V mnt ([Some f], w)) Closed (store_of V mnt ([None], w'))"
    using run by (intro exec_step [OF S]) (auto simp: store_of_one)
  then show ?thesis by (auto simp: store_of_def elim!: store_step_CloseE)
qed

lemma node_data: "entries t k = Some i \<Longrightarrow> node_at t k = Some n \<Longrightarrow> file_data t i = i_data n"
  by (simp add: node_at_def file_data_def)

end
