(* ===== verification/FsTreeProps.thy ===== *)
theory FsTreeProps
  imports DemoTree
begin

text \<open>
  What a program can rely on when it uses the operations of mounted file systems one after the
  other: they are those of independent trees, and later answers follow from earlier changes.
\<close>

section \<open>Sequences of calls\<close>

text \<open>
  C7: mounted file systems are independent trees: over any library whose path functions behave as
  documented, every sequence of operations and queries, on any number of mounts in any order, with
  failures anywhere, returns without a panic, and its replies and effects are those of one
  abstract tree for each mount: read-only mounts and paths with a NUL refuse and change nothing, an
  operation of two calls can stop between them, changes touch only their own paths and their hard
  links, and queries tell what is in the tree and change nothing.
\<close>

theorem operations_refine_trees:
  assumes "tree_contract V L"
    and "\<forall>(fs, c) \<in> set cs. (\<exists>did. named did fs) \<and> call_ok c"
  shows "\<exists>rs w'. run_calls L cs w = Done (rs, w') \<and> ns_run cs (V (cst w)) rs (V (cst w'))"
  by (rule calls_refine [OF assms])

definition demo_calls :: "(Ext4Fs \<times> ns_call) list" where
  "demo_calls = [(demo_fs, Change (OpMkdir ''/d'' 0x1ED)), (demo_fs, Change (OpSymlink ''f'' ''/d/l'')),
     (new_mount 1 8 True False, Change (OpRemove ''f'')), (demo_fs, AskMeta ''/f''), (demo_fs, AskLink ''d/l'')]"

lemma demo_calls_ok: "\<forall>(fs, c) \<in> set demo_calls. (\<exists>did. named did fs) \<and> call_ok c"
proof -
  have "named 1 (new_mount 1 8 True False)" by (simp add: named_def new_mount_def)
  moreover have "canonical (rel ''/d'')" "canonical (rel ''/d/l'')" "canonical (rel ''f'')"
    "canonical (rel ''/f'')" "canonical (rel ''d/l'')" by code_simp+
  moreover have "\<exists>did. named did demo_fs" using demo_fs_facts(1) by blast
  ultimately show ?thesis by (auto simp: demo_calls_def call_ok_def)
qed

theorem operations_refine_trees_witness:
  "\<exists>rs w'. run_calls demo_tree_lib demo_calls demo_tree = Done (rs, w') \<and>
     ns_run demo_calls (demo_forest (cst demo_tree)) rs (demo_forest (cst w'))"
  by (rule operations_refine_trees [OF demo_tree_contract demo_calls_ok])

lemma ns_run_other:
  assumes "ns_run cs T rs T'" and "\<forall>(fs, c) \<in> set cs. \<not> named e fs"
  shows "T' e = T e"
  using assms by (induction rule: ns_run.induct) auto

text \<open>
  Operations on one mount never change another: after any sequence of operations and queries on
  other mounts, the tree of a mount is as before.
\<close>

theorem other_mounts_unchanged:
  assumes "tree_contract V L"
    and "\<forall>(fs, c) \<in> set cs. (\<exists>did. named did fs) \<and> call_ok c"
    and "\<forall>(fs, c) \<in> set cs. \<not> named did fs"
    and "run_calls L cs w = Done (rs, w')"
  shows "V (cst w') did = V (cst w) did"
  using calls_refine [OF assms(1,2), of w] ns_run_other [OF _ assms(3)] assms(4) by auto

theorem other_mounts_unchanged_witness:
  "\<exists>rs w'. run_calls demo_tree_lib demo_calls demo_tree = Done (rs, w') \<and>
     demo_forest (cst w') 2 = demo_forest (cst demo_tree) 2"
proof -
  have other: "\<forall>(fs, c) \<in> set demo_calls. \<not> named 2 fs"
    by (auto simp: demo_calls_def demo_fs_def new_mount_def named_def dev.inject)
  obtain rs w' where run: "run_calls demo_tree_lib demo_calls demo_tree = Done (rs, w')"
    using calls_refine [OF demo_tree_contract demo_calls_ok] by blast
  from other_mounts_unchanged [OF demo_tree_contract demo_calls_ok other run] run show ?thesis by blast
qed

section \<open>Changes and later answers\<close>

lemma tree_contractD:
  assumes "tree_contract V L"
  shows "changes_contract V L" "queries_contract V L" "probe_contract V L"
  using assms by (simp_all add: tree_contract_def)

text \<open>A successful change, on its way to the tree.\<close>

lemma change_done:
  assumes "tree_contract V L" and "named did fs" and "call_ok (Change c)"
    and "run_op L fs c w = Done (Inr (), w1)"
  shows "op_good c (V (cst w) did) (V (cst w1) did)"
  using change_refines [OF tree_contractD(1) [OF assms(1)] assms(2,3), of w] assms(4)
  by (auto split: if_splits)

lemma meta_done:
  assumes "tree_contract V L" and "named did fs" and "canonical (rel path)"
    and "metadata L fs path w = Done (Inr md, w1)"
  shows "\<exists>n. node_at (V (cst w) did) (rel path) = Some n \<and> describes n md"
  using metadata_refines [OF tree_contractD(2,3) [OF assms(1)] assms(2,3), of w] assms(4) by auto

lemma type_of_bits: "x AND 0xF000 = y AND 0xF000 \<Longrightarrow> file_type_of_mode x = file_type_of_mode y"
  by (simp add: file_type_of_mode_def)

text \<open>
  C20: permissions that were set are reported, through every name of the file: when
  \<open>set_permissions\<close> succeeded and \<open>metadata\<close> of the same path or of another hard link to the
  file succeeds next, it has the twelve permission bits that were set, and the type the file had.
\<close>

theorem permissions_roundtrip:
  assumes "tree_contract V L" and "named did fs" and "canonical (rel path)" and "canonical (rel other)"
    and "entries (V (cst w) did) (rel other) = entries (V (cst w) did) (rel path)"
    and "set_permissions L fs path m w = Done (Inr (), w1)"
    and "metadata L fs other w1 = Done (Inr md, w2)"
  shows "mode md = m AND 0xFFF \<and>
    (\<exists>n. node_at (V (cst w) did) (rel path) = Some n \<and> file_type md = file_type_of_mode (i_mode n))"
proof -
  have "op_good (OpSetPermissions path m) (V (cst w) did) (V (cst w1) did)"
    using assms(3,6) by (intro change_done [OF assms(1,2)]) (simp_all add: call_ok_def)
  then obtain i n x where *: "entries (V (cst w1) did) = entries (V (cst w) did)"
    "entries (V (cst w) did) (rel path) = Some i" "inodes (V (cst w) did) i = Some n"
    "inodes (V (cst w1) did) = (inodes (V (cst w) did))(i \<mapsto> n\<lparr>i_mode := x\<rparr>)"
    "x AND 0xFFF = m AND 0xFFF" "x AND 0xF000 = i_mode n AND 0xF000"
    by (auto simp: mode_changed_def inode_changed_def)
  from meta_done [OF assms(1,2,4,7)] *(1,2,4) assms(5) have "describes (n\<lparr>i_mode := x\<rparr>) md"
    by (simp add: node_at_def)
  then have "file_type md = file_type_of_mode (i_mode n)" "mode md = m AND 0xFFF"
    using type_of_bits [OF *(6)] *(5) by (simp_all add: describes_def)
  with *(2,3) show ?thesis by (simp add: node_at_def)
qed

theorem permissions_roundtrip_witness:
  "\<exists>w1 md w2. set_permissions demo_tree_lib demo_fs ''/f'' 0x180 demo_tree = Done (Inr (), w1) \<and>
     metadata demo_tree_lib demo_fs ''/f'' w1 = Done (Inr md, w2) \<and> mode md = 0x180"
proof -
  have key: "canonical (rel ''/f'')" by code_simp
  have "file_type_of_mode 0x8180 = RegularFile" "(0x81A4 :: u32) AND 0xF000 OR 0x180 AND 0xFFF = 0x8180"
    by code_simp+
  note bits = this
  let ?w1 = "demo_tree\<lparr>cst := \<lparr>paths = [(''f'', 0)], table = [0 \<mapsto> \<lparr>i_mode = 0x8180, i_uid = 5,
      i_gid = 6, i_data = [1, 2, 3, 4, 5], i_target = []\<rparr>]\<rparr>, calls := [C_mode_set ''/mp0/f'' 0x180]\<rparr>"
  have 1: "set_permissions demo_tree_lib demo_fs ''/f'' 0x180 demo_tree = Done (Inr (), ?w1)"
    by (simp add: set_permissions_def demo_make_path demo_eval t_inode_def demo_tree_def bits demo_writable)
  have "\<exists>md w2. metadata demo_tree_lib demo_fs ''/f'' ?w1 = Done (Inr md, w2)"
    by (simp add: metadata_def demo_make_path demo_eval Let_def bits size_of_path_def File_open_def READ_raw
      File_size_def File_drop_def demo_file_fns_def seq_st_def ignore_def)
  then obtain md w2 where 2: "metadata demo_tree_lib demo_fs ''/f'' ?w1 = Done (Inr md, w2)" by blast
  have "mode md = 0x180 AND 0xFFF"
    using permissions_roundtrip [OF demo_tree_contract demo_fs_facts(1) key key refl 1 2] by (simp add: rel_def)
  with 1 2 show ?thesis by auto
qed

lemma bytes_of_str_inject: "bytes_of_str s = bytes_of_str t \<longleftrightarrow> s = t"
  by (metis str_bytes_inverse)

text \<open>
  C21: a link's target is read back, up to 4096 bytes: when \<open>symlink\<close> succeeded and \<open>readlink\<close> of
  the same path succeeds next, it returns the first 4096 bytes of the target that was given, which is
  the target itself unless it is longer.
\<close>

theorem symlink_roundtrip:
  assumes "tree_contract V L" and "named did fs" and "canonical (rel path)"
    and "symlink L fs target path w = Done (Inr (), w1)" and "readlink L fs path w1 = Done (Inr s, w2)"
  shows "s = take 4096 target \<and> (length target \<le> 4096 \<longrightarrow> s = target)"
proof -
  have "op_good (OpSymlink target path) (V (cst w) did) (V (cst w1) did)"
    using assms(3,4) by (intro change_done [OF assms(1,2)]) (simp_all add: call_ok_def)
  then obtain n where n: "node_at (V (cst w1) did) (rel path) = Some n" "i_target n = bytes_of_str target"
    by (auto simp: symlinked_def)
  with readlink_refines [OF tree_contractD(2) [OF assms(1)] assms(2,3), of w1] assms(5)
  have "bytes_of_str s = take 4096 (bytes_of_str target)" by auto
  then have "bytes_of_str s = bytes_of_str (take 4096 target)" by (simp add: bytes_of_str_def take_map)
  then show ?thesis by (simp add: bytes_of_str_inject)
qed

theorem symlink_roundtrip_witness:
  "\<exists>w1 w2. symlink demo_tree_lib demo_fs ''f'' ''/l'' demo_tree = Done (Inr (), w1) \<and>
     readlink demo_tree_lib demo_fs ''/l'' w1 = Done (Inr ''f'', w2)"
proof -
  have key: "canonical (rel ''/l'')" by code_simp
  have f: "cstring_new ''f'' = Inr ''f''" "bytes_of_str ''f'' = [0x66]" "from_utf8 [0x66] = Some ''f''"
    by code_simp+
  let ?n = "\<lparr>i_mode = 0xA1FF, i_uid = 0, i_gid = 0, i_data = [], i_target = [0x66]\<rparr>"
  let ?w1 = "demo_tree\<lparr>cst := add_node ''l'' ?n (cst demo_tree), calls := [C_fsymlink ''f'' ''/mp0/l'']\<rparr>"
  have 1: "symlink demo_tree_lib demo_fs ''f'' ''/l'' demo_tree = Done (Inr (), ?w1)"
    by (simp add: symlink_def demo_make_path f demo_writable map_err_def demo_eval t_symlink_def demo_tree_def)
  have "\<exists>s w2. readlink demo_tree_lib demo_fs ''/l'' ?w1 = Done (Inr s, w2)"
    by (simp add: readlink_def demo_make_path Let_def slice_len_def demo_eval add_node_def read_target_def
      file_types f)
  then obtain s w2 where 2: "readlink demo_tree_lib demo_fs ''/l'' ?w1 = Done (Inr s, w2)" by blast
  from symlink_roundtrip [OF demo_tree_contract demo_fs_facts(1) key 1 2] 1 2 show ?thesis by auto
qed

text \<open>
  C19: renaming takes everything along: when \<open>rename\<close> succeeded between places that do not contain
  each other, nothing is left under the old name, and what \<open>metadata\<close> then finds under the new
  name, at any depth, describes what was under the old one.
\<close>

theorem rename_takes_along:
  assumes "tree_contract V L" and "named did fs" and "canonical (rel src)" and "canonical (rel dst)"
    and "apart (rel src) (rel dst)" and "within (rel dst) (rel new)" and "within (rel src) (rel old)"
    and "canonical (rel new)" and "canonical (rel old)"
    and "rename L fs src dst w = Done (Inr (), w1)"
  shows "(\<exists>w2. exists_path L fs old w1 = Done (False, w2)) \<and>
    (\<forall>md w2. metadata L fs new w1 = Done (Inr md, w2) \<longrightarrow>
       (\<exists>n. node_at (V (cst w) did) (rel src @ drop (length (rel dst)) (rel new)) = Some n \<and> describes n md))"
proof -
  have "op_good (OpRename src dst) (V (cst w) did) (V (cst w1) did)"
    using assms(3,4,10) by (intro change_done [OF assms(1,2)]) (simp_all add: call_ok_def)
  then have moved: "if within (rel src) x then entries (V (cst w1) did) x = None
      else if within (rel dst) x then entries (V (cst w1) did) x =
          entries (V (cst w) did) (rel src @ drop (length (rel dst)) x) \<and>
        node_at (V (cst w1) did) x = node_at (V (cst w) did) (rel src @ drop (length (rel dst)) x)
      else same_at (V (cst w) did) (V (cst w1) did) x" for x
    using assms(5) by (simp add: subtree_moved_def)
  have "\<not> within (rel src) (rel new)" using apart_disjoint [OF assms(5)] assms(6) by blast
  with moved [of "rel new"] assms(6) meta_done [OF assms(1,2,8), of w1]
  have "\<forall>md w2. metadata L fs new w1 = Done (Inr md, w2) \<longrightarrow>
      (\<exists>n. node_at (V (cst w) did) (rel src @ drop (length (rel dst)) (rel new)) = Some n \<and> describes n md)"
    by auto
  moreover have "node_at (V (cst w1) did) (rel old) = None"
    using moved [of "rel old"] assms(7) by (simp add: node_at_def)
  ultimately show ?thesis
    using exists_refines [OF tree_contractD(2,3) [OF assms(1)] assms(2,9), of w1] by auto
qed

theorem rename_takes_along_witness:
  "\<exists>w1 w2. rename demo_tree_lib demo_fs ''/f'' ''/g'' demo_tree = Done (Inr (), w1) \<and>
     exists_path demo_tree_lib demo_fs ''/f'' w1 = Done (False, w2)"
proof -
  have keys: "canonical (rel ''/f'')" "canonical (rel ''/g'')" by code_simp+
  have places: "apart (rel ''/f'') (rel ''/g'')" "within (rel ''/g'') (rel ''/g'')" "within (rel ''/f'') (rel ''/f'')"
    by (simp_all add: rel_def apart_def within_def)
  have 1: "\<exists>w1. rename demo_tree_lib demo_fs ''/f'' ''/g'' demo_tree = Done (Inr (), w1)"
    by (simp add: rename_def demo_make_path demo_writable demo_eval t_rename_def demo_tree_def
      apart_def within_def)
  then obtain w1 where w1: "rename demo_tree_lib demo_fs ''/f'' ''/g'' demo_tree = Done (Inr (), w1)" by blast
  from rename_takes_along [OF demo_tree_contract demo_fs_facts(1) keys places keys(2,1) w1] w1
  show ?thesis by blast
qed

end
