(* ===== verification/StoreProps.thy ===== *)
theory StoreProps
  imports DemoStore StoreRefines FsTreeProps
begin

text \<open>
  What a program can rely on when it mixes path operations and open files on mounted file systems.
\<close>

section \<open>Sequences of calls\<close>

text \<open>
  C3: the whole interface refines a store: over any library that behaves as documented, every
  sequence of path operations, queries, openings, reads, writes, seeks, truncations, \<open>read_to_end\<close>,
  \<open>write_all\<close> and closings, on any number of mounts and handles, with short transfers and failures
  anywhere, returns without a panic, and its replies and effects are those of a store: one tree for
  each mount, whose files have the bytes all their names and handles share, and handles that are
  positions in these files. It holds up to the first call through a handle whose file has lost its
  last name or does not fit into a vector.
\<close>

theorem api_refines_store:
  assumes "store_contract V C mnt L" and "\<forall>c \<in> set cs. api_ok c"
  shows "\<exists>before rest rs s'. cs = before @ rest \<and> run_api p L before s = Some (Done (rs, s')) \<and>
    store_run before (store_of V mnt s) rs (store_of V mnt s') \<and>
    (rest = [] \<or> misuse (hd rest) (store_of V mnt s'))"
  by (rule run_refines [OF assms])

definition demo_flags :: OpenFlags where
  "demo_flags = union_flags WRITE (union_flags CREATE TRUNCATE)"

lemma demo_flags_raw: "OpenFlags_to_raw demo_flags = 0x241"
  by code_simp

definition demo_program :: "api_call list" where
  "demo_program = [OpenFile demo_fs ''/g'' demo_flags, WriteAll 0 [7, 8],
     Names demo_fs (Change (OpLink ''/g'' ''/h'')), CloseFile 0]"

text \<open>A handle that was just opened with truncation can be used.\<close>

lemma truncated_usable:
  assumes "store_run [OpenFile fs path flags] (T, []) rs s'" and "raw_has (OpenFlags_to_raw flags) O_TRUNC"
  shows "\<not> misuse (WriteAll 0 buf) s'"
  using assms(1)
proof (rule store_run_ConsE)
  fix r s1 rs' assume st: "store_step (OpenFile fs path flags) (T, []) r s1" and run: "store_run [] s1 rs' s'"
  from run have s': "s' = s1" by (cases rule: store_run.cases) simp_all
  show ?thesis using st
  proof (cases rule: store_step_OpenE)
    case (opened a T' t H')
    then have "usable t (af_ino a)"
      using opened_live [of _ _ "af_ino a" "T' (af_mount a)" t] opened_empty [of _ _ "af_ino a" "T' (af_mount a)" t] assms(2)
      by (simp add: usable_def)
    with opened show ?thesis by (simp add: s')
  qed (simp_all add: s' file_at_def)
qed

theorem api_refines_store_witness:
  "\<exists>rs s'. run_api Debug store_lib demo_program ([], demo_tree) = Some (Done (rs, s')) \<and>
     store_run demo_program (store_of demo_forest demo_mnt ([], demo_tree)) rs (store_of demo_forest demo_mnt s')"
proof -
  have "canonical (rel ''/g'')" "canonical (rel ''/h'')" by code_simp+
  moreover have "\<exists>did. named did demo_fs" using demo_fs_facts(1) by blast
  ultimately have ok: "\<forall>c \<in> set demo_program. api_ok c"
    by (auto simp: demo_program_def call_ok_def isize_max_def)
  obtain before rest rs s' where run: "demo_program = before @ rest"
    "run_api Debug store_lib before ([], demo_tree) = Some (Done (rs, s'))"
    "store_run before (store_of demo_forest demo_mnt ([], demo_tree)) rs (store_of demo_forest demo_mnt s')"
    "rest = [] \<or> misuse (hd rest) (store_of demo_forest demo_mnt s')"
    using api_refines_store [OF demo_store_contract ok] by blast
  have tr: "raw_has (OpenFlags_to_raw demo_flags) O_TRUNC" by code_simp
  have "rest = []"
  proof (rule ccontr)
    assume "rest \<noteq> []"
    with run(4) have bad: "misuse (hd rest) (store_of demo_forest demo_mnt s')" by simp
    then have "\<exists>xs. before = [OpenFile demo_fs ''/g'' demo_flags] \<and> rest = WriteAll 0 [7, 8] # xs"
      using run(1) \<open>rest \<noteq> []\<close> by (cases rest) (auto simp: demo_program_def Cons_eq_append_conv append_eq_Cons_conv)
    with bad run(3) [unfolded store_of_none] truncated_usable [OF _ tr, of demo_fs "''/g''" "demo_forest (cst demo_tree)" rs
        "store_of demo_forest demo_mnt s'" "[7, 8]"] show False by auto
  qed
  with run show ?thesis by auto
qed

section \<open>What was written is found\<close>

text \<open>
  C4: what was stored is found under its new name: when a file was created or opened with truncation,
  \<open>write_all\<close> of a buffer succeeded, the handle was dropped, the file was renamed to a place apart,
  and opening that for reading succeeded, then \<open>read_to_end\<close> on the new handle, if it succeeds,
  delivers exactly the buffer.
\<close>

theorem stored_content_found:
  assumes S: "store_contract V C mnt L" and n: "named did fs"
    and keys: "canonical (rel path)" "canonical (rel dst)" "apart (rel path) (rel dst)"
    and fresh: "contains flags TRUNCATE \<or> node_at (V (cst w) did) (rel path) = None"
    and len: "length buf \<le> isize_max"
    and "open_file L fs path flags w = Done (Inr f, w1)"
    and "File_write_all p L buf (f, w1) = Some (Done (Inr (), (f', w2)))"
    and "File_drop L f' w2 = Done ((), w3)"
    and "rename L fs path dst w3 = Done (Inr (), w4)"
    and "open_file L fs dst READ w4 = Done (Inr g, w5)"
    and "File_read_to_end p L [] (g, w5) = Some (Done ((Inr m, out), st))"
  shows "out = buf \<and> unat m = length buf"
proof -
  let ?T = "\<lambda>w. V (cst w) did" and ?i = "ino (inner f)"
  note f = open_step [OF S n keys(1) assms(8)]
  have i: "entries (?T w1) (rel path) = Some ?i" "live (?T w1) ?i" using opened_live [OF f(2)] by simp_all
  have "raw_has (OpenFlags_to_raw flags) O_TRUNC \<or> node_at (?T w) (rel path) = None"
    using fresh OpenFlags_to_raw_decodes [of flags] by auto
  then have e: "file_data (?T w1) ?i = []" by (rule opened_empty [OF f(2)])
  have "write_start (inner f) [] = 0" using f(3,4) by (auto simp: write_start_def)
  then have "?T w2 = set_data ?i buf (?T w1)"
    using write_all_step [OF S _ len assms(9)] f(1) i(2) e
    by (simp add: usable_def put_data_def data_at_def afile_of_def write_at_def blit_def)
  then have 3: "?T w3 = set_data ?i buf (?T w1)" using drop_step [OF S assms(10)] by simp
  have "file_data (?T w3) ?i = buf" "live (?T w3) ?i" "entries (?T w3) (rel path) = Some ?i"
    using i by (simp_all add: 3 file_data_set_data live_def set_data_inodes)
  then obtain nd where nd: "node_at (?T w3) (rel path) = Some nd" "i_data nd = buf"
    by (auto simp: live_def node_at_def file_data_def)
  have "op_good (OpRename path dst) (?T w3) (?T w4)"
    using change_refines [OF _ n, of V L "OpRename path dst" w3] store_contractD(1) [OF S] keys assms(11)
    by (auto simp: call_ok_def tree_contract_def split: if_splits)
  then have 4: "entries (?T w4) (rel dst) = Some ?i \<and> node_at (?T w4) (rel dst) = Some nd"
    using moved_root [OF _ keys(3)] nd(1) \<open>entries (?T w3) (rel path) = Some ?i\<close> by simp
  note g = open_step [OF S n keys(2) assms(12)]
  have "\<not> raw_has (OpenFlags_to_raw READ) O_CREAT" "\<not> raw_has (OpenFlags_to_raw READ) O_TRUNC" by code_simp+
  with opened_for_reading [OF g(2)] have "?T w5 = ?T w4" "ino (inner g) = ?i" using 4 by auto
  moreover have "file_data (?T w4) ?i = buf" using node_data 4 nd(2) by blast
  moreover have "live (?T w5) (ino (inner g))" using opened_live [OF g(2)] by simp
  ultimately show ?thesis
    using read_all_step [OF S _ assms(13)] g(1) len by (simp add: usable_def data_at_def afile_of_def)
qed


definition demo_g :: "string \<Rightarrow> tdemo" where
  "demo_g k = \<lparr>paths = [(k, 1), (''f'', 0)],
     table = [0 \<mapsto> \<lparr>i_mode = 0x81A4, i_uid = 5, i_gid = 6, i_data = [1, 2, 3, 4, 5], i_target = []\<rparr>,
       1 \<mapsto> \<lparr>i_mode = 0x81A4, i_uid = 0, i_gid = 0, i_data = [7, 8], i_target = []\<rparr>]\<rparr>"

lemma demo_open_g:
  "\<exists>w1. open_file store_lib demo_fs ''/g'' demo_flags demo_tree =
     Done (Inr \<lparr>ffs = demo_fs, inner = handle_on 1 0x241 ext4_file_default, fpath = ''/g''\<rparr>, w1) \<and>
     cst w1 = add_node ''g'' new_file (cst demo_tree)"
proof -
  have "raw_has 0x241 O_CREAT" by code_simp
  then show ?thesis
    by (simp add: open_file_def File_open_def demo_make_path ffi_defs rust_simps try_st_def store_file_fns_def
      s_fopen2_def key_of_def s_open_def demo_tree_def demo_flags_raw fresh_ino_def)
qed

lemma demo_write_g:
  assumes "cst w1 = add_node ''g'' new_file (cst demo_tree)"
  shows "\<exists>f' w2. File_write_all Debug store_lib [7, 8]
      (\<lparr>ffs = demo_fs, inner = handle_on 1 0x241 ext4_file_default, fpath = ''/g''\<rparr>, w1) =
    Some (Done (Inr (), (f', w2))) \<and> cst w2 = demo_g ''g''"
proof -
  let ?f = "\<lparr>ffs = demo_fs, inner = handle_on 1 0x241 ext4_file_default, fpath = ''/g''\<rparr>"
  have fl: "(0x241 :: u32) AND O_APPEND = 0" by code_simp
  have big: "\<not> isize_max < 2" by (simp add: isize_max_def)
  obtain f' w2 where 1: "File_write store_lib (drop (unat (0 :: u64)) [7, 8]) (?f, w1) = Done (Inr 2, (f', w2))"
    "cst w2 = demo_g ''g''"
    using big
    by (simp add: File_write_def ffi_defs rust_simps store_file_fns_def on_slot_def slot_def file_data_def one_fwrite_def Let_def
      write_start_def handle_on_sel fl assms add_node_def fresh_ino_def demo_tree_def handle_on_ino
      put_slot_def demo_g_def new_file_def write_at_def blit_def slice_len_def)
  have "write_loop Debug store_lib [7, 8] 0 (?f, w1) = write_loop Debug store_lib [7, 8] 2 (f', w2)"
    by (rule write_loop_step [OF _ 1(1)]) (simp_all add: slice_len_def add_u64_def)
  also have "\<dots> = Some (Done (Inr (), (f', w2)))" by (subst write_loop.simps) (simp add: slice_len_def)
  finally show ?thesis using 1(2) by (auto simp: File_write_all_def)
qed

theorem stored_content_found_witness:
  "\<exists>f w1 f' w2 w3 w4 g w5 m out st. open_file store_lib demo_fs ''/g'' demo_flags demo_tree = Done (Inr f, w1) \<and>
     File_write_all Debug store_lib [7, 8] (f, w1) = Some (Done (Inr (), (f', w2))) \<and>
     File_drop store_lib f' w2 = Done ((), w3) \<and>
     rename store_lib demo_fs ''/g'' ''/h'' w3 = Done (Inr (), w4) \<and>
     open_file store_lib demo_fs ''/h'' READ w4 = Done (Inr g, w5) \<and>
     File_read_to_end Debug store_lib [] (g, w5) = Some (Done ((Inr m, out), st)) \<and> out = [7, 8]"
proof -
  have keys: "canonical (rel ''/g'')" "canonical (rel ''/h'')" by code_simp+
  have a: "apart (rel ''/g'') (rel ''/h'')" by (simp add: rel_def apart_def within_def)
  have fl: "contains demo_flags TRUNCATE \<or> node_at (demo_forest (cst demo_tree) 0) (rel ''/g'') = None" by code_simp
  have len: "length [7, 8 :: u8] \<le> isize_max" by (simp add: isize_max_def)
  let ?f = "\<lparr>ffs = demo_fs, inner = handle_on 1 0x241 ext4_file_default, fpath = ''/g''\<rparr>"
  obtain w1 where 1: "open_file store_lib demo_fs ''/g'' demo_flags demo_tree = Done (Inr ?f, w1)"
    "cst w1 = add_node ''g'' new_file (cst demo_tree)" using demo_open_g by blast
  obtain f' w2 where 2: "File_write_all Debug store_lib [7, 8] (?f, w1) = Some (Done (Inr (), (f', w2)))"
    "cst w2 = demo_g ''g''" using demo_write_g [OF 1(2)] by blast
  obtain w3 where 3: "File_drop store_lib f' w2 = Done ((), w3)" "cst w3 = demo_g ''g''"
    using 2(2) by (simp add: File_drop_def ignore_def ffi_defs rust_simps store_file_fns_def)
  obtain w4 where 4: "rename store_lib demo_fs ''/g'' ''/h'' w3 = Done (Inr (), w4)" "cst w4 = demo_g ''h''"
    using 3(2) by (simp add: rename_def demo_make_path demo_writable demo_eval t_rename_def demo_g_def
      apart_def within_def moved_path_def)
  have rd: "raw_has (OpenFlags_to_raw READ) O_CREAT = False" "raw_has (OpenFlags_to_raw READ) O_TRUNC = False"
    by code_simp+
  obtain g w5 where 5: "open_file store_lib demo_fs ''/h'' READ w4 = Done (Inr g, w5)"
    "usable (tree_of (cst w5)) (ino (inner g))" "cst w5 = demo_g ''h''" "ino (inner g) = 1"
    using 4(2) len
    by (simp add: open_file_def File_open_def demo_make_path ffi_defs rust_simps try_st_def store_file_fns_def
      s_fopen2_def key_of_def s_open_def demo_g_def rd usable_def live_def file_data_def handle_on_ino)
  have "length [] + length (contents slot_content (g, w5)) \<le> isize_max"
    using length_slot [of "cst w5" "inner g"] by (simp add: contents_def slot_content_def)
  from read_to_end_spec [OF session_reads [OF slot_session] this, of Debug] store_reads_succeed
  obtain m out st where 6: "File_read_to_end Debug store_lib [] (g, w5) = Some (Done ((Inr m, out), st))"
    by auto
  have n: "named 0 demo_fs" by (rule demo_fs_facts(1))
  from stored_content_found [OF demo_store_contract n keys a fl len 1(1) 2(1) 3(1) 4(1) 5(1) 6]
  show ?thesis using 1(1) 2(1) 3(1) 4(1) 5(1) 6 by blast
qed

end
