(* ===== verification/SystemProps.thy ===== *)
theory SystemProps
  imports DemoLib
begin

text \<open>
  The properties of every state a process that uses the crate can reach: what the tables of lwext4
  hold, where an open file or directory leads, and that a process can always wind down.
\<close>

section \<open>Every reachable state\<close>

lemma handle_leads_back:
  assumes "process_wf w" and "boxes w a = Some bd"
  shows "get_wrapper (heap (cst w)) bd = Some a"
  using assms
  by (auto simp: process_wf_def boxes_def as_bdev_ptr_def intro!: wired_get_wrapper heap_wf_wired)

lemma callbacks_reach:
  assumes "process_wf w" and "boxes w a = Some bd"
  shows "get_wrapper (heap (cst w)) bd = Some a \<and>
    blockdev_bread q bd buf b n (heap (cst w)) \<noteq> None \<and>
    blockdev_bwrite q bd buf b n (heap (cst w)) \<noteq> None"
  using handle_leads_back [OF assms] assms(2)
  by (auto simp: blockdev_bread_def blockdev_bwrite_def with_device_def boxes_def as_bdev_ptr_def)

text \<open>
  C1: no use after free through the device table: if lwext4 keeps its table of devices as documented,
  then at every moment of any process that mounts, unmounts, drops and formats, and opens, uses and
  closes files and directories, in any order (fewer than \<open>2 ^ 64\<close> mounts), a device name is registered exactly when a live handle has it, the
  registered C structure leads back to that handle's wrapper, the live wrappers are exactly those
  of the live handles (none is leaked or freed early), and no two handles share a wrapper, a
  device name or a mount point.
\<close>

theorem reachable_devices_exact:
  assumes "lib_contract T L" and "pristine T w0" and "sys_reach p L w0 (H, F, D, w)"
  shows "(\<forall>n. regs T w n \<noteq> None \<longleftrightarrow> n \<in> device_name ` set H) \<and>
    (\<forall>fs \<in> set H. \<exists>bd. regs T w (device_name fs) = Some bd \<and>
       as_bdev_ptr (heap (cst w)) (wrapper fs) = Some bd \<and>
       get_wrapper (heap (cst w)) bd = Some (wrapper fs)) \<and>
    (\<forall>a. h_wrappers (heap (cst w)) a \<noteq> None \<longleftrightarrow> a \<in> wrapper ` set H) \<and>
    distinct (map wrapper H) \<and> distinct (map device_name H) \<and> distinct (map mount_point H)"
proof -
  have inv: "handles_inv w H" "devices_inv T w H"
    using reach_inv [OF assms(3,1,2)] by simp_all
  have live: "boxes w a \<noteq> None \<longleftrightarrow> a \<in> wrapper ` set H" for a
    using inv(2) by (auto simp: devices_inv_def)
  have reg: "regs T w n = Some bd \<longleftrightarrow>
      (\<exists>fs \<in> set H. device_name fs = n \<and> boxes w (wrapper fs) = Some bd)" for n bd
    using inv(2) by (simp add: devices_inv_def)
  have wf: "process_wf w" using inv(2) by (simp add: devices_inv_def)
  have own: "\<exists>bd. regs T w (device_name fs) = Some bd \<and> boxes w (wrapper fs) = Some bd"
    if mem: "fs \<in> set H" for fs
  proof -
    obtain bd where "boxes w (wrapper fs) = Some bd" using live [of "wrapper fs"] mem by auto
    with reg [of "device_name fs" bd] mem show ?thesis by auto
  qed
  have "inj_on mount_point (set H)"
    by (rule inj_onI) (simp add: handles_names(3) [OF inv(1)])
  then have "distinct (map mount_point H)"
    using inv(1) by (simp add: handles_inv_def distinct_map)
  moreover have "h_wrappers (heap (cst w)) a \<noteq> None \<longleftrightarrow> a \<in> wrapper ` set H" for a
    using live [of a] by (auto simp: boxes_def as_bdev_ptr_def)
  moreover have "regs T w n \<noteq> None \<longleftrightarrow> n \<in> device_name ` set H" for n
    using own reg by fastforce
  moreover have "\<exists>bd. regs T w (device_name fs) = Some bd \<and>
       as_bdev_ptr (heap (cst w)) (wrapper fs) = Some bd \<and>
       get_wrapper (heap (cst w)) bd = Some (wrapper fs)" if "fs \<in> set H" for fs
    using own [OF that] handle_leads_back [OF wf] by (auto simp: boxes_def)
  ultimately show ?thesis using inv(1) unfolding handles_inv_def by blast
qed

lemma demo_mounted:
  "\<exists>fs w bd. mount Debug (demo_lib ok) (mem_vt Debug) demo_device False demo_process = Done (Inr fs, w) \<and>
     mnts demo_tables w ''/mp0/'' = Some bd"
proof -
  obtain fs w where m: "mount Debug (demo_lib ok) (mem_vt Debug) demo_device False demo_process =
      Done (Inr fs, w)" using demo_mount by blast
  obtain a h where new: "BlockDeviceWrapper_new Debug (mem_vt Debug) demo_device
      (heap (cst demo_process)) = Done (a, h)" using demo_new by blast
  have "process_wf demo_process" by (simp add: process_wf_def demo_process_def heap_wf_empty)
  from mount_view [OF demo_contract [of ok] this new, of False] m obtain bd journal where
    "fs = new_mount (counter demo_process) a False journal"
    "mnts demo_tables w = (mnts demo_tables demo_process)(mount_point fs \<mapsto> bd)" by auto
  moreover have "mp_name 0 = ''/mp0/''" by code_simp
  then have "mp_name (counter demo_process) = ''/mp0/''" by (simp add: demo_process_def)
  ultimately have "mnts demo_tables w ''/mp0/'' = Some bd" by (simp add: new_mount_def)
  with m show ?thesis by blast
qed

lemma demo_reach:
  assumes "mount Debug (demo_lib ok) (mem_vt Debug) demo_device False demo_process = Done (Inr fs, w)"
  shows "sys_reach Debug (demo_lib ok) demo_process ([fs], [], [], w)"
proof -
  have "counter demo_process \<noteq> - 1" by (simp add: demo_process_def)
  from sys_step.mount_ok [OF this assms] show ?thesis
    using sys_reach.step [OF sys_reach.start] assms by blast
qed

theorem reachable_devices_exact_witness:
  "\<exists>fs w. sys_reach Debug (demo_lib False) demo_process ([fs], [], [], w) \<and>
     regs demo_tables w (device_name fs) \<noteq> None \<and>
     h_wrappers (heap (cst w)) (wrapper fs) \<noteq> None"
proof -
  obtain fs w where "mount Debug (demo_lib False) (mem_vt Debug) demo_device False demo_process =
      Done (Inr fs, w)" using demo_mount by blast
  note r = demo_reach [OF this]
  from reachable_devices_exact [OF demo_contract demo_pristine r]
  have "regs demo_tables w (device_name fs) \<noteq> None" "h_wrappers (heap (cst w)) (wrapper fs) \<noteq> None"
    by simp_all
  with r show ?thesis by blast
qed

text \<open>
  No use after free through the mount table: if moreover unmounting never leaves an entry
  behind, then at every moment each mount point of lwext4 belongs to a live handle, and a block
  read or write for the device mounted there finds its wrapper (the callbacks never follow a
  broken pointer).
\<close>

theorem reachable_mounts_live:
  assumes "lib_contract T L" and "umount_reliable T L" and "pristine T w0"
    and "sys_reach p L w0 (H, F, D, w)" and "mnts T w mp = Some bd"
  shows "(\<exists>fs \<in> set H. mount_point fs = mp \<and> get_wrapper (heap (cst w)) bd = Some (wrapper fs)) \<and>
    blockdev_bread q bd buf b n (heap (cst w)) \<noteq> None \<and>
    blockdev_bwrite q bd buf b n (heap (cst w)) \<noteq> None"
proof -
  have inv: "devices_inv T w H" "mounts_inv T w H"
    using reach_inv [OF assms(4,1,3)] assms(2) by simp_all
  then obtain fs where fs: "fs \<in> set H" "mount_point fs = mp" "boxes w (wrapper fs) = Some bd"
    using assms(5) by (auto simp: mounts_inv_def)
  have "process_wf w" using inv(1) by (simp add: devices_inv_def)
  from callbacks_reach [OF this fs(3)] fs show ?thesis by blast
qed

theorem reachable_mounts_live_witness:
  "\<exists>w bd. mnts demo_tables (w :: (demo, MemoryBlockDevice) process) ''/mp0/'' = Some bd \<and>
     blockdev_bread Debug bd [0, 0] 1 1 (heap (cst w)) \<noteq> None"
proof -
  obtain fs w bd where m: "mount Debug (demo_lib True) (mem_vt Debug) demo_device False demo_process =
      Done (Inr fs, w)" "mnts demo_tables w ''/mp0/'' = Some bd"
    using demo_mounted by blast
  from reachable_mounts_live [OF demo_contract demo_reliable demo_pristine demo_reach [OF m(1)] m(2)] m(2)
  show ?thesis by blast
qed

text \<open>
  C5: an open file or directory never outlives its file system: whatever was opened, used, closed,
  mounted and unmounted before, even when unmounting other file systems failed, the file system
  of each open handle is held by a live mount, its device is registered and mounted at its mount
  point, and block reads and writes for it find its own device.
\<close>

theorem open_handles_live:
  assumes "lib_contract T L" and "pristine T w0" and "sys_reach p L w0 (H, F, D, w)"
    and "fs \<in> ffs ` set F \<union> dfs ` set D"
  shows "fs \<in> set H \<and> (\<exists>bd. regs T w (device_name fs) = Some bd \<and> mnts T w (mount_point fs) = Some bd \<and>
    get_wrapper (heap (cst w)) bd = Some (wrapper fs) \<and>
    blockdev_bread q bd buf b n (heap (cst w)) \<noteq> None \<and>
    blockdev_bwrite q bd buf b n (heap (cst w)) \<noteq> None)"
proof -
  have inv: "handles_inv w H" "devices_inv T w H" "live_inv T w H" "borrow_inv H F D"
    using reach_inv [OF assms(3,1,2)] by simp_all
  have fs: "fs \<in> set H" using assms(4) inv(4) by (auto simp: borrow_inv_def)
  then have "wrapper fs \<in> dom (boxes w)" using inv(2) by (simp add: devices_inv_def)
  then obtain bd where bd: "boxes w (wrapper fs) = Some bd" by blast
  with fs inv have "mnts T w (mount_point fs) = Some bd" "regs T w (device_name fs) = Some bd"
    by (auto simp: live_inv_def devices_inv_def)
  moreover have wf: "process_wf w" using inv(2) by (simp add: devices_inv_def)
  note callbacks_reach [OF wf bd, where q = q and buf = buf and b = b and n = n]
  ultimately show ?thesis using fs by (intro conjI exI [of _ bd]) simp_all
qed

lemma demo_open:
  assumes "mount Debug (demo_lib ok) (mem_vt Debug) demo_device False demo_process = Done (Inr fs, w)"
  shows "\<exists>f w'. ffs f = fs \<and> sys_reach Debug (demo_lib ok) demo_process ([fs], [f], [], w')"
proof -
  obtain a h where new: "BlockDeviceWrapper_new Debug (mem_vt Debug) demo_device
      (heap (cst demo_process)) = Done (a, h)" using demo_new by blast
  have "process_wf demo_process" by (simp add: process_wf_def demo_process_def heap_wf_empty)
  from mount_view [OF demo_contract [of ok] this new, where ro = False] assms obtain did where
    "mount_point fs = mp_name did" by (auto simp: new_mount_def)
  then have "make_path fs ''a'' = Inr (mp_name did @ ''a'')" by (simp add: make_path_eq)
  then obtain f w' where "open_file (demo_lib ok) fs ''a'' READ w = Done (Inr f, w')"
    by (simp add: open_file_def File_open_def ffi_defs rust_simps try_st_def demo_defs)
  with open_file_fs [OF this] sys_reach.step [OF demo_reach [OF assms] sys_step.open_ok] show ?thesis
    by fastforce
qed

theorem open_handles_live_witness:
  "\<exists>fs f w bd. sys_reach Debug (demo_lib False) demo_process ([fs], [f], [], w) \<and> ffs f = fs \<and>
     mnts demo_tables w (mount_point fs) = Some bd \<and>
     blockdev_bread Debug bd [0, 0] 1 1 (heap (cst w)) \<noteq> None"
proof -
  obtain fs w where "mount Debug (demo_lib False) (mem_vt Debug) demo_device False demo_process =
      Done (Inr fs, w)" using demo_mount by blast
  then obtain f w' where f: "ffs f = fs"
    "sys_reach Debug (demo_lib False) demo_process ([fs], [f], [], w')" using demo_open by blast
  from open_handles_live [OF demo_contract demo_pristine f(2), of fs] f show ?thesis by fastforce
qed

section \<open>Winding down\<close>

lemma close_files: "\<exists>w'. (sys_step p L ^^ length F) (H, F, D, w) (H, [], D, w')"
proof (induction F arbitrary: w)
  case (Cons f F)
  obtain w1 where "File_drop L ((f # F) ! 0) w = Done ((), w1)"
    by (simp add: File_drop_def ffi_defs rust_simps)
  from sys_step.file_close [OF _ this, of p H D]
  have 1: "sys_step p L (H, f # F, D, w) (H, F, D, w1)" by (simp add: without_def)
  obtain w' where "(sys_step p L ^^ length F) (H, F, D, w1) (H, [], D, w')" using Cons by blast
  from relpowp_Suc_I2 [OF 1 this] show ?case by auto
qed simp

lemma close_dirs: "\<exists>w'. (sys_step p L ^^ length D) (H, F, D, w) (H, F, [], w')"
proof (induction D arbitrary: w)
  case (Cons d D)
  obtain w1 where "Dir_drop L ((d # D) ! 0) w = Done ((), w1)"
    by (simp add: Dir_drop_def ffi_defs rust_simps)
  from sys_step.dir_close [OF _ this, of p H F]
  have 1: "sys_step p L (H, F, d # D, w) (H, F, D, w1)" by (simp add: without_def)
  obtain w' where "(sys_step p L ^^ length D) (H, F, D, w1) (H, F, [], w')" using Cons by blast
  from relpowp_Suc_I2 [OF 1 this] show ?case by auto
qed simp

lemma drop_mounts: "\<exists>w'. (sys_step p L ^^ length H) (H, [], [], w) ([], [], [], w')"
proof (induction H arbitrary: w)
  case (Cons fs H)
  obtain w1 where "Ext4Fs_drop L fs w = Done ((), w1)" using drop_eq by (metis surj_pair)
  from sys_step.scope_end [OF _ _ this, of "fs # H" "[]" "[]" p]
  have 1: "sys_step p L (fs # H, [], [], w) (H, [], [], w1)" by (simp add: unborrowed_def)
  obtain w' where "(sys_step p L ^^ length H) (H, [], [], w1) ([], [], [], w')" using Cons by blast
  from relpowp_Suc_I2 [OF 1 this] show ?case by auto
qed simp

lemma reach_relpowp:
  "(sys_step p L ^^ n) s s' \<Longrightarrow> sys_reach p L w0 s \<Longrightarrow> sys_reach p L w0 s'"
proof (induction n arbitrary: s')
  case (Suc n)
  from Suc.prems(1) obtain s1 where "(sys_step p L ^^ n) s s1" "sys_step p L s1 s'" by (rule relpowp_Suc_E)
  with Suc.IH Suc.prems(2) show ?case by (blast intro: sys_reach.step)
qed simp

text \<open>
  C6: if lwext4 keeps its tables as documented and an unmount never leaves its entry behind
  (\<open>umount_reliable\<close>; otherwise a failed unmount leaves a mount point behind), a process that
  started with nothing mounted can always wind down: from every state it can reach, letting its
  open files and directories and then its mounts go out of scope takes exactly one step for each,
  none of which can panic or get stuck, and leaves nothing behind: no device registered, no mount
  point, no wrapper alive.
\<close>

theorem processes_wind_down:
  assumes "lib_contract T L" and "umount_reliable T L" and "pristine T w0"
    and "sys_reach p L w0 (H, F, D, w)"
  shows "\<exists>w'. (sys_step p L ^^ (length F + length D + length H)) (H, F, D, w) ([], [], [], w') \<and>
    regs T w' = Map.empty \<and> mnts T w' = Map.empty \<and> h_wrappers (heap (cst w')) = Map.empty"
proof -
  obtain w1 w2 w' where "(sys_step p L ^^ length F) (H, F, D, w) (H, [], D, w1)"
    "(sys_step p L ^^ length D) (H, [], D, w1) (H, [], [], w2)"
    "(sys_step p L ^^ length H) (H, [], [], w2) ([], [], [], w')"
    using close_files close_dirs drop_mounts by metis
  then have run: "(sys_step p L ^^ (length F + length D + length H)) (H, F, D, w) ([], [], [], w')"
    unfolding relpowp_add by blast
  from reach_relpowp [OF this assms(4)]
  have "sys_reach p L w0 ([], [], [], w')" .
  from reach_inv [OF this assms(1,3)] assms(2)
  have inv: "devices_inv T w' []" "mounts_inv T w' []" by simp_all
  have "regs T w' n = None" "mnts T w' n = None" "boxes w' a = None" for n a
    using inv by (auto simp: devices_inv_def mounts_inv_def)
  then show ?thesis using run by (auto simp: fun_eq_iff boxes_def as_bdev_ptr_def)
qed

theorem processes_wind_down_witness:
  "\<exists>fs f w w'. sys_reach Debug (demo_lib True) demo_process ([fs], [f], [], w) \<and>
     (sys_step Debug (demo_lib True) ^^ 2) ([fs], [f], [], w) ([], [], [], w') \<and>
     regs demo_tables w' = Map.empty \<and>
     mnts demo_tables w' = Map.empty \<and> h_wrappers (heap (cst w')) = Map.empty"
proof -
  obtain fs w where "mount Debug (demo_lib True) (mem_vt Debug) demo_device False demo_process =
      Done (Inr fs, w)" using demo_mount by blast
  then obtain f w' where f: "sys_reach Debug (demo_lib True) demo_process ([fs], [f], [], w')"
    using demo_open by blast
  have "length [f] + length ([] :: Dir list) + length [fs] = 2" by simp
  with processes_wind_down [OF demo_contract demo_reliable demo_pristine f] f show ?thesis by metis
qed

end
