(* ===== verification/CPrograms.thy ===== *)
theory CPrograms
  imports SystemProps
begin

text \<open>
  lwext4 as a program: between two returns to Rust the library may call the six callbacks of a
  device any number of times, each depending on the earlier answers, fill the physical buffer, and
  write its own fields of the two C structures. Whatever it does in this way keeps the wiring of
  every wrapper, which is the part of \<open>lib_contract\<close> that speaks of the heap, and on the devices
  that are mounted it never follows a broken pointer.
\<close>

section \<open>Programs over the callbacks\<close>

datatype 'a cprog = CRet 'a
  | COpen addr "i32 \<Rightarrow> 'a cprog"
  | CRead addr bytes u64 u32 "i32 \<times> bytes \<Rightarrow> 'a cprog"
  | CWrite addr bytes u64 u32 "i32 \<Rightarrow> 'a cprog"
  | CClose addr "i32 \<Rightarrow> 'a cprog"
  | CLock addr "i32 \<Rightarrow> 'a cprog"
  | CUnlock addr "i32 \<Rightarrow> 'a cprog"
  | CFill addr bytes "'a cprog"
  | CIface addr u32 u32 u32 "'a cprog"
  | CBdev addr "ext4_blockdev \<Rightarrow> ext4_blockdev" "'a cprog"

text \<open>Continuing after a callback; the chain of pointers from a C structure to its buffer.\<close>

definition after_call ::
  "('r \<times> 'd rheap) rust option \<Rightarrow> ('r \<Rightarrow> 'd rheap \<Rightarrow> ('a \<times> 'd rheap) rust option) \<Rightarrow>
   ('a \<times> 'd rheap) rust option" where
  "after_call m k = (case m of None \<Rightarrow> None | Some Panic \<Rightarrow> Some Panic | Some (Done (r, h)) \<Rightarrow> k r h)"

definition iface_of :: "'d rheap \<Rightarrow> addr \<Rightarrow> (addr \<times> ext4_blockdev_iface) option" where
  "iface_of h bdev = Option.bind (h_bdevs h bdev) (\<lambda>b.
     map_option (\<lambda>i. (bd_bdif b, i)) (h_bdifs h (bd_bdif b)))"

definition fill_buffer :: "addr \<Rightarrow> bytes \<Rightarrow> 'd rheap \<Rightarrow> 'd rheap option" where
  "fill_buffer bdev xs h = Option.bind (iface_of h bdev) (\<lambda>(a, i).
     if h_bufs h (ph_bbuf i) = None then None
     else Some (h\<lparr>h_bufs := (h_bufs h)(ph_bbuf i \<mapsto> xs)\<rparr>))"

definition set_iface :: "addr \<Rightarrow> u32 \<Rightarrow> u32 \<Rightarrow> u32 \<Rightarrow> 'd rheap \<Rightarrow> 'd rheap option" where
  "set_iface bdev refs reads writes h = map_option (\<lambda>(a, i).
     h\<lparr>h_bdifs := (h_bdifs h)(a \<mapsto> i\<lparr>ph_refctr := refs, bread_ctr := reads, bwrite_ctr := writes\<rparr>)\<rparr>)
     (iface_of h bdev)"

text \<open>The fields of the device structure that are lwext4's: all but the pointer to the interface.\<close>

definition set_bdev :: "addr \<Rightarrow> (ext4_blockdev \<Rightarrow> ext4_blockdev) \<Rightarrow> 'd rheap \<Rightarrow> 'd rheap option" where
  "set_bdev bdev g h = map_option (\<lambda>b. h\<lparr>h_bdevs := (h_bdevs h)(bdev \<mapsto> (g b)\<lparr>bd_bdif := bd_bdif b\<rparr>)\<rparr>)
     (h_bdevs h bdev)"

primrec run_c :: "profile \<Rightarrow> 'a cprog \<Rightarrow> 'd rheap \<Rightarrow> ('a \<times> 'd rheap) rust option" where
  "run_c p (CRet x) h = Some (Done (x, h))"
| "run_c p (COpen b k) h = after_call (blockdev_open b h) (\<lambda>r. run_c p (k r))"
| "run_c p (CRead b buf n cnt k) h = after_call (blockdev_bread p b buf n cnt h) (\<lambda>r. run_c p (k r))"
| "run_c p (CWrite b buf n cnt k) h = after_call (blockdev_bwrite p b buf n cnt h) (\<lambda>r. run_c p (k r))"
| "run_c p (CClose b k) h = after_call (blockdev_close b h) (\<lambda>r. run_c p (k r))"
| "run_c p (CLock b k) h = run_c p (k (blockdev_lock b)) h"
| "run_c p (CUnlock b k) h = run_c p (k (blockdev_unlock b)) h"
| "run_c p (CFill b xs k) h = Option.bind (fill_buffer b xs h) (run_c p k)"
| "run_c p (CIface b x y z k) h = Option.bind (set_iface b x y z h) (run_c p k)"
| "run_c p (CBdev b g k) h = Option.bind (set_bdev b g h) (run_c p k)"

text \<open>The device structures a program uses, whatever answers it gets.\<close>

primrec uses_only :: "addr set \<Rightarrow> 'a cprog \<Rightarrow> bool" where
  "uses_only A (CRet x) \<longleftrightarrow> True"
| "uses_only A (COpen b k) \<longleftrightarrow> b \<in> A \<and> (\<forall>r. uses_only A (k r))"
| "uses_only A (CRead b buf n cnt k) \<longleftrightarrow> b \<in> A \<and> (\<forall>r. uses_only A (k r))"
| "uses_only A (CWrite b buf n cnt k) \<longleftrightarrow> b \<in> A \<and> (\<forall>r. uses_only A (k r))"
| "uses_only A (CClose b k) \<longleftrightarrow> b \<in> A \<and> (\<forall>r. uses_only A (k r))"
| "uses_only A (CLock b k) \<longleftrightarrow> b \<in> A \<and> (\<forall>r. uses_only A (k r))"
| "uses_only A (CUnlock b k) \<longleftrightarrow> b \<in> A \<and> (\<forall>r. uses_only A (k r))"
| "uses_only A (CFill b xs k) \<longleftrightarrow> b \<in> A \<and> uses_only A k"
| "uses_only A (CIface b x y z k) \<longleftrightarrow> b \<in> A \<and> uses_only A k"
| "uses_only A (CBdev b g k) \<longleftrightarrow> b \<in> A \<and> uses_only A k"

section \<open>Wiring is kept\<close>

lemma agree_update: "m x = Some v \<Longrightarrow> g v' = g v \<Longrightarrow> agree g m (m(x \<mapsto> v'))"
  by (simp add: agree_def)

lemma with_device_wiring:
  assumes "with_device b m h = Some (Done (r, h'))"
  shows "same_wiring h h'"
  using assms
  by (auto simp: with_device_def bind_eq_Some_conv bind_rust_Done_iff same_wiring_def pointers_def
      intro!: agree_update)

lemma fields_wiring:
  "fill_buffer b xs h = Some h' \<Longrightarrow> same_wiring h h'"
  "set_iface b x y z h = Some h' \<Longrightarrow> same_wiring h h'"
  "set_bdev b g h = Some h' \<Longrightarrow> same_wiring h h'"
  by (auto simp: fill_buffer_def set_iface_def set_bdev_def iface_of_def bind_eq_Some_conv same_wiring_def
      intro!: agree_update split: if_splits)

lemma after_call_Done:
  "after_call m k = Some (Done y) \<longleftrightarrow> (\<exists>r h. m = Some (Done (r, h)) \<and> k r h = Some (Done y))"
  by (auto simp: after_call_def split: option.splits rust.splits prod.splits)

lemma call_wiring:
  assumes "after_call m k = Some (Done (x, h'))" and "\<And>r h1. m = Some (Done (r, h1)) \<Longrightarrow> same_wiring h h1"
    and "\<And>r h1. k r h1 = Some (Done (x, h')) \<Longrightarrow> same_wiring h1 h'"
  shows "same_wiring h h'"
  using assms unfolding after_call_Done by (blast intro: same_wiring_trans)

lemma field_wiring:
  assumes "Option.bind m k = Some (Done (x, h'))" and "\<And>h1. m = Some h1 \<Longrightarrow> same_wiring h h1"
    and "\<And>h1. k h1 = Some (Done (x, h')) \<Longrightarrow> same_wiring h1 h'"
  shows "same_wiring h h'"
  using assms unfolding bind_eq_Some_conv by (blast intro: same_wiring_trans)

lemmas callback_defs = blockdev_open_def blockdev_bread_def blockdev_bwrite_def blockdev_close_def

lemma run_c_wiring:
  fixes h :: "'d rheap"
  shows "run_c p prog h = Some (Done (x, h')) \<Longrightarrow> same_wiring h h'"
proof (induction prog arbitrary: h)
  case (CRet y)
  then show ?case by simp
next
  case (COpen b k)
  from COpen.prems show ?case unfolding run_c.simps callback_defs
    by (rule call_wiring) (erule with_device_wiring, rule COpen.IH [OF rangeI])
next
  case (CRead b buf n cnt k)
  from CRead.prems show ?case unfolding run_c.simps callback_defs
    by (rule call_wiring) (erule with_device_wiring, rule CRead.IH [OF rangeI])
next
  case (CWrite b buf n cnt k)
  from CWrite.prems show ?case unfolding run_c.simps callback_defs
    by (rule call_wiring) (erule with_device_wiring, rule CWrite.IH [OF rangeI])
next
  case (CClose b k)
  from CClose.prems show ?case unfolding run_c.simps callback_defs
    by (rule call_wiring) (erule with_device_wiring, rule CClose.IH [OF rangeI])
next
  case (CLock b k)
  from CLock.prems show ?case by (auto intro: CLock.IH [OF rangeI])
next
  case (CUnlock b k)
  from CUnlock.prems show ?case by (auto intro: CUnlock.IH [OF rangeI])
next
  case (CFill b xs k)
  from CFill.prems show ?case unfolding run_c.simps
    by (rule field_wiring) (erule fields_wiring, rule CFill.IH)
next
  case (CIface b x y z k)
  from CIface.prems show ?case unfolding run_c.simps
    by (rule field_wiring) (erule fields_wiring, rule CIface.IH)
next
  case (CBdev b g k)
  from CBdev.prems show ?case unfolding run_c.simps
    by (rule field_wiring) (erule fields_wiring, rule CBdev.IH)
qed

section \<open>No broken pointer\<close>

definition live_bdevs :: "'d rheap \<Rightarrow> addr set" where
  "live_bdevs h = {b. \<exists>a. as_bdev_ptr h a = Some b}"

lemma live_bdevs_wiring: "same_wiring h h' \<Longrightarrow> live_bdevs h' = live_bdevs h"
  by (simp add: live_bdevs_def same_wiring_as_bdev_ptr)

lemma live_bdev:
  assumes "heap_wf h" and "b \<in> live_bdevs h"
  obtains a w i buf where "h_wrappers h a = Some w" "w_bdev w = b" "iface_of h b = Some (w_bdif w, i)"
    "h_bufs h (ph_bbuf i) = Some buf" "h_bdevs h b \<noteq> None"
proof -
  obtain a w where w: "h_wrappers h a = Some w" "w_bdev w = b"
    using assms(2) by (auto simp: live_bdevs_def as_bdev_ptr_def)
  from heap_wf_wired [OF assms(1) w(1)] show thesis
    using that [OF w] w(2) by (auto simp: wired_def iface_of_def)
qed

lemma with_device_live:
  assumes "heap_wf h" and "b \<in> live_bdevs h"
  shows "with_device b m h \<noteq> None"
proof (rule live_bdev [OF assms])
  fix a w assume "h_wrappers h a = Some w" "w_bdev w = b"
  then show ?thesis using with_device_wf [OF assms(1), of a w m] by auto
qed

lemma fields_live:
  assumes "heap_wf h" and "b \<in> live_bdevs h"
  shows "fill_buffer b xs h \<noteq> None" and "set_iface b x y z h \<noteq> None" and "set_bdev b g h \<noteq> None"
proof -
  have "fill_buffer b xs h \<noteq> None \<and> set_iface b x y z h \<noteq> None \<and> set_bdev b g h \<noteq> None"
  proof (rule live_bdev [OF assms])
    fix w i buf assume "iface_of h b = Some (w_bdif w, i)" "h_bufs h (ph_bbuf i) = Some buf" "h_bdevs h b \<noteq> None"
    then show ?thesis by (simp add: fill_buffer_def set_iface_def set_bdev_def)
  qed
  then show "fill_buffer b xs h \<noteq> None" and "set_iface b x y z h \<noteq> None" and "set_bdev b g h \<noteq> None"
    by blast+
qed

text \<open>One callback, or one write of a field, before the rest of the program.\<close>

lemma call_defined:
  fixes h :: "'d rheap" and m :: "('r \<times> 'd rheap) rust option"
  assumes wf: "heap_wf h" and m: "m \<noteq> None" "\<And>r h'. m = Some (Done (r, h')) \<Longrightarrow> same_wiring h h'"
    and use: "\<forall>r. uses_only (live_bdevs h) (k r)"
    and IH: "\<And>r (h' :: 'd rheap). heap_wf h' \<Longrightarrow> uses_only (live_bdevs h') (k r) \<Longrightarrow> run_c p (k r) h' \<noteq> None"
  shows "after_call m (\<lambda>r. run_c p (k r)) \<noteq> None"
proof -
  have "run_c p (k r) h' \<noteq> None" if "m = Some (Done (r, h'))" for r h'
    using IH [OF same_wiring_wf [OF m(2) [OF that] wf]] use live_bdevs_wiring [OF m(2) [OF that]] by simp
  with m(1) show ?thesis by (auto simp: after_call_def split: option.splits rust.splits prod.splits)
qed

lemma field_defined:
  fixes h :: "'d rheap"
  assumes wf: "heap_wf h" and m: "m \<noteq> None" "\<And>h'. m = Some h' \<Longrightarrow> same_wiring h h'"
    and use: "uses_only (live_bdevs h) k"
    and IH: "\<And>h' :: 'd rheap. heap_wf h' \<Longrightarrow> uses_only (live_bdevs h') k \<Longrightarrow> run_c p k h' \<noteq> None"
  shows "Option.bind m (run_c p k) \<noteq> None"
proof -
  obtain h' where h': "m = Some h'" using m(1) by blast
  from IH [OF same_wiring_wf [OF m(2) [OF h'] wf]] use live_bdevs_wiring [OF m(2) [OF h']] h'
  show ?thesis by simp
qed

lemma run_c_defined:
  fixes h :: "'d rheap"
  assumes "heap_wf h" and "uses_only (live_bdevs h) prog"
  shows "run_c p prog h \<noteq> None"
  using assms
proof (induction prog arbitrary: h)
  case (CRet x)
  then show ?case by simp
next
  case (COpen b k)
  show ?case unfolding run_c.simps callback_defs
    by (rule call_defined [OF COpen.prems(1) with_device_live with_device_wiring _ COpen.IH [OF rangeI]])
      (use COpen.prems in simp_all)
next
  case (CRead b buf n cnt k)
  show ?case unfolding run_c.simps callback_defs
    by (rule call_defined [OF CRead.prems(1) with_device_live with_device_wiring _ CRead.IH [OF rangeI]])
      (use CRead.prems in simp_all)
next
  case (CWrite b buf n cnt k)
  show ?case unfolding run_c.simps callback_defs
    by (rule call_defined [OF CWrite.prems(1) with_device_live with_device_wiring _ CWrite.IH [OF rangeI]])
      (use CWrite.prems in simp_all)
next
  case (CClose b k)
  show ?case unfolding run_c.simps callback_defs
    by (rule call_defined [OF CClose.prems(1) with_device_live with_device_wiring _ CClose.IH [OF rangeI]])
      (use CClose.prems in simp_all)
next
  case (CLock b k)
  then show ?case by simp
next
  case (CUnlock b k)
  then show ?case by simp
next
  case (CFill b xs k)
  show ?case unfolding run_c.simps
    by (rule field_defined [OF CFill.prems(1) fields_live(1) fields_wiring(1) _ CFill.IH])
      (use CFill.prems in simp_all)
next
  case (CIface b x y z k)
  show ?case unfolding run_c.simps
    by (rule field_defined [OF CIface.prems(1) fields_live(2) fields_wiring(2) _ CIface.IH])
      (use CIface.prems in simp_all)
next
  case (CBdev b g k)
  show ?case unfolding run_c.simps
    by (rule field_defined [OF CBdev.prems(1) fields_live(3) fields_wiring(3) _ CBdev.IH])
      (use CBdev.prems in simp_all)
qed

section \<open>Property\<close>

lemma uses_only_mono: "uses_only A prog \<Longrightarrow> A \<subseteq> B \<Longrightarrow> uses_only B prog"
  by (induction prog) auto

text \<open>
  C2: no use after free through the mount table, whatever lwext4 does between two returns: if
  unmounting never leaves an entry behind, then at every moment of any process each mount point
  belongs to a live handle; whatever
  sequence of callbacks, each chosen by the earlier answers, of fillings of the buffer and of writes
  to its own fields lwext4 runs on the devices that are mounted, it never follows a broken pointer;
  when it returns, no box has moved or gone, and the C structure of every live handle still
  leads back to that handle's wrapper.
\<close>

theorem c_programs_safe:
  assumes "lib_contract T L" and "umount_reliable T L" and "pristine T w0"
    and "sys_reach p L w0 (H, F, D, w)" and "uses_only {bd. \<exists>mp. mnts T w mp = Some bd} prog"
  shows "(\<forall>mp bd. mnts T w mp = Some bd \<longrightarrow>
      (\<exists>fs \<in> set H. mount_point fs = mp \<and> get_wrapper (heap (cst w)) bd = Some (wrapper fs))) \<and>
    run_c q prog (heap (cst w)) \<noteq> None \<and>
    (\<forall>x h'. run_c q prog (heap (cst w)) = Some (Done (x, h')) \<longrightarrow>
       same_wiring (heap (cst w)) h' \<and> heap_wf h' \<and>
       (\<forall>fs \<in> set H. \<exists>bd. as_bdev_ptr h' (wrapper fs) = Some bd \<and> get_wrapper h' bd = Some (wrapper fs)))"
proof -
  have inv: "devices_inv T w H" "mounts_inv T w H"
    using reach_inv [OF assms(4,1,3)] assms(2) by simp_all
  have wf: "heap_wf (heap (cst w))" and live: "dom (boxes w) = wrapper ` set H"
    using inv(1) by (simp_all add: devices_inv_def process_wf_def)
  have "{bd. \<exists>mp. mnts T w mp = Some bd} \<subseteq> live_bdevs (heap (cst w))"
    using inv(2) by (force simp: mounts_inv_def live_bdevs_def boxes_def)
  from run_c_defined [OF wf uses_only_mono [OF assms(5) this]]
  have "run_c q prog (heap (cst w)) \<noteq> None" .
  moreover have "same_wiring (heap (cst w)) h' \<and> heap_wf h' \<and>
      (\<forall>fs \<in> set H. \<exists>bd. as_bdev_ptr h' (wrapper fs) = Some bd \<and> get_wrapper h' bd = Some (wrapper fs))"
    if run: "run_c q prog (heap (cst w)) = Some (Done (x, h'))" for x h'
  proof -
    note sw = run_c_wiring [OF run]
    note wf' = same_wiring_wf [OF sw wf]
    have "\<exists>bd. as_bdev_ptr h' (wrapper fs) = Some bd \<and> get_wrapper h' bd = Some (wrapper fs)"
      if "fs \<in> set H" for fs
    proof -
      have "wrapper fs \<in> dom (boxes w)" using that live by simp
      then obtain v where v: "h_wrappers h' (wrapper fs) = Some v"
        using same_wiring_live [OF sw, of "wrapper fs"]
        by (cases "h_wrappers h' (wrapper fs)") (auto simp: boxes_def as_bdev_ptr_def)
      then show ?thesis using wired_get_wrapper [OF heap_wf_wired [OF wf' v] v] by (simp add: as_bdev_ptr_def)
    qed
    with sw wf' show ?thesis by blast
  qed
  moreover have "\<exists>fs \<in> set H. mount_point fs = mp \<and> get_wrapper (heap (cst w)) bd = Some (wrapper fs)"
    if "mnts T w mp = Some bd" for mp bd
  proof -
    obtain fs where fs: "fs \<in> set H" "mount_point fs = mp" "boxes w (wrapper fs) = Some bd"
      using inv(2) \<open>mnts T w mp = Some bd\<close> unfolding mounts_inv_def by blast
    have "process_wf w" using inv(1) by (simp add: devices_inv_def)
    from handle_leads_back [OF this fs(3)] fs show ?thesis by blast
  qed
  ultimately show ?thesis by blast
qed

text \<open>Copying block 1 over block 0.\<close>

definition demo_prog :: "addr \<Rightarrow> i32 cprog" where
  "demo_prog bd = COpen bd (\<lambda>r. CRead bd [0, 0] 1 1 (\<lambda>(r, buf). CFill bd buf (CWrite bd buf 0 1 CRet)))"

theorem c_programs_safe_witness:
  "\<exists>(w :: (demo, MemoryBlockDevice) process) bd. mnts demo_tables w ''/mp0/'' = Some bd \<and>
     run_c Debug (demo_prog bd) (heap (cst w)) \<noteq> None"
proof -
  obtain fs w bd where m: "mount Debug (demo_lib True) (mem_vt Debug) demo_device False demo_process =
      Done (Inr fs, w)" "mnts demo_tables w ''/mp0/'' = Some bd"
    using demo_mounted by blast
  have "uses_only {bd. \<exists>mp. mnts demo_tables w mp = Some bd} (demo_prog bd)"
    using m(2) by (auto simp: demo_prog_def)
  from c_programs_safe [OF demo_contract demo_reliable demo_pristine demo_reach [OF m(1)] this] m(2)
  show ?thesis by blast
qed

end
