(* ===== verification/LifecycleProps.thy ===== *)
theory LifecycleProps
  imports SystemProps
begin

text \<open>
  The properties of mounting, unmounting and formatting, and of the paths of a mounted file system.
\<close>

section \<open>Single operations\<close>

lemma mount_effect:
  assumes "lib_contract T L" and "process_wf w"
  shows "case mount p L V d ro w of
     Panic \<Rightarrow> p = Debug \<and> 2 ^ 64 \<le> unat (vt_block_count V d) * unat (vt_block_size V d)
   | Done (Inl e, w') \<Rightarrow> regs T w' = regs T w \<and> mnts T w' = mnts T w \<and> boxes w' = boxes w \<and>
       process_wf w'
   | Done (Inr fs, w') \<Rightarrow> \<exists>bd. device_name fs = dev_name (counter w) \<and>
       mount_point fs = mp_name (counter w) \<and> regs T w (device_name fs) = None \<and>
       boxes w (wrapper fs) = None \<and> regs T w' = (regs T w)(device_name fs \<mapsto> bd) \<and>
       mnts T w' = (mnts T w)(mount_point fs \<mapsto> bd) \<and> boxes w' = (boxes w)(wrapper fs \<mapsto> bd) \<and>
       is_read_only fs = ro \<and> (journal_active fs \<longrightarrow> \<not> ro) \<and> process_wf w'"
proof (cases "BlockDeviceWrapper_new p V d (heap (cst w))")
  case Panic
  then have "p = Debug \<and> 2 ^ 64 \<le> unat (vt_block_count V d) * unat (vt_block_size V d)"
    by (auto simp: wrapper_new_eq bind_rust_Panic_iff mul_u64_def Let_def split: if_splits)
  moreover have "mount p L V d ro w = Panic" by (rule mount_panics [OF Panic])
  ultimately show ?thesis by (simp only: rust.case)
next
  case (Done x)
  then obtain a h where "BlockDeviceWrapper_new p V d (heap (cst w)) = Done (a, h)" by (cases x) auto
  from mount_view [OF assms this, of ro] obtain r w' where m: "mount p L V d ro w = Done (r, w')"
    and v: "process_wf w'" "case r of
       Inl e \<Rightarrow> regs T w' = regs T w \<and> mnts T w' = mnts T w \<and> boxes w' = boxes w
     | Inr fs \<Rightarrow> \<exists>bd journal. fs = new_mount (counter w) a ro journal \<and> (journal \<longrightarrow> \<not> ro) \<and>
         regs T w (device_name fs) = None \<and> regs T w' = (regs T w)(device_name fs \<mapsto> bd) \<and>
         mnts T w' = (mnts T w)(mount_point fs \<mapsto> bd) \<and>
         boxes w a = None \<and> boxes w' = (boxes w)(a \<mapsto> bd)" by blast
  show ?thesis
  proof (cases r)
    case (Inl e)
    with m v show ?thesis by simp
  next
    case (Inr fs)
    with m v show ?thesis by (auto simp: new_mount_def is_read_only_def)
  qed
qed

text \<open>
  C23: mounting is all or nothing: in every process that starts with nothing mounted and then
  mounts (fewer than \<open>2 ^ 64\<close> times), unmounts, drops, formats and works on files in any order, if
  lwext4 behaves as documented,
  mounting panics only where the size computation of the wrapper does, otherwise it returns; when
  it returns an error, the device table, the mount table and the set of live wrappers are as before
  (the wrapper is freed, the name unregistered); when it returns a handle, exactly one device, one
  mount point and one live wrapper were added, and none of the three was in use before: the device
  name, the mount point and the address are free in the tables as they were, also if an earlier
  unmount failed and left its mount point behind; the journal is active only if the file system is
  writable.
\<close>

theorem mount_all_or_nothing:
  assumes "lib_contract T L" and "pristine T w0" and "sys_reach q L w0 (H, F, D, w)"
  shows "case mount p L V d ro w of
     Panic \<Rightarrow> p = Debug \<and> 2 ^ 64 \<le> unat (vt_block_count V d) * unat (vt_block_size V d)
   | Done (Inl e, w') \<Rightarrow> regs T w' = regs T w \<and> mnts T w' = mnts T w \<and> boxes w' = boxes w
   | Done (Inr fs, w') \<Rightarrow> \<exists>bd. regs T w (device_name fs) = None \<and> mnts T w (mount_point fs) = None \<and>
       boxes w (wrapper fs) = None \<and> regs T w' = (regs T w)(device_name fs \<mapsto> bd) \<and>
       mnts T w' = (mnts T w)(mount_point fs \<mapsto> bd) \<and> boxes w' = (boxes w)(wrapper fs \<mapsto> bd) \<and>
       is_read_only fs = ro \<and> (journal_active fs \<longrightarrow> \<not> ro)"
proof -
  from reach_inv [OF assms(3,1,2)] have inv: "devices_inv T w H" "names_inv T w" by simp_all
  then have "process_wf w" by (simp add: devices_inv_def)
  from mount_effect [where p = p and V = V and d = d and ro = ro, OF assms(1) this] show ?thesis
    using names_inv_fresh [OF inv(2)] by (auto split: rust.splits sum.splits)
qed

theorem mount_all_or_nothing_witness:
  "\<exists>fs w'. mount Debug (demo_lib True) (mem_vt Debug) demo_device False demo_process = Done (Inr fs, w') \<and>
     sys_reach Debug (demo_lib True) demo_process ([], [], [], demo_process) \<and>
     mnts demo_tables demo_process (mount_point fs) = None \<and> mnts demo_tables w' (mount_point fs) \<noteq> None \<and>
     regs demo_tables w' (device_name fs) \<noteq> None \<and> boxes w' (wrapper fs) \<noteq> None"
proof -
  obtain fs w where m: "mount Debug (demo_lib True) (mem_vt Debug) demo_device False demo_process =
      Done (Inr fs, w)" using demo_mount by blast
  have s: "sys_reach Debug (demo_lib True) demo_process ([], [], [], demo_process)" by (rule sys_reach.start)
  from mount_all_or_nothing [OF demo_contract [of True] demo_pristine s, where p = Debug
      and V = "mem_vt Debug" and d = demo_device and ro = False] m s
  show ?thesis by auto
qed

lemma drop_dangles:
  "as_bdev_ptr h a = Some bd \<Longrightarrow> get_wrapper (BlockDeviceWrapper_drop a h) bd = None"
  by (auto simp: as_bdev_ptr_def BlockDeviceWrapper_drop_def get_wrapper_def)

text \<open>
  C36: the handle's box is freed even if lwext4 keeps using it: when \<open>ext4_umount\<close> fails and leaves
  its entry in the mount table, \<open>umount\<close> returns the error, but the handle is gone, and the mounted
  C structure no longer leads to a wrapper: the next callback for it follows a broken pointer.
\<close>

theorem umount_failure_dangles:
  assumes "lib_contract T L" and "process_wf w" and "boxes w (wrapper fs) = Some bd"
    and "mnts T w (mount_point fs) = Some bd"
    and "\<And>s. fst (l_umount (mount_fns L) (mount_point fs) s) = e \<and>
      mounted T (lib (snd (l_umount (mount_fns L) (mount_point fs) s))) = mounted T (lib s)" and "e \<noteq> 0"
  shows "\<exists>w'. umount L fs w = Done (Inl (err_of e), w') \<and> mnts T w' (mount_point fs) = Some bd \<and>
    blockdev_bread p bd buf b n (heap (cst w')) = None"
proof -
  note C = contractD [OF assms(1)]
  obtain s1 where 1: "l_umount (mount_fns L) (mount_point fs) (quiesce L fs (cst w)) = (e, s1)"
    using assms(5) by (metis prod.collapse)
  obtain r' s2 where 2: "l_device_unregister (mount_fns L) (device_name fs) s1 = (r', s2)" by fastforce
  let ?w1 = "w\<lparr>cst := s1, calls := calls w @ down_calls fs\<rparr>"
  have b: "umount_body L fs w = Done (Inl (err_of e), ?w1)"
    using umount_body_eq [OF 1 2] assms(6) by simp
  have q: "mounted T (lib s1) = mnts T w"
    using assms(5) [of "quiesce L fs (cst w)"] quiesce_view(3) [OF C(5), of fs "cst w"] 1
    by (simp add: mnts_def)
  obtain s3 where 3: "l_umount (mount_fns L) (mount_point fs) (quiesce L fs (cst ?w1)) = (e, s3)"
    using assms(5) by (metis prod.collapse)
  obtain r4 s4 where 4: "l_device_unregister (mount_fns L) (device_name fs) s3 = (r4, s4)" by fastforce
  have "mounted T (lib s3) = mnts T w"
    using assms(5) [of "quiesce L fs (cst ?w1)"] quiesce_view(3) [OF C(5), of fs "cst ?w1"] 3 q
    by simp
  then have m: "mounted T (lib s4) (mount_point fs) = Some bd"
    using unregister_view(2) [OF C(2) 4] assms(4) by simp
  obtain w' where w': "umount L fs w = Done (Inl (err_of e), w')" "w' = ?w1\<lparr>
     cst := s4\<lparr>heap := BlockDeviceWrapper_drop (wrapper fs) (heap s4)\<rparr>,
     calls := calls ?w1 @ down_calls fs @ [C_device_unregister (device_name fs)]\<rparr>"
    using b drop_eq [OF 3 4] by (simp add: umount_def seq_st_def)
  have "boxes ?w1 = boxes w"
    using umount_body_view [OF assms(1,2), of fs] b by auto
  moreover have "same_wiring (heap s1) (heap s4)"
    using quiesce_view(1) [OF C(5), of s1 fs] umount_call_view(1) [OF C(4) 3]
      unregister_view(1) [OF C(2) 4] by (auto intro: same_wiring_trans)
  ultimately have "as_bdev_ptr (heap s4) (wrapper fs) = Some bd"
    using assms(3) by (simp add: boxes_def same_wiring_as_bdev_ptr)
  then have "get_wrapper (heap (cst w')) bd = None"
    by (simp add: w'(2) drop_dangles)
  moreover have "mnts T w' (mount_point fs) = Some bd" using m by (simp add: w'(2) mnts_def)
  ultimately show ?thesis
    using w'(1) by (auto simp: blockdev_bread_def with_device_def)
qed

theorem umount_failure_dangles_witness:
  "\<exists>fs w e w' bd. mount Debug (demo_lib False) (mem_vt Debug) demo_device False demo_process = Done (Inr fs, w) \<and>
     umount (demo_lib False) fs w = Done (Inl e, w') \<and> mnts demo_tables w' (mount_point fs) = Some bd \<and>
     blockdev_bread Debug bd [0, 0] 0 1 (heap (cst w')) = None"
proof -
  have wf: "process_wf demo_process" by (simp add: process_wf_def demo_process_def heap_wf_empty)
  obtain fs w where m: "mount Debug (demo_lib False) (mem_vt Debug) demo_device False demo_process =
      Done (Inr fs, w)" using demo_mount by blast
  obtain a h where new: "BlockDeviceWrapper_new Debug (mem_vt Debug) demo_device
      (heap (cst demo_process)) = Done (a, h)" using demo_new by blast
  from mount_view [OF demo_contract [of False] wf new, of False] m obtain bd where
    v: "process_wf w" "boxes w (wrapper fs) = Some bd" "mnts demo_tables w (mount_point fs) = Some bd"
    by (auto simp: new_mount_def)
  have "fst (l_umount (mount_fns (demo_lib False)) (mount_point fs) s) = EIO \<and>
      mounted demo_tables (lib (snd (l_umount (mount_fns (demo_lib False)) (mount_point fs) s))) =
      mounted demo_tables (lib s)" for s :: "(demo, MemoryBlockDevice) cworld"
    by (simp add: demo_defs)
  from umount_failure_dangles [OF demo_contract [of False] v this, of Debug "[0, 0]" 0 1] obtain w'
    where "umount (demo_lib False) fs w = Done (Inl (err_of EIO), w')"
      "mnts demo_tables w' (mount_point fs) = Some bd"
      "blockdev_bread Debug bd [0, 0] 0 1 (heap (cst w')) = None"
    by (auto simp: EIO_def)
  with m show ?thesis by blast
qed

text \<open>
  \<open>umount\<close> consumes the handle, so the destructor runs after it: every call of the destructor is
  made again on the mount point and the device name that were just taken down. When \<open>umount\<close>
  succeeds the C library is asked twice to flush, unmount and unregister (and twice to stop the
  journal, when it is active).
\<close>

theorem umount_takes_down_twice:
  "\<exists>r w' first. umount L fs w = Done (r, w') \<and>
     calls w' = calls w @ first @ down_calls fs @ [C_device_unregister (device_name fs)] \<and>
     take (length (down_calls fs)) first = down_calls fs \<and>
     (r = Inr () \<longrightarrow> first = down_calls fs @ [C_device_unregister (device_name fs)])"
proof -
  obtain r s1 where 1: "l_umount (mount_fns L) (mount_point fs) (quiesce L fs (cst w)) = (r, s1)" by fastforce
  obtain r' s2 where 2: "l_device_unregister (mount_fns L) (device_name fs) s1 = (r', s2)" by fastforce
  obtain q w1 first where b: "umount_body L fs w = Done (q, w1)" "calls w1 = calls w @ first"
    "take (length (down_calls fs)) first = down_calls fs"
    "q = Inr () \<longrightarrow> first = down_calls fs @ [C_device_unregister (device_name fs)]"
    using umount_body_eq [OF 1 2] by (cases "r = 0") auto
  obtain r3 s3 where 3: "l_umount (mount_fns L) (mount_point fs) (quiesce L fs (cst w1)) = (r3, s3)" by fastforce
  obtain r4 s4 where 4: "l_device_unregister (mount_fns L) (device_name fs) s3 = (r4, s4)" by fastforce
  show ?thesis
    using b drop_eq [OF 3 4] by (auto simp: umount_def seq_st_def)
qed

theorem umount_takes_down_twice_witness:
  "\<exists>w'. umount (demo_lib True) (new_mount 7 9 True False) demo_process = Done (Inr (), w') \<and>
     length (filter (\<lambda>c. c = C_umount (mp_name 7)) (calls w')) = 2"
proof -
  let ?fs = "new_mount 7 9 True False"
  obtain w1 where b: "umount_body (demo_lib True) ?fs demo_process = Done (Inr (), w1)"
    using umount_body_eq [where L = "demo_lib True" and fs = ?fs and w = demo_process]
    by (simp add: demo_defs)
  obtain r w' first where
    "umount (demo_lib True) ?fs demo_process = Done (r, w')"
    "calls w' = calls demo_process @ first @ down_calls ?fs @ [C_device_unregister (device_name ?fs)]"
    "r = Inr () \<longrightarrow> first = down_calls ?fs @ [C_device_unregister (device_name ?fs)]"
    using umount_takes_down_twice [of "demo_lib True" ?fs demo_process] by blast
  moreover from this(1) have "r = Inr ()"
    using b by (auto simp: umount_def seq_st_def split: rust.splits)
  ultimately show ?thesis
    by (simp add: down_calls_def new_mount_def demo_process_def)
qed

text \<open>
  C32: a path never leaves its own file system: under names from the counter, two handles never hand
  the same C path to lwext4, and a path handed over starts with its own mount point and no other.
\<close>

theorem paths_isolated:
  assumes "named a fs" and "named b gs" and "a \<noteq> b" and "make_path fs x = Inr c"
  shows "make_path gs y \<noteq> Inr c \<and> (\<exists>t. c = mount_point fs @ t) \<and> \<not> (\<exists>t. c = mount_point gs @ t)"
proof -
  have c: "c = mp_name a @ strip_slash x"
    using assms(1,4) by (simp add: named_def make_path_eq split: if_splits)
  have iso: "c \<noteq> mp_name b @ t" for t using mp.isolated [OF assms(3), of "strip_slash x"] c by auto
  moreover have "make_path gs y \<noteq> Inr c"
    using iso assms(2) by (auto simp: named_def make_path_eq)
  ultimately show ?thesis using assms(1,2) c by (auto simp: named_def)
qed

theorem paths_isolated_witness:
  "\<exists>c. make_path (new_mount 1 5 False True) ''/0/x'' = Inr c \<and>
     make_path (new_mount 10 6 False True) ''x'' \<noteq> Inr c"
proof -
  have "make_path (new_mount 1 5 False True) ''/0/x'' = Inr (mp_name 1 @ ''0/x'')"
    by (simp add: make_path_eq [of _ 1] new_mount_def)
  from paths_isolated [OF _ _ _ this, of 1 10 "new_mount 10 6 False True" "''x''"] this show ?thesis
    by (simp add: named_def new_mount_def)
qed

text \<open>
  One leading slash is optional and an interior NUL is refused before any call: within one
  file system two paths reach the same C path exactly when they agree up to one leading slash, and
  a path with a NUL is an error that names the position in the full path.
\<close>

theorem make_path_spec:
  assumes "named did fs"
  shows "(NUL \<notin> set x \<longrightarrow> (make_path fs x = make_path fs y \<longleftrightarrow> strip_slash x = strip_slash y)) \<and>
    (NUL \<notin> set x \<longrightarrow> make_path fs (CHR ''/'' # x) = Inr (mount_point fs @ x)) \<and>
    (NUL \<in> set x \<longrightarrow> (\<exists>n full. make_path fs x = Inl (NulError (NulErr n full)) \<and>
       full = mount_point fs @ strip_slash x \<and> full ! n = NUL \<and> NUL \<notin> set (take n full)))"
proof -
  have mp: "mount_point fs = mp_name did" using assms by (simp add: named_def)
  have 1: "NUL \<notin> set x \<Longrightarrow> make_path fs x = make_path fs y \<longleftrightarrow> strip_slash x = strip_slash y"
    using set_strip_slash [of x] set_strip_slash [of y] by (auto simp: make_path_eq [OF mp])
  have 2: "NUL \<notin> set x \<Longrightarrow> make_path fs (CHR ''/'' # x) = Inr (mount_point fs @ x)"
    by (simp add: make_path_eq [OF mp] mp)
  have 3: "\<exists>n full. make_path fs x = Inl (NulError (NulErr n full)) \<and>
       full = mount_point fs @ strip_slash x \<and> full ! n = NUL \<and> NUL \<notin> set (take n full)"
    if nul: "NUL \<in> set x"
  proof -
    obtain n where n: "position is_nul (strip_slash x) = Some n"
      using position_nul [of "strip_slash x"] set_strip_slash [of x] nul by auto
    show ?thesis
      using nul n position_Some [OF n] mp_name_no_NUL [of did]
      by (auto simp: make_path_eq [OF mp] mp is_nul_def nth_append)
  qed
  from 1 2 3 show ?thesis by blast
qed

theorem make_path_spec_witness:
  "make_path (new_mount 3 5 False True) ''/a/b'' = make_path (new_mount 3 5 False True) ''a/b'' \<and>
   (\<exists>n full. make_path (new_mount 3 5 False True) [CHR ''a'', NUL] = Inl (NulError (NulErr n full)))"
  using make_path_spec [of 3 "new_mount 3 5 False True" "''/a/b''" "''a/b''"]
    make_path_spec [of 3 "new_mount 3 5 False True" "[CHR ''a'', NUL]" "[]"]
  by (auto simp: named_def new_mount_def)

section \<open>Formatting\<close>

text \<open>
  C34: \<open>mkfs\<close> hands lwext4 the options and the device, and keeps nothing: for a label without NUL it
  makes exactly two calls, asking for the size of \<open>ext4_fs\<close> and formatting the wrapped device, whose
  whole size is the length; block size, inode size, label, UUID are those of the options, the file
  system type is passed through, a journal is asked for exactly when the options want one and the
  type is not ext2; the result is the code lwext4's formatting returns, decoded: success exactly when
  it is 0; and the wrapper is freed on success and failure.
\<close>

theorem mkfs_formats_device:
  assumes "lib_contract T L" and "process_wf w"
    and "BlockDeviceWrapper_new p V d (heap (cst w)) = Done (a, h)"
    and "\<forall>l. o_label opts = Some l \<longrightarrow> NUL \<notin> set l"
    and "\<And>s. unat (fst (l_sizeof_ext4_fs (mkfs_fns L) s)) \<le> isize_max"
  shows "\<exists>n s1 bd info ret info' s2 w'. l_sizeof_ext4_fs (mkfs_fns L) ((cst w)\<lparr>heap := h\<rparr>) = (n, s1) \<and>
    l_mkfs (mkfs_fns L) (replicate (unat n) 0) bd info (FsType_to_raw (o_fs_type opts)) s1 = ((ret, info'), s2) \<and>
    mkfs p L V d opts w = Done (if ret = 0 then Inr () else Inl (err_of ret), w') \<and>
    calls w' = calls w @ [C_sizeof_ext4_fs, C_mkfs bd info (FsType_to_raw (o_fs_type opts))] \<and>
    as_bdev_ptr h a = Some bd \<and>
    mi_len info = vt_block_count V d * u64_of_u32 (vt_block_size V d) \<and>
    mi_block_size info = o_block_size opts \<and> mi_inode_size info = o_inode_size opts \<and>
    mi_label info = o_label opts \<and>
    mi_uuid info = (case o_uuid opts of None \<Rightarrow> replicate UUID_SIZE 0 | Some u \<Rightarrow> u) \<and>
    (mi_journal info \<longleftrightarrow> o_journal opts \<and> FsType_to_raw (o_fs_type opts) \<noteq> F_SET_EXT2) \<and>
    boxes w' = boxes w \<and> regs T w' = regs T w \<and> mnts T w' = mnts T w"
proof -
  obtain bd where bd: "as_bdev_ptr h a = Some bd" using new_part_size [OF assms(3)] by auto
  obtain n s1 where n: "l_sizeof_ext4_fs (mkfs_fns L) ((cst w)\<lparr>heap := h\<rparr>) = (n, s1)" by fastforce
  have big: "unat n \<le> isize_max" using assms(5) [of "(cst w)\<lparr>heap := h\<rparr>"] by (simp add: n)
  let ?info = "mkfs_info opts (vt_block_count V d * u64_of_u32 (vt_block_size V d)) (o_label opts)"
  obtain ret info' s2 where mk: "l_mkfs (mkfs_fns L) (replicate (unat n) 0) bd ?info
      (FsType_to_raw (o_fs_type opts)) s1 = ((ret, info'), s2)" by (metis surj_pair)
  obtain w' where run: "mkfs p L V d opts w = Done (if ret = 0 then Inr () else Inl (err_of ret), w')"
    "calls w' = calls w @ [C_sizeof_ext4_fs, C_mkfs bd ?info (FsType_to_raw (o_fs_type opts))]"
    using mkfs_eq [OF assms(3) bd assms(4) n big refl mk] by simp
  have "same_view T w w'" by (rule mkfs_view [OF assms(1,2) run(1)])
  then have view: "boxes w' = boxes w" "regs T w' = regs T w" "mnts T w' = mnts T w"
    by (simp_all add: same_view_def)
  have "o_fs_type opts \<noteq> Ext2 \<longleftrightarrow> FsType_to_raw (o_fs_type opts) \<noteq> F_SET_EXT2"
    by (cases "o_fs_type opts") (simp_all add: F_SET_EXT2_def F_SET_EXT3_def F_SET_EXT4_def)
  then have info: "mi_len ?info = vt_block_count V d * u64_of_u32 (vt_block_size V d)"
    "mi_block_size ?info = o_block_size opts" "mi_inode_size ?info = o_inode_size opts"
    "mi_label ?info = o_label opts"
    "mi_uuid ?info = (case o_uuid opts of None \<Rightarrow> replicate UUID_SIZE 0 | Some u \<Rightarrow> u)"
    "mi_journal ?info \<longleftrightarrow> o_journal opts \<and> FsType_to_raw (o_fs_type opts) \<noteq> F_SET_EXT2"
    by (simp_all add: mkfs_info_def split: option.split)
  show ?thesis by (intro exI conjI) (rule n mk run bd info view)+
qed

theorem mkfs_formats_device_witness:
  "\<exists>w' bd info. mkfs Debug (demo_lib True) (mem_vt Debug) demo_device
       (with_label ''disk'' MkfsOptions_ext2) demo_process = Done (Inr (), w') \<and>
     calls w' = [C_sizeof_ext4_fs, C_mkfs bd info 2] \<and> mi_label info = Some ''disk'' \<and>
     \<not> mi_journal info \<and> boxes w' = boxes (demo_process :: (demo, MemoryBlockDevice) process)"
proof -
  have wf: "process_wf demo_process" by (simp add: process_wf_def demo_process_def heap_wf_empty)
  obtain a h where new: "BlockDeviceWrapper_new Debug (mem_vt Debug) demo_device
      (heap (cst demo_process)) = Done (a, h)" using demo_new by blast
  let ?o = "with_label ''disk'' MkfsOptions_ext2"
  have lab: "\<forall>l. o_label ?o = Some l \<longrightarrow> NUL \<notin> set l" by (simp add: with_label_def)
  have sz: "unat (fst (l_sizeof_ext4_fs (mkfs_fns (demo_lib True)) s)) \<le> isize_max"
    for s :: "(demo, MemoryBlockDevice) cworld" by (simp add: demo_defs isize_max_def)
  have ok: "fst (fst (l_mkfs (mkfs_fns (demo_lib True)) fs bd info ty s)) = 0"
    for fs bd info ty and s :: "(demo, MemoryBlockDevice) cworld" by (simp add: demo_defs)
  have opts: "FsType_to_raw (o_fs_type ?o) = 2" "o_label ?o = Some ''disk''" "(2 :: i32) = F_SET_EXT2"
    "calls (demo_process :: (demo, MemoryBlockDevice) process) = []"
    by (simp_all add: with_label_def MkfsOptions_ext2_def MkfsOptions_default_def F_SET_EXT2_def
        demo_process_def)
  from mkfs_formats_device [OF demo_contract [of True] wf new lab sz, unfolded opts]
  obtain n :: usize and s1 :: "(demo, MemoryBlockDevice) cworld" and bd info ret info' s2 w' where
    m: "l_mkfs (mkfs_fns (demo_lib True)) (replicate (unat n) 0) bd info F_SET_EXT2 s1 = ((ret, info'), s2)"
    "mkfs Debug (demo_lib True) (mem_vt Debug) demo_device ?o demo_process =
      Done (if ret = 0 then Inr () else Inl (err_of ret), w')"
    "calls w' = [] @ [C_sizeof_ext4_fs, C_mkfs bd info F_SET_EXT2]" "mi_label info = Some ''disk''"
    "mi_journal info \<longleftrightarrow> o_journal ?o \<and> F_SET_EXT2 \<noteq> F_SET_EXT2"
    "boxes w' = boxes (demo_process :: (demo, MemoryBlockDevice) process)"
    by (elim exE conjE) (rule that)
  from ok [of "replicate (unat n) 0" bd info F_SET_EXT2 s1] m(1) have "ret = 0" by simp
  with m(2-6) show ?thesis unfolding opts by auto
qed

text \<open>
  A label with an interior NUL byte makes \<open>mkfs\<close> panic, although it returns a \<open>Result\<close> whose
  error type has a constructor for exactly this case.
\<close>

theorem mkfs_NUL_label_panics:
  assumes "NUL \<in> set l"
  shows "mkfs p L V d (with_label l opts) w = Panic"
  by (rule mkfs_label_panic [of _ l]) (simp_all add: with_label_def assms)

theorem mkfs_NUL_label_panics_witness:
  "mkfs Release (demo_lib True) (mem_vt Release) demo_device
     (with_label [CHR ''a'', NUL] MkfsOptions_ext4) demo_process = Panic"
  by (rule mkfs_NUL_label_panics) simp

end
