(* ===== verification/FileDev.thy ===== *)
theory FileDev
  imports BlockDev HostFile
begin

text \<open>
  \<open>blockdev/file.rs\<close>: the block device backed by a host file. Construction, reads and writes
  through the mutex with their seek, the interpretation of the device interface under an
  arbitrary schedule of host failures, and of the reliable interface when the host does not fail.
\<close>

section \<open>The device\<close>

text \<open>The \<open>Mutex<File>\<close> is the file and its poison flag; the lock itself is uncontended.\<close>

record FileBlockDevice =
  fd_file :: host_file
  fd_poisoned :: bool
  fd_block_size :: u32
  fd_block_count :: u64

definition FileBlockDevice_create_with_block_size ::
  "bytes option \<Rightarrow> io_event list \<Rightarrow> u64 \<Rightarrow> u32 \<Rightarrow> (error + FileBlockDevice) rust" where
  "FileBlockDevice_create_with_block_size existing sched sz block_size =
     (case host_open True True True existing sched of
        Inl io \<Rightarrow> Done (Inl (Io io))
      | Inr file \<Rightarrow> (case file_set_len file sz of
          (Some io, file) \<Rightarrow> Done (Inl (Io io))
        | (None, file) \<Rightarrow>
            bind_rust (div_u64 sz (u64_of_u32 block_size)) (\<lambda>block_count.
              Done (Inr \<lparr>fd_file = file, fd_poisoned = False, fd_block_size = block_size,
                        fd_block_count = block_count\<rparr>))))"

definition FileBlockDevice_create ::
  "bytes option \<Rightarrow> io_event list \<Rightarrow> u64 \<Rightarrow> (error + FileBlockDevice) rust" where
  "FileBlockDevice_create existing sched sz =
     FileBlockDevice_create_with_block_size existing sched sz 512"

text \<open>The common tail of the two opening constructors.\<close>

definition fd_of_existing :: "io_error + host_file \<Rightarrow> u32 \<Rightarrow> (error + FileBlockDevice) rust" where
  "fd_of_existing opened block_size =
     (case opened of
        Inl io \<Rightarrow> Done (Inl (Io io))
      | Inr file \<Rightarrow> (case file_metadata_len file of
          (Inl io, file) \<Rightarrow> Done (Inl (Io io))
        | (Inr sz, file) \<Rightarrow>
            bind_rust (div_u64 sz (u64_of_u32 block_size)) (\<lambda>block_count.
              Done (Inr \<lparr>fd_file = file, fd_poisoned = False, fd_block_size = block_size,
                        fd_block_count = block_count\<rparr>))))"

definition FileBlockDevice_open_with_block_size ::
  "bytes option \<Rightarrow> io_event list \<Rightarrow> u32 \<Rightarrow> (error + FileBlockDevice) rust" where
  "FileBlockDevice_open_with_block_size existing sched block_size =
     fd_of_existing (host_open True True False existing sched) block_size"

definition FileBlockDevice_open ::
  "bytes option \<Rightarrow> io_event list \<Rightarrow> (error + FileBlockDevice) rust" where
  "FileBlockDevice_open existing sched = FileBlockDevice_open_with_block_size existing sched 512"

definition FileBlockDevice_open_read_only_with_block_size ::
  "bytes option \<Rightarrow> io_event list \<Rightarrow> u32 \<Rightarrow> (error + FileBlockDevice) rust" where
  "FileBlockDevice_open_read_only_with_block_size existing sched block_size =
     fd_of_existing (host_open True False False existing sched) block_size"

definition FileBlockDevice_open_read_only ::
  "bytes option \<Rightarrow> io_event list \<Rightarrow> (error + FileBlockDevice) rust" where
  "FileBlockDevice_open_read_only existing sched =
     FileBlockDevice_open_read_only_with_block_size existing sched 512"

definition lock_poisoned :: error where
  "lock_poisoned = Io (Simple Other ''lock poisoned'')"

definition fd_read_blocks ::
  "profile \<Rightarrow> u64 \<Rightarrow> bytes \<Rightarrow> (FileBlockDevice, (error + u32) \<times> bytes) comp" where
  "fd_read_blocks p block_id buf = (\<lambda>self.
     bind_rust (mul_u64 p block_id (u64_of_u32 (fd_block_size self))) (\<lambda>offset.
     bind_rust (div_u32 (u32_of_u64 (slice_len buf)) (fd_block_size self)) (\<lambda>block_count.
     if fd_poisoned self then Done ((Inl lock_poisoned, buf), self)
     else (case file_seek_start (fd_file self) offset of
         (Inl io, file) \<Rightarrow> Done ((Inl (Io io), buf), self\<lparr>fd_file := file\<rparr>)
       | (Inr _, file) \<Rightarrow> (case file_read_exact file buf of
           ((Some io, buf), file) \<Rightarrow> Done ((Inl (Io io), buf), self\<lparr>fd_file := file\<rparr>)
         | ((None, buf), file) \<Rightarrow> Done ((Inr block_count, buf), self\<lparr>fd_file := file\<rparr>))))))"

definition fd_write_blocks ::
  "profile \<Rightarrow> u64 \<Rightarrow> bytes \<Rightarrow> (FileBlockDevice, error + u32) comp" where
  "fd_write_blocks p block_id buf = (\<lambda>self.
     bind_rust (mul_u64 p block_id (u64_of_u32 (fd_block_size self))) (\<lambda>offset.
     bind_rust (div_u32 (u32_of_u64 (slice_len buf)) (fd_block_size self)) (\<lambda>block_count.
     if fd_poisoned self then Done (Inl lock_poisoned, self)
     else (case file_seek_start (fd_file self) offset of
         (Inl io, file) \<Rightarrow> Done (Inl (Io io), self\<lparr>fd_file := file\<rparr>)
       | (Inr _, file) \<Rightarrow> (case file_write_all file buf of
           (Some io, file) \<Rightarrow> Done (Inl (Io io), self\<lparr>fd_file := file\<rparr>)
         | (None, file) \<Rightarrow> Done (Inr block_count, self\<lparr>fd_file := file\<rparr>))))))"

definition fd_flush :: "(FileBlockDevice, error + unit) comp" where
  "fd_flush = (\<lambda>self.
     if fd_poisoned self then Done (Inl lock_poisoned, self)
     else (case file_sync_all (fd_file self) of
         (Some io, file) \<Rightarrow> Done (Inl (Io io), self\<lparr>fd_file := file\<rparr>)
       | (None, file) \<Rightarrow> Done (Inr (), self\<lparr>fd_file := file\<rparr>)))"

definition fd_vt :: "profile \<Rightarrow> FileBlockDevice block_device" where
  "fd_vt p = \<lparr>vt_read_blocks = fd_read_blocks p, vt_write_blocks = fd_write_blocks p,
     vt_flush = fd_flush, vt_block_size = fd_block_size, vt_block_count = fd_block_count,
     vt_open = default_open, vt_close = default_close\<rparr>"

lemma fd_vt_sel [simp]:
  "vt_read_blocks (fd_vt p) = fd_read_blocks p"
  "vt_write_blocks (fd_vt p) = fd_write_blocks p"
  "vt_flush (fd_vt p) = fd_flush"
  "vt_block_size (fd_vt p) = fd_block_size"
  "vt_block_count (fd_vt p) = fd_block_count"
  "vt_open (fd_vt p) = default_open"
  "vt_close (fd_vt p) = default_close"
  by (simp_all add: fd_vt_def)

section \<open>Invariant\<close>

abbreviation fd_data :: "FileBlockDevice \<Rightarrow> bytes" where
  "fd_data d \<equiv> h_data (fd_file d)"

text \<open>Any device over a host file of legal size, and one the host never fails.\<close>

definition fd_wf :: "FileBlockDevice \<Rightarrow> bool" where
  "fd_wf d \<longleftrightarrow> fd_block_size d \<noteq> 0 \<and> length (fd_data d) \<le> isize_max \<and>
     sched_ok (h_sched (fd_file d))"

definition fd_quiet :: "FileBlockDevice \<Rightarrow> bool" where
  "fd_quiet d \<longleftrightarrow> fd_wf d \<and> \<not> fd_poisoned d \<and> h_read (fd_file d) \<and> h_write (fd_file d) \<and>
     h_sched (fd_file d) = []"

lemma callback_code_Io [simp]:
  "callback_code (Io (Os e)) = e" "callback_code (Io (Simple k m)) = EIO"
  by (simp_all add: callback_code_def)

lemma callback_code_poisoned [simp]: "callback_code lock_poisoned = EIO"
  by (simp add: lock_poisoned_def)

lemma EIO_not_0 [simp]: "EIO \<noteq> 0"
  by (simp add: EIO_def)

lemma callback_code_Io_nonzero:
  "(\<forall>e. io = Os e \<longrightarrow> e \<noteq> 0) \<Longrightarrow> (\<forall>k e. io \<noteq> Wrapped k e) \<Longrightarrow> callback_code (Io io) \<noteq> 0"
  by (cases io) auto

lemma fd_offset_facts:
  assumes "fd_wf d" and "unat b * unat (fd_block_size d) + length buf \<le> length (fd_data d)"
  shows "unat b * unat (fd_block_size d) < 2 ^ 63"
    and "mul_u64 p b (u64_of_u32 (fd_block_size d)) = Done (b * u64_of_u32 (fd_block_size d))"
    and "unat (b * u64_of_u32 (fd_block_size d)) = unat b * unat (fd_block_size d)"
proof -
  show "unat b * unat (fd_block_size d) < 2 ^ 63"
    using assms by (simp add: fd_wf_def isize_max_def)
  then have *: "unat b * unat (u64_of_u32 (fd_block_size d)) < 2 ^ 64" by simp
  show "mul_u64 p b (u64_of_u32 (fd_block_size d)) = Done (b * u64_of_u32 (fd_block_size d))"
    using * by (rule mul_u64_ok)
  show "unat (b * u64_of_u32 (fd_block_size d)) = unat b * unat (fd_block_size d)"
    using unat_mul_u64 [OF *] by simp
qed

lemma file_seek_start_spec:
  assumes "file_seek_start f n = (r, f')" and "sched_ok (h_sched f)"
  shows "h_data f' = h_data f \<and> h_read f' = h_read f \<and> h_write f' = h_write f \<and>
    sched_ok (h_sched f') \<and>
    (case r of Inl io \<Rightarrow> (\<exists>e. io = Os e \<and> e \<noteq> 0) | Inr m \<Rightarrow> m = n \<and> h_pos f' = unat n)"
  using assms next_event_ok [OF assms(2)]
  by (auto simp: file_seek_start_def Let_def EINVAL_def
      split: prod.splits io_event.splits if_splits)

text \<open>The loops report no wrapped error.\<close>

lemma read_exact_loop_not_wrapped: "fst (fst (read_exact_loop f n acc)) \<noteq> Some (Wrapped k e)"
  by (induction f n acc rule: read_exact_loop.induct)
    (subst read_exact_loop.simps, auto split: prod.splits sum.splits)

lemma file_write_all_not_wrapped: "fst (file_write_all f buf) \<noteq> Some (Wrapped k e)"
  by (induction f buf rule: file_write_all.induct)
    (subst file_write_all.simps, auto split: prod.splits sum.splits)

lemma fd_read_law:
  assumes wf: "fd_wf d" and rng: "unat b * unat (fd_block_size d) + length buf \<le> length (fd_data d)"
  shows "\<exists>r buf' file. fd_read_blocks p b buf d = Done ((r, buf'), d\<lparr>fd_file := file\<rparr>) \<and>
    h_data file = fd_data d \<and> sched_ok (h_sched file) \<and> length buf' = length buf \<and>
    (case r of
       Inr n \<Rightarrow> buf' = slice (unat b * unat (fd_block_size d)) (length buf) (fd_data d)
     | Inl e \<Rightarrow> callback_code e \<noteq> 0)"
proof -
  let ?off = "b * u64_of_u32 (fd_block_size d)"
  have bs: "fd_block_size d \<noteq> 0" and ok: "sched_ok (h_sched (fd_file d))"
    using wf by (simp_all add: fd_wf_def)
  note off = fd_offset_facts [OF wf rng]
  obtain s f1 where s: "file_seek_start (fd_file d) ?off = (s, f1)" by fastforce
  obtain x buf2 f2 where x: "file_read_exact f1 buf = ((x, buf2), f2)" by (metis surj_pair)
  have s1: "h_data f1 = fd_data d" "sched_ok (h_sched f1)"
    "case s of Inl io \<Rightarrow> (\<exists>e. io = Os e \<and> e \<noteq> 0) | Inr m \<Rightarrow> h_pos f1 = unat ?off"
    using file_seek_start_spec [OF s ok] by (auto split: sum.splits)
  have x1: "h_data f2 = fd_data d" "sched_ok (h_sched f2)" "length buf2 = length buf"
    "x = None \<longrightarrow> buf2 = slice (h_pos f1) (length buf) (fd_data d)" "\<forall>e. x = Some (Os e) \<longrightarrow> e \<noteq> 0"
    using file_read_exact_spec [OF x s1(2)] s1(1) by auto
  have "\<forall>k e. x \<noteq> Some (Wrapped k e)"
    using x read_exact_loop_not_wrapped [of f1 "length buf" "[]"]
    by (auto simp: file_read_exact_def split: prod.splits)
  with x1(5) have x2: "x = Some io \<Longrightarrow> callback_code (Io io) \<noteq> 0" for io
    by (intro callback_code_Io_nonzero) auto
  show ?thesis
  proof (cases "fd_poisoned d")
    case True
    then show ?thesis using off bs ok
      by (intro exI [of _ "Inl lock_poisoned"] exI [of _ buf] exI [of _ "fd_file d"])
        (simp add: fd_read_blocks_def div_u32_def)
  next
    case np: False
    show ?thesis
    proof (cases s)
      case (Inl io)
      then show ?thesis using np s s1 off bs
        by (intro exI [of _ "Inl (Io io)"] exI [of _ buf] exI [of _ f1])
          (auto simp: fd_read_blocks_def div_u32_def)
    next
      case (Inr m)
      let ?r = "case x of Some io \<Rightarrow> Inl (Io io)
        | None \<Rightarrow> Inr (u32_of_u64 (slice_len buf) div fd_block_size d)"
      show ?thesis using Inr np s s1 x x1 x2 off bs
        by (intro exI [of _ ?r] exI [of _ buf2] exI [of _ f2])
          (auto simp: fd_read_blocks_def div_u32_def split: option.splits)
    qed
  qed
qed

lemma fd_write_law:
  assumes wf: "fd_wf d" and rng: "unat b * unat (fd_block_size d) + length buf \<le> length (fd_data d)"
  shows "\<exists>r file k. fd_write_blocks p b buf d = Done (r, d\<lparr>fd_file := file\<rparr>) \<and>
    h_data file = blit (unat b * unat (fd_block_size d)) (take k buf) (fd_data d) \<and>
    sched_ok (h_sched file) \<and>
    (case r of Inr n \<Rightarrow> k = length buf | Inl e \<Rightarrow> callback_code e \<noteq> 0)"
proof -
  let ?off = "b * u64_of_u32 (fd_block_size d)"
  have bs: "fd_block_size d \<noteq> 0" and ok: "sched_ok (h_sched (fd_file d))"
    using wf by (simp_all add: fd_wf_def)
  note off = fd_offset_facts [OF wf rng]
  obtain s f1 where s: "file_seek_start (fd_file d) ?off = (s, f1)" by fastforce
  obtain x f2 where x: "file_write_all f1 buf = (x, f2)" by fastforce
  have s1: "h_data f1 = fd_data d" "sched_ok (h_sched f1)"
    "case s of Inl io \<Rightarrow> (\<exists>e. io = Os e \<and> e \<noteq> 0) | Inr m \<Rightarrow> h_pos f1 = unat ?off"
    using file_seek_start_spec [OF s ok] by (auto split: sum.splits)
  from file_write_all_spec [OF x s1(2)] s1(1) obtain k where
    x1: "k \<le> length buf" "h_data f2 = write_at (h_pos f1) (take k buf) (fd_data d)"
      "sched_ok (h_sched f2)" "x = None \<longrightarrow> k = length buf" "\<forall>e. x = Some (Os e) \<longrightarrow> e \<noteq> 0"
    by auto
  have x2: "x = Some io \<Longrightarrow> callback_code (Io io) \<noteq> 0" for io
    using x x1(5) file_write_all_not_wrapped [of f1 buf]
    by (intro callback_code_Io_nonzero) auto
  have "write_at (unat b * unat (fd_block_size d)) (take k buf) (fd_data d)
      = blit (unat b * unat (fd_block_size d)) (take k buf) (fd_data d)"
    using rng x1(1) by (intro write_at_inside) simp
  note inside = this
  show ?thesis
  proof (cases "fd_poisoned d")
    case True
    then show ?thesis using off bs ok
      by (intro exI [of _ "Inl lock_poisoned"] exI [of _ "fd_file d"] exI [of _ 0])
        (simp add: fd_write_blocks_def div_u32_def)
  next
    case np: False
    show ?thesis
    proof (cases s)
      case (Inl io)
      then show ?thesis using np s s1 off bs
        by (intro exI [of _ "Inl (Io io)"] exI [of _ f1] exI [of _ 0])
          (auto simp: fd_write_blocks_def div_u32_def)
    next
      case (Inr m)
      let ?r = "case x of Some io \<Rightarrow> Inl (Io io)
        | None \<Rightarrow> Inr (u32_of_u64 (slice_len buf) div fd_block_size d)"
      show ?thesis using Inr np s s1 x x1 x2 off bs inside
        by (intro exI [of _ ?r] exI [of _ f2] exI [of _ k])
          (auto simp: fd_write_blocks_def div_u32_def split: option.splits)
    qed
  qed
qed

text \<open>The interface, under any schedule of host failures.\<close>

interpretation fd: block_device_laws "fd_vt p" fd_data fd_wf
proof (unfold_locales, goal_cases)
  case (1 d b buf)
  then obtain r buf' f' where
    "fd_read_blocks p b buf d = Done ((r, buf'), d\<lparr>fd_file := f'\<rparr>)"
    "h_data f' = fd_data d" "sched_ok (h_sched f')" "length buf' = length buf"
    "case r of
       Inr n \<Rightarrow> buf' = slice (unat b * unat (fd_block_size d)) (length buf) (fd_data d)
     | Inl e \<Rightarrow> callback_code e \<noteq> 0"
    using fd_read_law [of d b buf p] by auto
  with 1 show ?case by (intro exI [of _ r] exI [of _ buf'] exI [of _ "d\<lparr>fd_file := f'\<rparr>"])
      (simp add: fd_wf_def split: sum.splits)
next
  case (2 d b buf)
  then obtain r f' k where
    "fd_write_blocks p b buf d = Done (r, d\<lparr>fd_file := f'\<rparr>)"
    "h_data f' = blit (unat b * unat (fd_block_size d)) (take k buf) (fd_data d)"
    "sched_ok (h_sched f')"
    "case r of Inr n \<Rightarrow> k = length buf | Inl e \<Rightarrow> callback_code e \<noteq> 0"
    using fd_write_law [of d b buf p] by auto
  with 2 show ?case by (intro exI [of _ r] exI [of _ "d\<lparr>fd_file := f'\<rparr>"] exI [of _ k])
      (simp add: fd_wf_def length_blit)
next
  case (3 d)
  then show ?case
    using next_event_retry_ok [of "h_sched (fd_file d)"]
    by (auto simp: fd_flush_def file_sync_all_def fd_wf_def split: prod.splits option.splits)
qed

text \<open>The reliable interface, when the host does not fail.\<close>

lemma fd_quiet_offset:
  assumes "fd_quiet d" and "unat b * unat (fd_block_size d) + length buf \<le> length (fd_data d)"
  shows "file_seek_start (fd_file d) (b * u64_of_u32 (fd_block_size d)) =
    (Inr (b * u64_of_u32 (fd_block_size d)),
     (fd_file d)\<lparr>h_sched := [], h_pos := unat b * unat (fd_block_size d)\<rparr>)"
  using assms fd_offset_facts [of d b buf]
  by (simp add: fd_quiet_def file_seek_start_def Let_def)

lemma fd_quiet_read:
  assumes "fd_quiet d" and "unat b * unat (fd_block_size d) + length buf \<le> length (fd_data d)"
  shows "\<exists>pos. fd_read_blocks p b buf d =
    Done ((Inr (u32_of_u64 (slice_len buf) div fd_block_size d),
           slice (unat b * unat (fd_block_size d)) (length buf) (fd_data d)),
          d\<lparr>fd_file := (fd_file d)\<lparr>h_sched := [], h_pos := pos\<rparr>\<rparr>)"
  using fd_quiet_offset [OF assms] assms fd_offset_facts [of d b buf]
  by (simp add: fd_quiet_def fd_wf_def fd_read_blocks_def div_u32_def file_read_exact_quiet) blast

lemma fd_quiet_write:
  assumes "fd_quiet d" and "unat b * unat (fd_block_size d) + length buf \<le> length (fd_data d)"
  shows "\<exists>pos. fd_write_blocks p b buf d =
    Done (Inr (u32_of_u64 (slice_len buf) div fd_block_size d),
      d\<lparr>fd_file := (fd_file d)\<lparr>h_sched := [],
         h_data := blit (unat b * unat (fd_block_size d)) buf (fd_data d), h_pos := pos\<rparr>\<rparr>)"
  using fd_quiet_offset [OF assms] assms fd_offset_facts [of d b buf]
  by (simp add: fd_quiet_def fd_wf_def fd_write_blocks_def div_u32_def file_write_all_quiet
      write_at_inside) blast

interpretation fdq: reliable_block_device "fd_vt p" fd_data fd_quiet
proof (unfold_locales, goal_cases)
  case (1 d b buf)
  then show ?case using fd_quiet_read [of d b buf p]
    by (auto simp: fd_quiet_def fd_wf_def length_slice)
next
  case (2 d b buf)
  then obtain pos where w: "fd_write_blocks p b buf d =
    Done (Inr (u32_of_u64 (slice_len buf) div fd_block_size d),
      d\<lparr>fd_file := (fd_file d)\<lparr>h_sched := [],
         h_data := blit (unat b * unat (fd_block_size d)) buf (fd_data d), h_pos := pos\<rparr>\<rparr>)"
    using fd_quiet_write [of d b buf p] by auto
  show ?case
    by (rule exI, rule exI, rule exI [of _ "length buf"])
      (use 2 w in \<open>auto simp: fd_quiet_def fd_wf_def length_blit\<close>)
next
  case (3 d)
  then show ?case by (auto simp: fd_flush_def file_sync_all_def fd_quiet_def fd_wf_def sched_ok_def)
next
  case (4 d b buf r buf' d')
  then show ?case using fd_quiet_read [of d b buf p] by auto
next
  case (5 d b buf r d')
  then show ?case using fd_quiet_write [of d b buf p] by auto
qed

section \<open>Properties\<close>

text \<open>
  C9: the file-backed device under an arbitrary host: whatever calls fail or are cut short, a
  sequence of callback reads and writes within the image never panics and never changes the size of
  the image; and if every call reports success, the replies and the final image are those of a flat
  byte array, so no short transfer is ever reported as a success.
\<close>

theorem fd_success_means_disk:
  assumes "fd_wf d"
    and "\<forall>c \<in> set cs. cb_in_range (unat (fd_block_size d)) (length (fd_data d)) c"
  shows "\<exists>rs d'. cb_run p (fd_vt p) cs d = Done (rs, d') \<and> fd_wf d' \<and> length rs = length cs \<and>
    length (fd_data d') = length (fd_data d) \<and>
    ((\<forall>r \<in> set rs. fst r = 0) \<longrightarrow>
       (map snd rs, fd_data d') = disk_run (unat (fd_block_size d)) cs (fd_data d))"
  using fd.run_law [OF assms(1), of cs p p] assms(2) by auto

theorem fd_success_means_disk_witness:
  "\<exists>rs d'. cb_run Debug (fd_vt Debug) [CbWrite 1 1 [7, 8], CbRead 0 2 [0, 0, 0, 0]]
      \<lparr>fd_file = \<lparr>h_data = [1, 2, 3, 4], h_pos = 0, h_read = True, h_write = True,
         h_sched = [EvOk, EvShort 1, EvErr EINTR, EvErr ENOSPC]\<rparr>,
       fd_poisoned = False, fd_block_size = 2, fd_block_count = 2\<rparr> = Done (rs, d') \<and>
    length (fd_data d') = 4"
  using fd_success_means_disk [of "\<lparr>fd_file = \<lparr>h_data = [1, 2, 3, 4], h_pos = 0, h_read = True,
         h_write = True, h_sched = [EvOk, EvShort 1, EvErr EINTR, EvErr ENOSPC]\<rparr>,
       fd_poisoned = False, fd_block_size = 2, fd_block_count = 2\<rparr>"
      "[CbWrite 1 1 [7, 8], CbRead 0 2 [0, 0, 0, 0]]" Debug]
  by (auto simp: fd_wf_def isize_max_def sched_ok_def EINTR_def ENOSPC_def)

text \<open>
  C33: an interrupted write is torn at most inside its own blocks: whatever the host does, after
  a write within the image, successful or not, a prefix of the buffer has replaced the start of the
  addressed range and every other byte is as before; a reported success means the whole buffer.
\<close>

theorem fd_write_torn_inside:
  assumes "fd_wf d" and "unat b * unat (fd_block_size d) + length buf \<le> length (fd_data d)"
  shows "\<exists>r d' k. fd_write_blocks p b buf d = Done (r, d') \<and>
    fd_data d' = blit (unat b * unat (fd_block_size d)) (take k buf) (fd_data d) \<and>
    (\<forall>n. r = Inr n \<longrightarrow> k = length buf)"
proof -
  from fd_write_law [OF assms, of p] obtain r f k where
    "fd_write_blocks p b buf d = Done (r, d\<lparr>fd_file := f\<rparr>)"
    "h_data f = blit (unat b * unat (fd_block_size d)) (take k buf) (fd_data d)"
    "case r of Inr n \<Rightarrow> k = length buf | Inl e \<Rightarrow> callback_code e \<noteq> 0"
    by auto
  then show ?thesis
    by (intro exI [of _ r] exI [of _ "d\<lparr>fd_file := f\<rparr>"] exI [of _ k]) auto
qed

theorem fd_write_torn_inside_witness:
  "\<exists>r d' k. fd_write_blocks Release 1 [7, 8]
      \<lparr>fd_file = \<lparr>h_data = [1, 2, 3, 4], h_pos = 0, h_read = True, h_write = True,
         h_sched = [EvOk, EvShort 1, EvErr ENOSPC]\<rparr>,
       fd_poisoned = False, fd_block_size = 2, fd_block_count = 2\<rparr> = Done (r, d') \<and>
    fd_data d' = blit 2 (take k [7, 8]) [1, 2, 3, 4]"
  using fd_write_torn_inside [of "\<lparr>fd_file = \<lparr>h_data = [1, 2, 3, 4], h_pos = 0, h_read = True,
         h_write = True, h_sched = [EvOk, EvShort 1, EvErr ENOSPC]\<rparr>,
       fd_poisoned = False, fd_block_size = 2, fd_block_count = 2\<rparr>" 1 "[7, 8]" Release]
  by (auto simp: fd_wf_def isize_max_def sched_ok_def ENOSPC_def)

text \<open>
  Creating an image: when the host does not fail and the size is a legal file size, the device
  panics exactly for block size 0, and otherwise is a fault-free device over an image of exactly
  the requested size, all zeros whatever the file held before, with the whole blocks counted.
\<close>

theorem fd_create_spec:
  assumes "unat sz < 2 ^ 63"
  shows "case FileBlockDevice_create_with_block_size existing [] sz bs of
     Panic \<Rightarrow> bs = 0
   | Done (Inl e) \<Rightarrow> False
   | Done (Inr d) \<Rightarrow> fd_quiet d \<and> fd_data d = replicate (unat sz) 0 \<and> fd_block_size d = bs \<and>
       unat (fd_block_count d) = unat sz div unat bs"
  using assms
  by (auto simp: FileBlockDevice_create_with_block_size_def host_open_def file_set_len_def
      resize_def div_u64_def unat_div_word fd_quiet_def fd_wf_def isize_max_def
      split: option.splits rust.splits)

theorem fd_create_spec_witness:
  "case FileBlockDevice_create_with_block_size (Some [1, 2, 3]) [] 5 2 of
    Panic \<Rightarrow> (2 :: u32) = 0
  | Done (Inl e) \<Rightarrow> False
  | Done (Inr d) \<Rightarrow> fd_quiet d \<and> fd_data d = replicate (unat (5 :: u64)) 0 \<and> fd_block_size d = 2 \<and>
      unat (fd_block_count d) = unat (5 :: u64) div unat (2 :: u32)"
  by (rule fd_create_spec) simp

text \<open>
  A device opened read-only serves reads but never changes the image: every write within it is
  answered with the host's bad-descriptor error.
\<close>

theorem fd_read_only_rejects_writes:
  assumes "FileBlockDevice_open_read_only_with_block_size (Some img) [] bs = Done (Inr d)"
    and "length img \<le> isize_max" and "buf \<noteq> []"
    and "unat b * unat bs + length buf \<le> length img"
  shows "(\<exists>d'. fd_write_blocks p b buf d = Done (Inl (Io (Os EBADF)), d') \<and> fd_data d' = img) \<and>
    (\<exists>n d'. fd_read_blocks p b buf d =
       Done ((Inr n, slice (unat b * unat bs) (length buf) img), d') \<and> fd_data d' = img)"
proof -
  from assms(1) have d: "fd_block_size d = bs" "bs \<noteq> 0" "\<not> fd_poisoned d"
    "fd_file d = \<lparr>h_data = img, h_pos = 0, h_read = True, h_write = False, h_sched = []\<rparr>"
    by (auto simp: FileBlockDevice_open_read_only_with_block_size_def fd_of_existing_def
        host_open_def file_metadata_len_def div_u64_def split: if_splits)
  have wf: "fd_wf d" using d assms(2) by (simp add: fd_wf_def)
  have off: "unat (b * u64_of_u32 bs) = unat b * unat bs" "unat b * unat bs < 2 ^ 63"
      "mul_u64 p b (u64_of_u32 bs) = Done (b * u64_of_u32 bs)"
    using fd_offset_facts [OF wf, of b buf] assms(4) d by simp_all
  show ?thesis
    using d off assms(3,4)
    by (simp add: fd_write_blocks_def fd_read_blocks_def div_u32_def file_seek_start_def Let_def
        file_write_all.simps [of _ buf] sys_write_def EBADF_def EINTR_def file_read_exact_quiet)
qed

theorem fd_read_only_rejects_writes_witness:
  "(\<exists>d'. fd_write_blocks Debug 1 [7, 8]
      \<lparr>fd_file = \<lparr>h_data = [1, 2, 3, 4], h_pos = 0, h_read = True, h_write = False, h_sched = []\<rparr>,
       fd_poisoned = False, fd_block_size = 2, fd_block_count = 2\<rparr>
     = Done (Inl (Io (Os EBADF)), d') \<and> fd_data d' = [1, 2, 3, 4])"
proof -
  have "FileBlockDevice_open_read_only_with_block_size (Some [1, 2, 3, 4]) [] 2 =
    Done (Inr \<lparr>fd_file = \<lparr>h_data = [1, 2, 3, 4], h_pos = 0, h_read = True, h_write = False,
       h_sched = []\<rparr>, fd_poisoned = False, fd_block_size = 2, fd_block_count = 2\<rparr>)"
    by (simp add: FileBlockDevice_open_read_only_with_block_size_def fd_of_existing_def
        host_open_def file_metadata_len_def div_u64_def u64_of_u32_def)
  from fd_read_only_rejects_writes [OF this, of "[7, 8]" 1 Debug] show ?thesis
    by (simp add: isize_max_def)
qed

text \<open>
  C38: the file-backed device does not check its own block count: on a host that does not fail, a
  write starting at the first block past the device succeeds and makes the image longer.
\<close>

theorem fd_write_extends_image:
  assumes "fd_quiet d" and "length (fd_data d) = unat (fd_block_count d) * unat (fd_block_size d)"
    and "buf \<noteq> []"
  shows "\<exists>n d'. fd_write_blocks p (fd_block_count d) buf d = Done (Inr n, d') \<and>
    fd_data d' = fd_data d @ buf \<and> fd_block_count d' = fd_block_count d"
proof -
  have wf: "fd_wf d" "fd_block_size d \<noteq> 0" using assms(1) by (simp_all add: fd_quiet_def fd_wf_def)
  have rng: "unat (fd_block_count d) * unat (fd_block_size d) + length [] \<le> length (fd_data d)"
    using assms(2) by simp
  have "write_at (length (fd_data d)) buf (fd_data d) = fd_data d @ buf"
    using assms(3) by (simp add: write_at_def blit_def)
  then show ?thesis
    using fd_quiet_offset [OF assms(1) rng] fd_offset_facts [OF wf(1) rng] assms wf(2)
    by (simp add: fd_write_blocks_def div_u32_def fd_quiet_def file_write_all_quiet)
qed

theorem fd_write_extends_image_witness:
  "\<exists>n d'. fd_write_blocks Debug 2 [9, 9]
      \<lparr>fd_file = \<lparr>h_data = [1, 2, 3, 4], h_pos = 0, h_read = True, h_write = True, h_sched = []\<rparr>,
       fd_poisoned = False, fd_block_size = 2, fd_block_count = 2\<rparr> = Done (Inr n, d') \<and>
    fd_data d' = [1, 2, 3, 4, 9, 9]"
  using fd_write_extends_image [of "\<lparr>fd_file = \<lparr>h_data = [1, 2, 3, 4], h_pos = 0, h_read = True,
         h_write = True, h_sched = []\<rparr>, fd_poisoned = False, fd_block_size = 2,
         fd_block_count = 2\<rparr>" "[9, 9]" Debug]
  by (auto simp: fd_quiet_def fd_wf_def isize_max_def)

end
