(* ===== verification/EndToEnd.thy ===== *)
theory EndToEnd
  imports FileDev Wrapper
begin

text \<open>
  Calls from C down to the data: a run of block callbacks through a C structure, the wrapper it
  leads to and the device in it. It composes \<open>blockdev/mod.rs\<close> with the two devices.
\<close>

section \<open>Runs through a C structure\<close>

fun c_step :: "profile \<Rightarrow> addr \<Rightarrow> cb_call \<Rightarrow> 'd rheap \<Rightarrow> ((i32 \<times> bytes) \<times> 'd rheap) rust option" where
  "c_step p bdev (CbRead b n buf) h = blockdev_bread p bdev buf b n h"
| "c_step p bdev (CbWrite b n buf) h =
     map_option (\<lambda>m. bind_rust m (\<lambda>(r, h). Done ((r, buf), h))) (blockdev_bwrite p bdev buf b n h)"

fun c_run :: "profile \<Rightarrow> addr \<Rightarrow> cb_call list \<Rightarrow> 'd rheap \<Rightarrow> ((i32 \<times> bytes) list \<times> 'd rheap) rust option" where
  "c_run p bdev [] h = Some (Done ([], h))"
| "c_run p bdev (c # cs) h = (case c_step p bdev c h of
     None \<Rightarrow> None
   | Some Panic \<Rightarrow> Some Panic
   | Some (Done (r, h1)) \<Rightarrow>
       map_option (\<lambda>m. bind_rust m (\<lambda>(rs, h2). Done (r # rs, h2))) (c_run p bdev cs h1))"

text \<open>The heap with another value of the device in one wrapper.\<close>

definition set_device :: "addr \<Rightarrow> 'd \<Rightarrow> 'd rheap \<Rightarrow> 'd rheap" where
  "set_device a d h = h\<lparr>h_wrappers := (h_wrappers h)(a := map_option (\<lambda>w. w\<lparr>w_device := d\<rparr>) (h_wrappers h a))\<rparr>"

lemma set_device_facts:
  assumes "heap_wf h" and "h_wrappers h a = Some w"
  shows "heap_wf (set_device a d h)" and "h_wrappers (set_device a d h) a = Some (w\<lparr>w_device := d\<rparr>)"
    and "set_device a d' (set_device a d h) = set_device a d' h"
    and "as_bdev_ptr (set_device a d h) x = as_bdev_ptr h x"
    and "x \<noteq> a \<Longrightarrow> h_wrappers (set_device a d h) x = h_wrappers h x"
  using assms heap_wf_set_device [OF assms, of d] by (auto simp: set_device_def as_bdev_ptr_def)

lemma c_step_eq:
  assumes "heap_wf h" and "h_wrappers h a = Some w" and "as_bdev_ptr h a = Some bdev"
  shows "c_step p bdev c h = Some (bind_rust (cb_step p (w_vt w) c (w_device w))
    (\<lambda>(r, d). Done (r, set_device a d h)))"
proof -
  have bdev: "bdev = w_bdev w" using assms(2,3) by (simp add: as_bdev_ptr_def)
  note wd = with_device_wf [OF assms(1,2)]
  show ?thesis
  proof (cases c)
    case (CbRead b n buf)
    then show ?thesis
      by (simp add: blockdev_bread_def bdev wd set_device_def assms(2))
  next
    case (CbWrite b n buf)
    then show ?thesis
      by (cases "dev_bwrite p (w_vt w) buf b n (w_device w)")
        (auto simp: blockdev_bwrite_def bdev wd set_device_def assms(2) seq_st_def)
  qed
qed

lemma c_run_eq:
  assumes "heap_wf h" and "h_wrappers h a = Some w" and "as_bdev_ptr h a = Some bdev"
  shows "c_run p bdev cs h = Some (bind_rust (cb_run p (w_vt w) cs (w_device w))
    (\<lambda>(rs, d). Done (rs, set_device a d h)))"
  using assms
proof (induction cs arbitrary: h w)
  case Nil
  then have "set_device a (w_device w) h = h" by (simp add: set_device_def fun_upd_idem)
  then show ?case by simp
next
  case (Cons c cs)
  note step = c_step_eq [OF Cons.prems, of p c]
  show ?case
  proof (cases "cb_step p (w_vt w) c (w_device w)")
    case Panic
    then show ?thesis using step by (simp add: seq_st_def)
  next
    case (Done x)
    then obtain r d where 1: "cb_step p (w_vt w) c (w_device w) = Done (r, d)" by (cases x) auto
    note sd = set_device_facts [OF Cons.prems(1,2), where d = d]
    have "c_run p bdev cs (set_device a d h) = Some (bind_rust (cb_run p (w_vt w) cs d)
        (\<lambda>(rs, d'). Done (rs, set_device a d' h)))"
      using Cons.IH [OF sd(1,2)] sd(4) Cons.prems(3)
        set_device_facts(3) [OF Cons.prems(1,2), where d = d] by simp
    with step 1 show ?thesis
      by (cases "cb_run p (w_vt w) cs d") (auto simp: seq_st_def)
  qed
qed

section \<open>Properties\<close>

text \<open>
  C10: what lwext4 sees through its pointer is a disk: in a well-formed heap, any sequence of reads
  and writes within the device, called through the C structure of a wrapped in-memory device, never
  meets a broken pointer, never panics and succeeds; the replies are those of a flat byte array,
  the device in the wrapper ends as that array, and every other wrapper is untouched.
\<close>

theorem c_structure_is_disk:
  assumes "heap_wf h" and "h_wrappers h a = Some w" and "as_bdev_ptr h a = Some bdev"
    and "w_vt w = mem_vt p" and "mem_wf (w_device w)"
    and "\<forall>c \<in> set cs. cb_in_range (unat (mem_block_size (w_device w))) (length (data (w_device w))) c"
  shows "\<exists>rs h' w'. c_run p bdev cs h = Some (Done (rs, h')) \<and> heap_wf h' \<and>
    h_wrappers h' a = Some w' \<and> (\<forall>r \<in> set rs. fst r = 0) \<and>
    (map snd rs, data (w_device w')) =
      disk_run (unat (mem_block_size (w_device w))) cs (data (w_device w)) \<and>
    (\<forall>x. x \<noteq> a \<longrightarrow> h_wrappers h' x = h_wrappers h x)"
proof -
  obtain rs d where "cb_run p (mem_vt p) cs (w_device w) = Done (rs, d)" "\<forall>r \<in> set rs. fst r = 0"
    "(map snd rs, data d) = disk_run (unat (mem_block_size (w_device w))) cs (data (w_device w))"
    using mem.run_ok [OF assms(5), of cs p p] assms(6) by auto
  with c_run_eq [OF assms(1-3), of p cs] set_device_facts [OF assms(1,2), where d = d] assms(4)
  show ?thesis by (intro exI [of _ rs] exI [of _ "set_device a d h"] exI [of _ "w\<lparr>w_device := d\<rparr>"]) simp
qed

theorem c_structure_is_disk_witness:
  "\<exists>h :: MemoryBlockDevice rheap. \<exists>bdev rs h'.
     c_run Debug bdev [CbWrite 1 1 [7, 8], CbRead 0 2 [0, 0, 0, 0]] h = Some (Done (rs, h')) \<and>
     map snd rs = [[7, 8], [1, 2, 7, 8]]"
proof -
  let ?d = "\<lparr>data = [1, 2, 3, 4], mem_block_size = 2, mem_block_count = 2\<rparr>"
  have "BlockDeviceWrapper_new Debug (mem_vt Debug) ?d empty_heap \<noteq> Panic"
    by (simp add: wrapper_new_eq mul_u64_def Let_def u64_of_u32_def)
  then obtain a h where new: "BlockDeviceWrapper_new Debug (mem_vt Debug) ?d empty_heap = Done (a, h)"
    by (cases "BlockDeviceWrapper_new Debug (mem_vt Debug) ?d empty_heap") auto
  from wrapper_new_wf [OF heap_wf_empty new] obtain w where
    h: "heap_wf h" "h_wrappers h a = Some w" "w_vt w = mem_vt Debug" "w_device w = ?d"
    by auto
  let ?cs = "[CbWrite 1 1 [7, 8], CbRead 0 2 [0, 0, 0, 0]]"
  have B: "mem_wf (w_device w)" by (simp add: h(4) mem_wf_def isize_max_def)
  have A: "as_bdev_ptr h a = Some (w_bdev w)" using h(2) by (simp add: as_bdev_ptr_def)
  have C: "\<forall>c \<in> set ?cs. cb_in_range (unat (mem_block_size (w_device w))) (length (data (w_device w))) c"
    by (simp add: h(4))
  from c_structure_is_disk [OF h(1,2) A h(3) B C] obtain rs h' and w' :: "MemoryBlockDevice BlockDeviceWrapper" where
    1: "c_run Debug (w_bdev w) ?cs h = Some (Done (rs, h'))" and
    2: "(map snd rs, data (w_device w')) =
      disk_run (unat (mem_block_size (w_device w))) ?cs (data (w_device w))" by blast
  from 2 have "map snd rs = [[7, 8], [1, 2, 7, 8]]" by (simp add: h(4) slice_def blit_def)
  with 1 show ?thesis
    by (intro exI [of _ h] exI [of _ "w_bdev w"] exI [of _ rs] exI [of _ h'] conjI)
qed

text \<open>
  C31: the two devices are interchangeable: an in-memory device and a file-backed device on a host
  that does not fail, with the same block size and content, give the same replies to any sequence
  of callback reads and writes within their size, and end with the same content.
\<close>

theorem devices_equivalent:
  assumes "mem_wf m" and "fd_quiet f" and "data m = fd_data f"
    and "mem_block_size m = fd_block_size f"
    and "\<forall>c \<in> set cs. cb_in_range (unat (mem_block_size m)) (length (data m)) c"
  shows "\<exists>rs m' f'. cb_run p (mem_vt p) cs m = Done (rs, m') \<and> cb_run q (fd_vt q) cs f = Done (rs, f') \<and>
    data m' = fd_data f'"
proof -
  obtain rs m' where 1: "cb_run p (mem_vt p) cs m = Done (rs, m')" "\<forall>r \<in> set rs. fst r = 0"
    "(map snd rs, data m') = disk_run (unat (mem_block_size m)) cs (data m)"
    using mem.run_ok [OF assms(1), of cs p p] assms(5) by auto
  obtain rs' f' where 2: "cb_run q (fd_vt q) cs f = Done (rs', f')" "\<forall>r \<in> set rs'. fst r = 0"
    "(map snd rs', fd_data f') = disk_run (unat (fd_block_size f)) cs (fd_data f)"
    using fdq.run_ok [OF assms(2), of cs q q] assms(3-5) by auto
  have "map snd rs = map snd rs' \<and> data m' = fd_data f'"
    using 1(3) 2(3) assms(3,4) by (metis prod.inject)
  moreover have "rs = zip (replicate (length rs) 0) (map snd rs)" if "\<forall>r \<in> set rs. fst r = 0"
    for rs :: "(i32 \<times> bytes) list" using that by (induction rs) auto
  ultimately have "rs = rs'" using 1(2) 2(2) by (metis length_map)
  with 1(1) 2(1) \<open>map snd rs = map snd rs' \<and> data m' = fd_data f'\<close> show ?thesis by blast
qed

theorem devices_equivalent_witness:
  "\<exists>rs m' f'. cb_run Debug (mem_vt Debug) [CbRead 1 1 [0, 0]]
       \<lparr>data = [1, 2, 3, 4], mem_block_size = 2, mem_block_count = 2\<rparr> = Done (rs, m') \<and>
     cb_run Release (fd_vt Release) [CbRead 1 1 [0, 0]]
       \<lparr>fd_file = \<lparr>h_data = [1, 2, 3, 4], h_pos = 9, h_read = True, h_write = True, h_sched = []\<rparr>,
        fd_poisoned = False, fd_block_size = 2, fd_block_count = 2\<rparr> = Done (rs, f')"
  using devices_equivalent [of "\<lparr>data = [1, 2, 3, 4], mem_block_size = 2, mem_block_count = 2\<rparr>"
      "\<lparr>fd_file = \<lparr>h_data = [1, 2, 3, 4], h_pos = 9, h_read = True, h_write = True, h_sched = []\<rparr>,
        fd_poisoned = False, fd_block_size = 2, fd_block_count = 2\<rparr>" "[CbRead 1 1 [0, 0]]" Debug Release]
  by (auto simp: mem_wf_def fd_quiet_def fd_wf_def isize_max_def)

text \<open>
  No path leads from lwext4 to a device's \<open>flush\<close>: the callbacks behave the same whatever
  \<open>flush\<close> does, so neither syncing the file system nor unmounting it reaches the
  \<open>sync_all\<close> of a file-backed device.
\<close>

theorem flush_never_called:
  "cb_run p (V\<lparr>vt_flush := g\<rparr>) cs d = cb_run p V cs d \<and>
   dev_open (V\<lparr>vt_flush := g\<rparr>) d = dev_open V d \<and> dev_close (V\<lparr>vt_flush := g\<rparr>) d = dev_close V d"
proof -
  have "cb_step p (V\<lparr>vt_flush := g\<rparr>) c = cb_step p V c" for c
    by (cases c) (simp_all add: dev_bread_def dev_bwrite_def)
  then have "cb_run p (V\<lparr>vt_flush := g\<rparr>) cs = cb_run p V cs" by (induction cs) simp_all
  then show ?thesis by (simp add: dev_open_def dev_close_def)
qed

end
