(* ===== verification/ApiProps.thy ===== *)
theory ApiProps
  imports Handles FileProps
begin

text \<open>
  What holds of the whole public interface without any assumption on the C library: no operation on
  a mounted file system panics, whatever codes and data come back, and every string the interface
  hands out is valid UTF-8.
\<close>

section \<open>Computations that return\<close>

definition returns :: "('s, 'r) comp \<Rightarrow> bool" where
  "returns m \<longleftrightarrow> (\<forall>s. \<exists>r s'. m s = Done (r, s'))"

named_theorems returns_rules \<open>a computation returns when its parts do\<close>

lemma returns_ret [returns_rules]: "returns (ret_st x)"
  by (simp add: returns_def)

lemma returns_ffi [returns_rules]: "returns (ffi c f)"
  by (simp add: returns_def ffi_apply)

lemma returns_check [returns_rules]:
  "returns (lift_rust (check_errno e))" "returns (lift_rust (check_errno_with_path e path))"
  by (simp_all add: returns_def check_errno_eq check_errno_with_path_eq)

lemma returns_seq [returns_rules]: "returns m \<Longrightarrow> (\<And>x. returns (k x)) \<Longrightarrow> returns (seq_st m k)"
  unfolding returns_def seq_st_def by (metis case_prod_conv rust.case(1))

lemma returns_try [returns_rules]: "returns m \<Longrightarrow> (\<And>x. returns (k x)) \<Longrightarrow> returns (try_st m k)"
  unfolding returns_def
proof (intro allI)
  fix s
  assume m: "\<forall>s. \<exists>r s'. m s = Done (r, s')" and k: "\<And>x. \<forall>s. \<exists>r s'. k x s = Done (r, s')"
  from m obtain r s1 where "m s = Done (r, s1)" by blast
  with k show "\<exists>r s'. try_st m k s = Done (r, s')" by (cases r) (simp_all add: try_st_def)
qed

lemma returns_try_res [returns_rules]: "(\<And>x. returns (k x)) \<Longrightarrow> returns (try_res r k)"
  by (cases r) (simp_all add: returns_ret)

lemma returns_if [returns_rules]: "returns m \<Longrightarrow> returns n \<Longrightarrow> returns (if b then m else n)"
  by simp

lemma returns_case [returns_rules]:
  "(\<And>x y. returns (k x y)) \<Longrightarrow> returns (case z of (x, y) \<Rightarrow> k x y)"
  "(\<And>x. returns (f x)) \<Longrightarrow> (\<And>y. returns (g y)) \<Longrightarrow> returns (case r of Inl x \<Rightarrow> f x | Inr y \<Rightarrow> g y)"
  by (cases z, simp) (cases r, simp_all)

lemma returns_ignore [returns_rules]: "returns m \<Longrightarrow> returns (ignore m)"
  by (simp add: ignore_def returns_seq returns_ret)

lemma returns_when [returns_rules]: "returns m \<Longrightarrow> returns (when_st b m)"
  by (simp add: when_st_def returns_ret)

lemma returns_free [returns_rules]: "returns (free_wrapper a)"
  by (simp add: returns_def free_wrapper_def)

lemma open_returns:
  "returns (open_file L fs path flags)" "returns (open_dir L fs path)"
  "returns (File_drop L f)" "returns (Dir_drop L d)"
  unfolding open_file_def open_dir_def File_open_def Dir_open_def File_drop_def Dir_drop_def ffi_defs
  by (intro returns_rules)+

lemma size_of_path_returns: "returns (size_of_path L fs path)"
proof -
  have "returns (\<lambda>w. bind_rust (File_size L (f, w)) (\<lambda>(n, (f, w)).
         seq_st (File_drop L f) (\<lambda>_. ret_st n) w))" for f
    by (simp add: returns_def File_size_def File_drop_def ffi_defs rust_simps)
  then show ?thesis
    unfolding size_of_path_def open_file_def [symmetric]
    by (intro returns_seq returns_case(2) open_returns returns_ret)
qed

lemma query_returns: "returns (run_query L fs q)"
  unfolding ffi_defs
  by (cases q) (simp_all add: stat_def readlink_def exists_path_def is_file_def is_dir_def
      inode_check_def metadata_def Let_def ffi_defs returns_rules size_of_path_returns)

lemma op_returns: "returns (run_op L fs c)"
  by (cases c) (simp_all add: op_defs ffi_defs returns_rules)

lemma file_call_returns:
  "\<exists>r st'. File_read L buf st = Done (r, st')" "\<exists>r st'. File_write L buf st = Done (r, st')"
  "\<exists>r st'. File_seek L pos st = Done (r, st')" "\<exists>r st'. File_truncate L n st = Done (r, st')"
  by (cases st; simp add: File_read_def File_write_def File_seek_def File_position_def File_truncate_def
      ffi_defs rust_simps try_st_def seq_st_def split: prod.splits)+

lemma umount_returns: "returns (umount L fs)"
  by (simp add: umount_def umount_body_def Ext4Fs_drop_def ffi_defs returns_rules)

section \<open>Properties\<close>

text \<open>
  C24: nothing the C library answers makes an operation panic: with any codes, counts and structures
  coming back, every change and query of a mounted file system, syncing, unmounting, opening a file
  or directory, and reading, writing, seeking or truncating an open file returns a value or an
  error (the conversion of the success code into an error, the one panic among them, is never
  reached).
\<close>

theorem operations_never_panic:
  "(\<exists>r w'. run_op L fs c w = Done (r, w')) \<and> (\<exists>r w'. run_query L fs q w = Done (r, w')) \<and>
   (\<exists>r w'. sync L fs w = Done (r, w')) \<and> (\<exists>r w'. umount L fs w = Done (r, w')) \<and>
   (\<exists>r w'. open_file L fs path flags w = Done (r, w')) \<and> (\<exists>r w'. open_dir L fs path w = Done (r, w')) \<and>
   (\<exists>r st'. File_read L buf st = Done (r, st')) \<and> (\<exists>r st'. File_write L buf st = Done (r, st')) \<and>
   (\<exists>r st'. File_seek L pos st = Done (r, st')) \<and> (\<exists>r st'. File_truncate L n st = Done (r, st'))"
proof -
  have "returns (sync L fs)" by (simp add: sync_def ffi_defs returns_rules)
  then show ?thesis
    using op_returns query_returns open_returns umount_returns file_call_returns
    unfolding returns_def by metis
qed

text \<open>
  C28: the interface never hands out a broken string: whatever bytes the C library stores in a link's
  target, a volume name, a directory entry or a file, a \<open>String\<close> that reaches the caller is
  valid UTF-8.
\<close>

theorem strings_are_utf8:
  assumes "is_str old"
  shows "(readlink L fs path w = Done (Inr target, w') \<longrightarrow> is_str target) \<and>
    (stat L fs w = Done (Inr info, w') \<longrightarrow> is_str (volume_name info)) \<and>
    (Dir_next L ds = Done (Some (Inr e), ds') \<longrightarrow> is_str (DirEntry_name e)) \<and>
    (File_read_to_string p L old st = Some (Done ((r, out), st')) \<longrightarrow> is_str out)"
proof (intro conjI impI)
  show "is_str target" if "readlink L fs path w = Done (Inr target, w')"
    using that
    by (cases "make_path fs path") (auto simp: readlink_def Let_def ffi_defs rust_simps try_st_def
        dest: from_utf8_is_str split: prod.splits if_splits option.splits)
  show "is_str (volume_name info)" if "stat L fs w = Done (Inr info, w')"
    using that
    by (auto simp: stat_def ffi_defs rust_simps try_st_def stats_of_raw_def volume_name_of_def Let_def
        from_utf8_lossy_is_str split: prod.splits if_splits)
  show "is_str (DirEntry_name e)" if "Dir_next L ds = Done (Some (Inr e), ds')"
    using that
    by (cases ds) (auto simp: Dir_next_def Dir_next_entry_def entry_of_raw_def Let_def ffi_defs rust_simps
        bind_rust_Done_iff DirEntry_name_def from_utf8_lossy_is_str dest: from_utf8_is_str
        split: prod.splits if_splits option.splits)
  show "is_str out" if "File_read_to_string p L old st = Some (Done ((r, out), st'))"
  proof -
    from that obtain z where z: "File_read_to_end p L [] st = Some z"
      by (auto simp: File_read_to_string_def)
    with that obtain q bytes st1 where "z = Done ((q, bytes), st1)"
      by (cases z) (auto simp: File_read_to_string_def)
    with that z assms show ?thesis
      by (auto simp: File_read_to_string_def dest: from_utf8_is_str split: sum.splits option.splits)
  qed
qed

theorem strings_are_utf8_witness:
  "\<exists>r out st'. File_read_to_string Debug one_file ''old'' (one_state [0x61, 0xFF]) =
     Some (Done ((r, out), st')) \<and> is_str out"
proof -
  have old: "is_str ''old''" by code_simp
  have "length (contents one_content (one_state [0x61, 0xFF])) \<le> isize_max"
    by (simp add: contents_def one_state_def one_content_def isize_max_def)
  from read_to_string_spec [OF one_file_reads this, of Debug "''old''"] obtain r out st' where
    "File_read_to_string Debug one_file ''old'' (one_state [0x61, 0xFF]) = Some (Done ((r, out), st'))"
    by blast
  with strings_are_utf8 [OF old] show ?thesis by blast
qed

end
