(* ===== verification/IoAdapters.thy ===== *)
theory IoAdapters
  imports FileProps
begin

text \<open>
  The \<open>std::io\<close> adapters of \<open>file.rs\<close>: a caller who uses a file through \<open>std::io::Write\<close> gets the
  provided method \<open>write_all\<close> of the standard library, which runs over the adapter's \<open>write\<close>,
  instead of the crate's own. Both loops are compared here.
\<close>

section \<open>The provided method of the standard library\<close>

text \<open>\<open>io::Error::is_interrupted\<close>, for the errors of the model.\<close>

fun is_interrupted :: "io_error \<Rightarrow> bool" where
  "is_interrupted (Os e) \<longleftrightarrow> e = EINTR"
| "is_interrupted (Simple k m) \<longleftrightarrow> False"
| "is_interrupted (Wrapped k e) \<longleftrightarrow> False"

text \<open>
  \<open>Write::write_all\<close> over any \<open>write\<close>: interrupted writes are repeated, a write of 0 bytes is an
  error, \<open>&buf[n..]\<close> panics when the writer claims more than it was given.
\<close>

partial_function (option) std_write_all ::
  "(bytes \<Rightarrow> ('s, io_error + usize) comp) \<Rightarrow> bytes \<Rightarrow> 's \<Rightarrow> ((io_error + unit) \<times> 's) rust option" where
  "std_write_all wr buf st =
     (if buf = [] then Some (Done (Inr (), st))
      else (case wr buf st of
          Panic \<Rightarrow> Some Panic
        | Done (Inl e, st) \<Rightarrow>
            if is_interrupted e then std_write_all wr buf st else Some (Done (Inl e, st))
        | Done (Inr n, st) \<Rightarrow>
            if n = 0 then Some (Done (Inl (Simple WriteZero ''failed to write whole buffer''), st))
            else if length buf < unat n then Some Panic
            else std_write_all wr (drop (unat n) buf) st))"

text \<open>An error of the crate as the caller of the adapter sees it.\<close>

fun as_io :: "error + 'a \<Rightarrow> io_error + 'a" where
  "as_io (Inr x) = Inr x"
| "as_io (Inl e) = Inl (case e of Io io \<Rightarrow> io | _ \<Rightarrow> Wrapped Other e)"

text \<open>A library that never claims to have written more than it was given.\<close>

definition writes_bounded :: "'w lwext4 \<Rightarrow> bool" where
  "writes_bounded L \<longleftrightarrow> (\<forall>f buf w. case fst (l_fwrite (file_fns L) f buf (slice_len buf) 0 w) of
     (r, f', k) \<Rightarrow> r = 0 \<longrightarrow> unat k \<le> length buf)"

section \<open>Facts\<close>

lemma err_of_not_Io: "r \<noteq> 0 \<Longrightarrow> err_of r \<noteq> Io e"
  using err_of_errnos [of r] by auto

text \<open>One write through the adapter and through the method.\<close>

lemma io_write_cases:
  obtains e st' where "File_write L buf st = Done (Inl e, st')"
      "io_write L buf st = Done (Inl (Wrapped Other e), st')" "as_io (Inl e :: error + unit) = Inl (Wrapped Other e)"
  | n st' where "File_write L buf st = Done (Inr n, st')" "io_write L buf st = Done (Inr n, st')"
      "writes_bounded L \<Longrightarrow> unat n \<le> length buf"
proof -
  obtain self w where st: "st = (self, w)" by (cases st)
  obtain r f' k s where c:
    "l_fwrite (file_fns L) (inner self) buf (slice_len buf) 0 (cst w) = ((r, f', k), s)"
    by (metis surj_pair)
  let ?st = "(self\<lparr>inner := f'\<rparr>, w\<lparr>cst := s, calls := calls w @ [C_fwrite (inner self) buf]\<rparr>)"
  have wr: "File_write L buf st = Done (if r = 0 then Inr k else Inl (err_of r), ?st)"
    by (simp add: File_write_def st ffi_defs rust_simps c)
  show thesis
  proof (cases "r = 0")
    case True
    moreover have "unat k \<le> length buf" if "writes_bounded L"
      using that [unfolded writes_bounded_def, rule_format, of buf "inner self" "cst w"] c True
      by simp
    ultimately show thesis
      using that(2) [of k ?st] wr by (simp add: io_write_def map_err_def rust_simps)
  next
    case False
    then have "as_io (Inl (err_of r) :: error + unit) = Inl (Wrapped Other (err_of r))"
      using err_of_not_Io [OF False] by (simp split: error.split)
    with False that(1) [of "err_of r" ?st] wr show thesis
      by (simp add: io_write_def map_err_def rust_simps)
  qed
qed

lemma write_loops_agree:
  assumes "writes_bounded L" and "length buf \<le> isize_max" and "j \<le> length buf" and "unat written = j"
  shows "std_write_all (io_write L) (drop j buf) st =
    map_option (\<lambda>m. bind_rust m (\<lambda>(r, st). Done (as_io r, st))) (write_loop p L buf written st)"
  using assms(3,4)
proof (induction "length buf - j" arbitrary: j written st rule: less_induct)
  case less
  have sl: "unat (slice_len buf) = length buf" using assms(2) by (rule unat_slice_len_isize)
  show ?case
  proof (cases "j < length buf")
    case False
    then show ?thesis
      using less.prems by (simp add: std_write_all.simps write_loop.simps word_less_nat_alt sl)
  next
    case True
    then have w: "written < slice_len buf" "drop j buf \<noteq> []"
      using less.prems by (simp_all add: word_less_nat_alt sl)
    note step = std_write_all.simps [of "io_write L" "drop j buf" st] write_loop.simps [of p L buf written st]
      w less.prems(2)
    show ?thesis
    proof (cases rule: io_write_cases [of L "drop j buf" st])
      case (1 e st')
      then show ?thesis using step by simp
    next
      case (2 n st')
      show ?thesis
      proof (cases "n = 0")
        case True
        then show ?thesis using step 2 by simp
      next
        case False
        then have pos: "0 < unat n" using unat_gt_0 by blast
        have n: "unat n \<le> length buf - j" using 2(3) assms(1) by simp
        have "isize_max < 2 ^ 64" by (simp add: isize_max_def)
        then have add: "add_u64 p written n = Done (written + n)" "unat (written + n) = j + unat n"
          using n True assms(2) less.prems(2) by (auto simp: add_u64_ok unat_add_u64)
        have "length buf - (j + unat n) < length buf - j" "j + unat n \<le> length buf"
          using pos n True by simp_all
        from less.hyps [OF this add(2), of st'] show ?thesis
          using step 2(1,2) False n add(1) by (simp add: add.commute)
      qed
    qed
  qed
qed

section \<open>Properties\<close>

text \<open>
  C29: writing through \<open>std::io::Write\<close> is writing with the crate's own method: over any library that
  does not claim to have written more than it was given, the \<open>write_all\<close> the standard library
  provides on top of the adapter makes the same calls, ends in the same state and has the same
  result as \<open>File::write_all\<close>, with an error of lwext4 wrapped into an \<open>io::Error\<close> and the error
  of a write without progress unwrapped.
\<close>

theorem io_write_all_agrees:
  assumes "writes_bounded L" and "length buf \<le> isize_max"
  shows "std_write_all (io_write L) buf st =
    map_option (\<lambda>m. bind_rust m (\<lambda>(r, st). Done (as_io r, st))) (File_write_all p L buf st)"
  using write_loops_agree [OF assms, of 0 0 st p] by (simp add: File_write_all_def)

theorem io_write_all_agrees_witness:
  "\<exists>st'. std_write_all (io_write one_file) [7, 8, 9] (one_state []) = Some (Done (Inr (), st'))"
proof -
  have "writes_bounded one_file"
    by (auto simp: writes_bounded_def one_file_def one_fwrite_def Let_def ENOSPC_def unat_of_nat)
  moreover have "length [7, 8, 9 :: u8] \<le> isize_max" by (simp add: isize_max_def)
  ultimately show ?thesis
    using io_write_all_agrees [of one_file "[7, 8, 9]" "one_state []" Debug] one_file_write_all by auto
qed

end
