(* ===== verification/UnitTests.thy ===== *)
theory UnitTests
  imports MemoryDev Mkfs
begin

text \<open>
  The repository's own unit tests (\<open>blockdev/memory.rs\<close> and \<open>mkfs.rs\<close>), run in the model. A test
  passes when it returns; a failing assertion and an \<open>unwrap\<close> of an error panic.
\<close>

section \<open>The tests\<close>

definition assert_that :: "bool \<Rightarrow> unit rust" where
  "assert_that b = (if b then Done () else Panic)"

definition unwrap_sum :: "'e + 'a \<Rightarrow> 'a rust" where
  "unwrap_sum r = (case r of Inl e \<Rightarrow> Panic | Inr x \<Rightarrow> Done x)"

definition test_memory_device_read_write :: "profile \<Rightarrow> unit rust" where
  "test_memory_device_read_write p =
     bind_rust (MemoryBlockDevice_new p 4096 512) (\<lambda>dev.
     let write_buf = replicate 512 0xAA in
     bind_rust (mem_write_blocks p 0 write_buf dev) (\<lambda>(r, dev).
     bind_rust (unwrap_sum r) (\<lambda>_.
     let read_buf = replicate 512 0 in
     bind_rust (mem_read_blocks p 0 read_buf dev) (\<lambda>((r, read_buf), dev).
     bind_rust (unwrap_sum r) (\<lambda>_.
     assert_that (write_buf = read_buf))))))"

definition test_memory_device_block_count :: "profile \<Rightarrow> unit rust" where
  "test_memory_device_block_count p =
     bind_rust (MemoryBlockDevice_new p 8192 512) (\<lambda>dev.
     bind_rust (assert_that (vt_block_count (mem_vt p) dev = 16)) (\<lambda>_.
     assert_that (vt_block_size (mem_vt p) dev = 512)))"

definition test_mkfs_options_builder :: "unit rust" where
  "test_mkfs_options_builder =
     (let opts = with_journal True (with_block_size 4096 (with_label ''test_disk'' MkfsOptions_ext4)) in
      bind_rust (assert_that (o_fs_type opts = Ext4)) (\<lambda>_.
      bind_rust (assert_that (o_label opts = Some ''test_disk'')) (\<lambda>_.
      bind_rust (assert_that (o_block_size opts = 4096)) (\<lambda>_.
      assert_that (o_journal opts)))))"

section \<open>They pass\<close>

text \<open>The first test for every size, block number and buffer it could have used.\<close>

lemma write_then_read_block:
  assumes "MemoryBlockDevice_new p sz bs = Done d" and "length old = length xs"
    and "unat b * unat bs + length xs \<le> unat sz div unat bs * unat bs"
  shows "\<exists>n d'. mem_write_blocks p b xs d = Done (Inr n, d') \<and>
    (\<exists>m. mem_read_blocks p b old d' = Done ((Inr m, xs), d'))"
proof -
  have d: "mem_block_size d = bs" "length (data d) = unat sz div unat bs * unat bs"
    using assms(1) by (auto simp: mem_new_cases split: if_splits)
  define d' where "d' = d\<lparr>data := blit (unat b * unat bs) xs (data d)\<rparr>"
  have wf: "mem_wf d" using assms(1) by (rule mem_new_wf)
  have fit: "unat b * unat (mem_block_size d) + length xs \<le> length (data d)" using assms(3) d by simp
  have wf': "mem_wf d'" "length (data d') = length (data d)" "mem_block_size d' = bs"
    using wf fit d(1) by (simp_all add: d'_def mem_wf_def length_blit)
  have "mem_read_blocks p b old d' =
      Done ((Inr (u32_of_u64 (slice_len old div u64_of_u32 bs)), xs), d')"
    using mem_read_in_range [OF wf'(1), of b old p] fit assms(2) wf'(2,3) d
    by (simp add: d'_def slice_blit_same)
  with mem_write_in_range [OF wf fit, of p] d(1) show ?thesis by (simp add: d'_def)
qed

lemma unit_tests_pass:
  "test_memory_device_read_write p = Done ()" "test_memory_device_block_count p = Done ()"
  "test_mkfs_options_builder = Done ()"
proof -
  have "isize_max \<ge> 8192" by (simp add: isize_max_def)
  then obtain d where d: "MemoryBlockDevice_new p 4096 512 = Done d" by (simp add: mem_new_cases)
  from write_then_read_block [OF d, of "replicate 512 0" "replicate 512 0xAA" 0]
  obtain n d' m where "mem_write_blocks p 0 (replicate 512 0xAA) d = Done (Inr n, d')"
    "mem_read_blocks p 0 (replicate 512 0) d' = Done ((Inr m, replicate 512 0xAA), d')"
    by auto
  then show "test_memory_device_read_write p = Done ()"
    unfolding test_memory_device_read_write_def Let_def d bind_rust_simps
    by (simp only: bind_rust_simps prod.case unwrap_sum_def sum.case assert_that_def simp_thms if_True)
  show "test_memory_device_block_count p = Done ()"
    using \<open>isize_max \<ge> 8192\<close>
    by (simp add: test_memory_device_block_count_def mem_new_cases assert_that_def u64_of_u32_def)
  show "test_mkfs_options_builder = Done ()"
    by (simp add: test_mkfs_options_builder_def Let_def assert_that_def with_journal_def
        with_block_size_def with_label_def MkfsOptions_ext4_def MkfsOptions_default_def)
qed

end
