(* ===== verification/Mutex.thy ===== *)
theory Mutex
  imports Main
begin

text \<open>
  Threads that share a value behind a \<open>std::sync::Mutex\<close>. Each thread has one operation to do; it
  waits for the lock, works in small steps while it holds the guard, and lets the guard go when
  it finishes. Steps of different threads interleave arbitrarily. The interface says that the small
  steps of an operation add up to its effect in one piece; then any interleaving has the results
  and the final value of the operations done one after the other in some order.
\<close>

section \<open>Interleaving\<close>

datatype ('j, 'pc, 'r) thread = Waiting 'j | Running 'pc | Finished 'r

text \<open>The threads, the holder of the lock, the shared value.\<close>

type_synonym ('j, 'pc, 'r, 's) threads = "('j, 'pc, 'r) thread list \<times> nat option \<times> 's"

text \<open>
  \<open>begin_op\<close> is what happens up to taking the guard: an operation can also be refused there.
  \<open>step_op\<close> is one step under the guard.
\<close>

inductive conc_step ::
  "('s \<Rightarrow> 'j \<Rightarrow> 'pc + 'r) \<Rightarrow> ('pc \<Rightarrow> 's \<Rightarrow> ('pc + 'r) \<times> 's) \<Rightarrow>
   ('j, 'pc, 'r, 's) threads \<Rightarrow> ('j, 'pc, 'r, 's) threads \<Rightarrow> bool"
  for begin_op :: "'s \<Rightarrow> 'j \<Rightarrow> 'pc + 'r" and step_op :: "'pc \<Rightarrow> 's \<Rightarrow> ('pc + 'r) \<times> 's" where
  acquire: "i < length ts \<Longrightarrow> ts ! i = Waiting j \<Longrightarrow> begin_op s j = Inl pc \<Longrightarrow>
    conc_step begin_op step_op (ts, None, s) (ts[i := Running pc], Some i, s)"
| refused: "i < length ts \<Longrightarrow> ts ! i = Waiting j \<Longrightarrow> begin_op s j = Inr r \<Longrightarrow>
    conc_step begin_op step_op (ts, None, s) (ts[i := Finished r], None, s)"
| progress: "i < length ts \<Longrightarrow> ts ! i = Running pc \<Longrightarrow> step_op pc s = (Inl pc', s') \<Longrightarrow>
    conc_step begin_op step_op (ts, Some i, s) (ts[i := Running pc'], Some i, s')"
| release: "i < length ts \<Longrightarrow> ts ! i = Running pc \<Longrightarrow> step_op pc s = (Inr r, s') \<Longrightarrow>
    conc_step begin_op step_op (ts, Some i, s) (ts[i := Finished r], None, s')"

inductive_cases conc_stepE: "conc_step b st (ts, ow, s) (ts', ow', s')"

text \<open>The operations \<open>js\<close> one after the other, in the order given, each in one piece.\<close>

fun seq_run :: "('j \<Rightarrow> 's \<Rightarrow> 'r \<times> 's) \<Rightarrow> 'j list \<Rightarrow> nat list \<Rightarrow> 's \<Rightarrow> (nat \<times> 'r) list \<times> 's" where
  "seq_run whole js [] s = ([], s)"
| "seq_run whole js (i # order) s =
     (case whole (js ! i) s of (r, s1) \<Rightarrow>
      case seq_run whole js order s1 of (rs, s2) \<Rightarrow> ((i, r) # rs, s2))"

lemma rtranclp_induct3 [consumes 1, case_names refl step]:
  assumes "R\<^sup>*\<^sup>* (a, b, c) (x, y, z)" and "P a b c"
    and "\<And>x y z x' y' z'. R\<^sup>*\<^sup>* (a, b, c) (x, y, z) \<Longrightarrow> R (x, y, z) (x', y', z') \<Longrightarrow> P x y z \<Longrightarrow> P x' y' z'"
  shows "P x y z"
proof -
  have "case w of (x, y, z) \<Rightarrow> P x y z" if "R\<^sup>*\<^sup>* (a, b, c) w" for w
    using that assms(2,3) by (induction rule: rtranclp_induct) (auto split: prod.splits)
  with assms(1) show ?thesis by blast
qed

lemma seq_run_snoc:
  "seq_run whole js order s = (rs, s1) \<Longrightarrow> whole (js ! i) s1 = (r, s2) \<Longrightarrow>
   seq_run whole js (order @ [i]) s = (rs @ [(i, r)], s2)"
  by (induction order arbitrary: s rs) (auto split: prod.splits)

section \<open>Operations under a lock\<close>

locale locked_operations =
  fixes begin_op :: "'s \<Rightarrow> 'j \<Rightarrow> 'pc + 'r" and step_op :: "'pc \<Rightarrow> 's \<Rightarrow> ('pc + 'r) \<times> 's"
    and whole :: "'j \<Rightarrow> 's \<Rightarrow> 'r \<times> 's" and rest :: "'pc \<Rightarrow> 's \<Rightarrow> 'r \<times> 's"
  assumes begin_law: "begin_op s j = Inl pc \<Longrightarrow> rest pc s = whole j s"
    and refuse_law: "begin_op s j = Inr r \<Longrightarrow> whole j s = (r, s)"
    and step_law: "step_op pc s = (Inl pc', s') \<Longrightarrow> rest pc s = rest pc' s'"
    and done_law: "step_op pc s = (Inr r, s') \<Longrightarrow> rest pc s = (r, s')"
begin

text \<open>
  The invariant: the finished threads have the replies of a sequential run, and the holder of the
  lock, if any, will finish as if it ran next.
\<close>

definition linear :: "'j list \<Rightarrow> 's \<Rightarrow> ('j, 'pc, 'r) thread list \<Rightarrow> nat option \<Rightarrow> 's \<Rightarrow>
    (nat \<times> 'r) list \<Rightarrow> 's \<Rightarrow> bool" where
  "linear js s0 ts ow sh rs s \<longleftrightarrow>
     length ts = length js \<and> seq_run whole js (map fst rs) s0 = (rs, s) \<and> distinct (map fst rs) \<and>
     fst ` set rs \<subseteq> {..<length ts} \<and>
     (\<forall>i < length ts. \<forall>r. ts ! i = Finished r \<longleftrightarrow> (i, r) \<in> set rs) \<and>
     (\<forall>i < length ts. \<forall>j. ts ! i = Waiting j \<longrightarrow> j = js ! i) \<and>
     (\<forall>i < length ts. \<forall>pc. ts ! i = Running pc \<longrightarrow> ow = Some i) \<and>
     (\<forall>i. ow = Some i \<longrightarrow> i < length ts \<and> (\<exists>pc. ts ! i = Running pc)) \<and>
     (\<forall>i pc. ow = Some i \<longrightarrow> ts ! i = Running pc \<longrightarrow> rest pc sh = whole (js ! i) s) \<and>
     (ow = None \<longrightarrow> sh = s)"

lemma linear_start: "linear js s0 (map Waiting js) None s0 [] s0"
  by (simp add: linear_def)

lemma linearD:
  assumes "linear js s0 ts ow sh rs s"
  shows "length ts = length js" and "seq_run whole js (map fst rs) s0 = (rs, s)"
    and "distinct (map fst rs)" and "fst ` set rs \<subseteq> {..<length ts}"
    and "i < length ts \<Longrightarrow> ts ! i = Finished r \<longleftrightarrow> (i, r) \<in> set rs"
    and "i < length ts \<Longrightarrow> ts ! i = Waiting j \<Longrightarrow> j = js ! i"
    and "i < length ts \<Longrightarrow> ts ! i = Running pc \<Longrightarrow> ow = Some i"
    and "ow = Some i \<Longrightarrow> i < length ts"
    and "ow = Some i \<Longrightarrow> ts ! i = Running pc \<Longrightarrow> rest pc sh = whole (js ! i) s"
    and "ow = None \<Longrightarrow> sh = s"
  using assms unfolding linear_def by blast+

text \<open>Taking the lock, a step under it, and finishing.\<close>

lemma linear_hold:
  assumes l: "linear js s0 ts ow sh rs s" and i: "i < length ts" "\<forall>r. ts ! i \<noteq> Finished r"
    and ow: "ow = None \<or> ow = Some i" and rest: "rest pc sh' = whole (js ! i) s"
  shows "linear js s0 (ts[i := Running pc]) (Some i) sh' rs s"
proof -
  note d = linearD [OF l]
  have other: "k \<noteq> i" if "k < length ts" "ts ! k = Running pc'" "k \<noteq> i" for k pc'
    using that by simp
  have run: "k = i" if "k < length ts" "ts ! k = Running pc'" for k pc'
    using d(7) [OF that] ow by auto
  have fin: "(ts[i := Running pc]) ! k = Finished r \<longleftrightarrow> (k, r) \<in> set rs" if "k < length ts" for k r
    using d(5) [OF that, of r] i by (cases "k = i") auto
  show ?thesis
    unfolding linear_def
  proof (intro conjI allI impI)
    show "k < length (ts[i := Running pc]) \<Longrightarrow> (ts[i := Running pc]) ! k = Waiting j \<Longrightarrow> j = js ! k" for k j
      using d(6) by (cases "k = i") auto
    show "k < length (ts[i := Running pc]) \<Longrightarrow> (ts[i := Running pc]) ! k = Running q \<Longrightarrow> Some i = Some k" for k q
      using run by (cases "k = i") auto
  qed (use d(1-4) fin i rest in auto)
qed

lemma linear_finish:
  assumes l: "linear js s0 ts ow sh rs s" and i: "i < length ts" "\<forall>r. ts ! i \<noteq> Finished r"
    and ow: "ow = None \<or> ow = Some i" and w: "whole (js ! i) s = (r, s')"
  shows "linear js s0 (ts[i := Finished r]) None s' (rs @ [(i, r)]) s'"
proof -
  note d = linearD [OF l]
  have "(i, x) \<notin> set rs" for x using d(5) [OF i(1)] i(2) by blast
  then have new: "i \<notin> fst ` set rs" by auto
  have run: "k = i" if "k < length ts" "ts ! k = Running pc" for k pc
    using d(7) [OF that] ow by auto
  have fin: "(ts[i := Finished r]) ! k = Finished x \<longleftrightarrow> (k, x) \<in> set (rs @ [(i, r)])" if "k < length ts" for k x
    using d(5) [OF that, of x] i new by (cases "k = i") (auto simp: image_iff)
  show ?thesis
    unfolding linear_def
  proof (intro conjI allI impI)
    show "seq_run whole js (map fst (rs @ [(i, r)])) s0 = (rs @ [(i, r)], s')"
      using seq_run_snoc [OF d(2) w] by simp
    show "k < length (ts[i := Finished r]) \<Longrightarrow> (ts[i := Finished r]) ! k = Waiting j \<Longrightarrow> j = js ! k" for k j
      using d(6) by (cases "k = i") auto
    show "k < length (ts[i := Finished r]) \<Longrightarrow> (ts[i := Finished r]) ! k = Running q \<Longrightarrow> None = Some k" for k q
      using run by (cases "k = i") auto
  qed (use d(1,3,4) fin i new in auto)
qed

lemma linear_step:
  assumes "conc_step begin_op step_op (ts, ow, sh) (ts', ow', sh')" and l: "linear js s0 ts ow sh rs s"
  shows "\<exists>rs' s'. linear js s0 ts' ow' sh' rs' s'"
  using assms(1)
proof (cases rule: conc_stepE [consumes 1, case_names acquire refused progress release])
  case (acquire i j pc)
  then have "js ! i = j" "sh = s" using linearD(6,10) [OF l] by auto
  with acquire begin_law have "rest pc sh' = whole (js ! i) s" by auto
  from linear_hold [OF l _ _ _ this] acquire show ?thesis by auto
next
  case (refused i j r)
  then have "js ! i = j" "sh = s" using linearD(6,10) [OF l] by auto
  with refused refuse_law have "whole (js ! i) s = (r, s)" by auto
  from linear_finish [OF l _ _ _ this] refused \<open>sh = s\<close> show ?thesis by auto
next
  case (progress i pc pc')
  with step_law linearD(9) [OF l, of i pc] have "rest pc' sh' = whole (js ! i) s" by auto
  from linear_hold [OF l _ _ _ this] progress show ?thesis by auto
next
  case (release i pc r)
  with done_law linearD(9) [OF l, of i pc] have "whole (js ! i) s = (r, sh')" by auto
  from linear_finish [OF l _ _ _ this] release show ?thesis by auto
qed

lemma linear_reach:
  assumes "(conc_step begin_op step_op)\<^sup>*\<^sup>* (map Waiting js, None, s0) (ts, ow, sh)"
  shows "\<exists>rs s. linear js s0 ts ow sh rs s"
  using assms
proof (induction rule: rtranclp_induct3)
  case refl
  then show ?case using linear_start by blast
next
  case step
  then show ?case using linear_step by blast
qed

text \<open>
  Linearizability: at every moment the finished operations have the replies of a sequential run, and
  when the lock is free the shared value is its result.
\<close>

lemma linearizable:
  assumes "(conc_step begin_op step_op)\<^sup>*\<^sup>* (map Waiting js, None, s0) (ts, ow, s)"
  shows "\<exists>order rs s1. distinct order \<and> set order = {i. i < length js \<and> (\<exists>r. ts ! i = Finished r)} \<and>
    seq_run whole js order s0 = (rs, s1) \<and> (ow = None \<longrightarrow> s = s1) \<and>
    (\<forall>i < length js. \<forall>r. ts ! i = Finished r \<longleftrightarrow> (i, r) \<in> set rs)"
proof -
  obtain rs s1 where l: "linear js s0 ts ow s rs s1" using linear_reach [OF assms] by blast
  note d = linearD [OF l]
  have "set (map fst rs) = {i. i < length js \<and> (\<exists>r. ts ! i = Finished r)}"
  proof (intro equalityI subsetI)
    fix i assume "i \<in> set (map fst rs)"
    then obtain r where "(i, r) \<in> set rs" by auto
    moreover from this d(4) have "i < length ts" by force
    ultimately show "i \<in> {i. i < length js \<and> (\<exists>r. ts ! i = Finished r)}" using d(1,5) by auto
  next
    fix i assume "i \<in> {i. i < length js \<and> (\<exists>r. ts ! i = Finished r)}"
    then show "i \<in> set (map fst rs)" using d(1,5) by force
  qed
  then show ?thesis
    using d(1,2,3,5,10) by (intro exI [of _ "map fst rs"] exI [of _ rs] exI [of _ s1]) simp
qed

lemma holder_runs:
  assumes "(conc_step begin_op step_op)\<^sup>*\<^sup>* (map Waiting js, None, s0) (ts, ow, s)"
  shows "length ts = length js"
    and "i < length ts \<Longrightarrow> ts ! i = Running pc \<Longrightarrow> ow = Some i"
    and "ow = Some i \<Longrightarrow> i < length ts \<and> (\<exists>pc. ts ! i = Running pc)"
proof -
  obtain rs s1 where l: "linear js s0 ts ow s rs s1" using linear_reach [OF assms] by blast
  show "length ts = length js" "i < length ts \<Longrightarrow> ts ! i = Running pc \<Longrightarrow> ow = Some i"
    by (rule linearD(1,7) [OF l])+
  show "ow = Some i \<Longrightarrow> i < length ts \<and> (\<exists>pc. ts ! i = Running pc)" using l unfolding linear_def by blast
qed

end

text \<open>
  Operations with a meter: \<open>pc_steps\<close> bounds the steps an operation can still take, \<open>job_steps\<close>
  those of one that waits, apart from steps that are repeated at the expense of \<open>gas\<close>, a number
  the value itself carries.
\<close>

locale metered_operations = locked_operations begin_op step_op whole rest
  for begin_op :: "'s \<Rightarrow> 'j \<Rightarrow> 'pc + 'r" and step_op :: "'pc \<Rightarrow> 's \<Rightarrow> ('pc + 'r) \<times> 's"
    and whole :: "'j \<Rightarrow> 's \<Rightarrow> 'r \<times> 's" and rest :: "'pc \<Rightarrow> 's \<Rightarrow> 'r \<times> 's" +
  fixes job_steps :: "'j \<Rightarrow> nat" and pc_steps :: "'pc \<Rightarrow> nat" and gas :: "'s \<Rightarrow> nat"
  assumes start_meter: "begin_op s j = Inl pc \<Longrightarrow> pc_steps pc < job_steps j"
    and refuse_meter: "0 < job_steps j"
    and step_meter: "step_op pc s = (Inl pc', s') \<Longrightarrow> pc_steps pc' + gas s' < pc_steps pc + gas s"
    and done_meter: "step_op pc s = (Inr r, s') \<Longrightarrow> gas s' < pc_steps pc + gas s"
begin

primrec thread_steps :: "('j, 'pc, 'r) thread \<Rightarrow> nat" where
  "thread_steps (Waiting j) = job_steps j"
| "thread_steps (Running pc) = pc_steps pc"
| "thread_steps (Finished r) = 0"

abbreviation steps_left :: "('j, 'pc, 'r) thread list \<Rightarrow> nat" where
  "steps_left ts \<equiv> (\<Sum>t \<leftarrow> ts. thread_steps t)"

lemma steps_left_update:
  assumes "i < length ts" and "thread_steps x + k' < thread_steps (ts ! i) + k"
  shows "steps_left (ts[i := x]) + k' < steps_left ts + k"
  using assms
proof (induction ts arbitrary: i)
  case (Cons t ts)
  then show ?case by (cases i) auto
qed simp

lemma step_uses:
  assumes "conc_step begin_op step_op (ts, ow, s) (ts', ow', s')"
  shows "steps_left ts' + gas s' < steps_left ts + gas s"
  using assms
proof (cases rule: conc_stepE [consumes 1, case_names acquire refused progress release])
  case (acquire i j pc)
  then show ?thesis using steps_left_update [of i ts "Running pc" "gas s" "gas s"] start_meter by simp
next
  case (refused i j r)
  then show ?thesis using steps_left_update [of i ts "Finished r" "gas s" "gas s"] refuse_meter by simp
next
  case (progress i pc pc')
  then show ?thesis using steps_left_update [of i ts "Running pc'" "gas s'" "gas s"] step_meter by simp
next
  case (release i pc r)
  then show ?thesis using steps_left_update [of i ts "Finished r" "gas s'" "gas s"] done_meter by simp
qed

text \<open>A run takes no more steps than its operations have, and the gas it used up.\<close>

lemma run_uses:
  assumes "(conc_step begin_op step_op ^^ n) (ts, ow, s) (ts', ow', s')"
  shows "n + steps_left ts' + gas s' \<le> steps_left ts + gas s"
  using assms
proof (induction n arbitrary: ts' ow' s')
  case (Suc n)
  from Suc.prems obtain ts1 ow1 s1 where
    run: "(conc_step begin_op step_op ^^ n) (ts, ow, s) (ts1, ow1, s1)"
    and step: "conc_step begin_op step_op (ts1, ow1, s1) (ts', ow', s')"
    by (metis prod_cases3 relpowp_Suc_E)
  from Suc.IH [OF run] step_uses [OF step] show ?case by simp
qed simp

lemma never_stuck:
  assumes reach: "(conc_step begin_op step_op)\<^sup>*\<^sup>* (map Waiting js, None, s0) (ts, ow, s)"
    and stuck: "\<And>c. \<not> conc_step begin_op step_op (ts, ow, s) c"
  shows "ow = None \<and> (\<forall>i < length js. \<exists>r. ts ! i = Finished r)"
proof -
  note h = holder_runs [OF reach]
  have ow: "ow = None"
  proof (rule ccontr)
    assume "ow \<noteq> None"
    then obtain i where i: "ow = Some i" by blast
    with h(3) obtain pc where pc: "i < length ts" "ts ! i = Running pc" by blast
    obtain q s' where "step_op pc s = (q, s')" by (cases "step_op pc s")
    with i pc stuck conc_step.progress [of i ts pc step_op s] conc_step.release [of i ts pc step_op s]
    show False by (cases q) blast+
  qed
  have "\<exists>r. ts ! i = Finished r" if "i < length js" for i
  proof (cases "ts ! i")
    case (Waiting j)
    have i: "i < length ts" using that h(1) by simp
    show ?thesis
    proof (cases "begin_op s j")
      case (Inl pc)
      from conc_step.acquire [where begin_op = begin_op, OF i Waiting Inl] stuck ow show ?thesis by blast
    next
      case (Inr r)
      from conc_step.refused [where begin_op = begin_op, OF i Waiting Inr] stuck ow show ?thesis by blast
    qed
  next
    case (Running pc)
    with that h(1,2) ow show ?thesis by auto
  qed simp
  with ow show ?thesis by blast
qed

lemma finished_stuck:
  assumes reach: "(conc_step begin_op step_op)\<^sup>*\<^sup>* (map Waiting js, None, s0) (ts, ow, s)"
    and "\<forall>i < length js. \<exists>r. ts ! i = Finished r"
  shows "\<not> conc_step begin_op step_op (ts, ow, s) c"
  using assms(2) holder_runs(1) [OF reach] by (auto elim!: conc_step.cases)

text \<open>Conversely every sequential order is one of the interleavings.\<close>

lemma holder_finishes:
  assumes "rest pc s = (r, s')" and "i < length ts" and "ts ! i = Running pc"
  shows "(conc_step begin_op step_op)\<^sup>*\<^sup>* (ts, Some i, s) (ts[i := Finished r], None, s')"
  using assms
proof (induction "pc_steps pc + gas s" arbitrary: pc s ts rule: less_induct)
  case less
  obtain q s1 where q: "step_op pc s = (q, s1)" by (cases "step_op pc s")
  show ?case
  proof (cases q)
    case (Inl pc1)
    with q have step: "step_op pc s = (Inl pc1, s1)" by simp
    from less.hyps [OF step_meter [OF step], of "ts[i := Running pc1]"] less.prems step_law [OF step]
    have "(conc_step begin_op step_op)\<^sup>*\<^sup>* (ts[i := Running pc1], Some i, s1) (ts[i := Finished r], None, s')"
      by simp
    with conc_step.progress [of i ts pc step_op s pc1 s1 begin_op] less.prems(2,3) step show ?thesis
      by (meson converse_rtranclp_into_rtranclp)
  next
    case (Inr r1)
    with q done_law [of pc s r1 s1] less.prems(1) have "step_op pc s = (Inr r, s')" by simp
    with conc_step.release [of i ts pc step_op s r s' begin_op] less.prems(2,3) show ?thesis by blast
  qed
qed

lemma runs_alone:
  assumes "whole j s = (r, s')" and i: "i < length ts" "ts ! i = Waiting j"
  shows "(conc_step begin_op step_op)\<^sup>*\<^sup>* (ts, None, s) (ts[i := Finished r], None, s')"
proof (cases "begin_op s j")
  case (Inl pc)
  with begin_law assms(1) have "rest pc s = (r, s')" by simp
  from holder_finishes [OF this, of i "ts[i := Running pc]"] i
  have "(conc_step begin_op step_op)\<^sup>*\<^sup>* (ts[i := Running pc], Some i, s) (ts[i := Finished r], None, s')"
    by simp
  with conc_step.acquire [of i ts j begin_op s pc step_op] i Inl show ?thesis
    by (meson converse_rtranclp_into_rtranclp)
next
  case (Inr r1)
  with refuse_law [of s j r1] assms(1) have "begin_op s j = Inr r" "s' = s" by auto
  with conc_step.refused [of i ts j begin_op s r step_op] i show ?thesis by blast
qed

end

end
