(* ===== verification/DeviceThreads.thy ===== *)
theory DeviceThreads
  imports Mutex FileDev
begin

text \<open>
  The file-backed device used by several threads at once (\<open>blockdev/file.rs\<close>): \<open>read_blocks\<close>
  takes the device by shared reference and is safe to call from many threads, all of which move the
  one cursor of the host file; writes and flushes join them through the wrapper, which is declared
  \<open>Sync\<close> and hands out the device from a raw pointer. The methods are split into the steps between
  which another thread can run: taking the lock, the seek, every single system call of
  \<open>read_exact\<close> and \<open>write_all\<close>. Interpretation of the interface of operations under a lock: the
  mutex makes the methods atomic, readers get exact data, and the number of steps is bounded by
  the operations, their bytes and the calls the host interrupts.
\<close>

section \<open>The methods in steps\<close>

datatype fd_job = JRead u64 bytes | JWrite u64 bytes | JFlush

datatype fd_reply = RRead "((error + u32) \<times> bytes) rust" | RWrite "(error + u32) rust"
  | RFlush "error + unit"

text \<open>What a thread with the guard does next; \<open>InRead\<close> has the bytes read so far.\<close>

datatype fd_pc = SeekToRead u64 u32 bytes | InRead u32 bytes bytes | SeekToWrite u64 u32 bytes
  | InWrite u32 bytes | InFlush

text \<open>
  Up to the guard: the two computations, which read the block size only and may panic, and the
  poison flag.
\<close>

definition fd_prologue :: "profile \<Rightarrow> FileBlockDevice \<Rightarrow> u64 \<Rightarrow> bytes \<Rightarrow> (u64 \<times> u32) rust" where
  "fd_prologue p self block_id buf =
     bind_rust (mul_u64 p block_id (u64_of_u32 (fd_block_size self))) (\<lambda>offset.
     bind_rust (div_u32 (u32_of_u64 (slice_len buf)) (fd_block_size self)) (\<lambda>block_count.
     Done (offset, block_count)))"

fun fd_begin :: "profile \<Rightarrow> FileBlockDevice \<Rightarrow> fd_job \<Rightarrow> fd_pc + fd_reply" where
  "fd_begin p self (JRead b buf) = (case fd_prologue p self b buf of
       Panic \<Rightarrow> Inr (RRead Panic)
     | Done (offset, n) \<Rightarrow>
         if fd_poisoned self then Inr (RRead (Done (Inl lock_poisoned, buf)))
         else Inl (SeekToRead offset n buf))"
| "fd_begin p self (JWrite b buf) = (case fd_prologue p self b buf of
       Panic \<Rightarrow> Inr (RWrite Panic)
     | Done (offset, n) \<Rightarrow>
         if fd_poisoned self then Inr (RWrite (Done (Inl lock_poisoned)))
         else Inl (SeekToWrite offset n buf))"
| "fd_begin p self JFlush =
     (if fd_poisoned self then Inr (RFlush (Inl lock_poisoned)) else Inl InFlush)"

fun fd_step :: "fd_pc \<Rightarrow> FileBlockDevice \<Rightarrow> (fd_pc + fd_reply) \<times> FileBlockDevice" where
  "fd_step (SeekToRead offset n buf) self = (case file_seek_start (fd_file self) offset of
       (Inl io, f) \<Rightarrow> (Inr (RRead (Done (Inl (Io io), buf))), self\<lparr>fd_file := f\<rparr>)
     | (Inr _, f) \<Rightarrow> (Inl (InRead n buf []), self\<lparr>fd_file := f\<rparr>))"
| "fd_step (InRead n buf acc) self =
     (if length buf - length acc = 0
      then (Inr (RRead (Done (Inr n, acc @ drop (length acc) buf))), self)
      else (case sys_read (fd_file self) (length buf - length acc) of
          (Inl e, f) \<Rightarrow>
            (if e = EINTR then Inl (InRead n buf acc)
             else Inr (RRead (Done (Inl (Io (Os e)), acc @ drop (length acc) buf))), self\<lparr>fd_file := f\<rparr>)
        | (Inr xs, f) \<Rightarrow>
            (if xs = []
             then Inr (RRead (Done (Inl (Io (Simple UnexpectedEof ''failed to fill whole buffer'')),
               acc @ drop (length acc) buf)))
             else Inl (InRead n buf (acc @ xs)), self\<lparr>fd_file := f\<rparr>)))"
| "fd_step (SeekToWrite offset n buf) self = (case file_seek_start (fd_file self) offset of
       (Inl io, f) \<Rightarrow> (Inr (RWrite (Done (Inl (Io io)))), self\<lparr>fd_file := f\<rparr>)
     | (Inr _, f) \<Rightarrow> (Inl (InWrite n buf), self\<lparr>fd_file := f\<rparr>))"
| "fd_step (InWrite n buf) self =
     (if buf = [] then (Inr (RWrite (Done (Inr n))), self)
      else (case sys_write (fd_file self) buf of
          (Inl e, f) \<Rightarrow>
            (if e = EINTR then Inl (InWrite n buf) else Inr (RWrite (Done (Inl (Io (Os e))))),
             self\<lparr>fd_file := f\<rparr>)
        | (Inr k, f) \<Rightarrow>
            (if k = 0 then Inr (RWrite (Done (Inl (Io (Simple WriteZero ''failed to write whole buffer'')))))
             else Inl (InWrite n (drop k buf)), self\<lparr>fd_file := f\<rparr>)))"
| "fd_step InFlush self = (case file_sync_all (fd_file self) of
       (Some io, f) \<Rightarrow> (Inr (RFlush (Inl (Io io))), self\<lparr>fd_file := f\<rparr>)
     | (None, f) \<Rightarrow> (Inr (RFlush (Inr ())), self\<lparr>fd_file := f\<rparr>))"

section \<open>The methods in one piece\<close>

fun fd_whole :: "profile \<Rightarrow> fd_job \<Rightarrow> FileBlockDevice \<Rightarrow> fd_reply \<times> FileBlockDevice" where
  "fd_whole p (JRead b buf) d = (case fd_read_blocks p b buf d of
     Panic \<Rightarrow> (RRead Panic, d) | Done (r, d') \<Rightarrow> (RRead (Done r), d'))"
| "fd_whole p (JWrite b buf) d = (case fd_write_blocks p b buf d of
     Panic \<Rightarrow> (RWrite Panic, d) | Done (r, d') \<Rightarrow> (RWrite (Done r), d'))"
| "fd_whole p JFlush d = (case fd_flush d of
     Panic \<Rightarrow> (RFlush (Inr ()), d) | Done (r, d') \<Rightarrow> (RFlush r, d'))"

text \<open>What remains of a method, in one piece.\<close>

definition rest_read :: "u32 \<Rightarrow> bytes \<Rightarrow> bytes \<Rightarrow> FileBlockDevice \<Rightarrow> fd_reply \<times> FileBlockDevice" where
  "rest_read n buf acc self = (case read_exact_loop (fd_file self) (length buf - length acc) acc of
     ((r, acc), f) \<Rightarrow> (RRead (Done (case r of Some io \<Rightarrow> Inl (Io io) | None \<Rightarrow> Inr n,
         acc @ drop (length acc) buf)), self\<lparr>fd_file := f\<rparr>))"

definition rest_write :: "u32 \<Rightarrow> bytes \<Rightarrow> FileBlockDevice \<Rightarrow> fd_reply \<times> FileBlockDevice" where
  "rest_write n buf self = (case file_write_all (fd_file self) buf of
     (r, f) \<Rightarrow> (RWrite (Done (case r of Some io \<Rightarrow> Inl (Io io) | None \<Rightarrow> Inr n)), self\<lparr>fd_file := f\<rparr>))"

fun fd_rest :: "fd_pc \<Rightarrow> FileBlockDevice \<Rightarrow> fd_reply \<times> FileBlockDevice" where
  "fd_rest (SeekToRead offset n buf) self = (case file_seek_start (fd_file self) offset of
       (Inl io, f) \<Rightarrow> (RRead (Done (Inl (Io io), buf)), self\<lparr>fd_file := f\<rparr>)
     | (Inr _, f) \<Rightarrow> rest_read n buf [] (self\<lparr>fd_file := f\<rparr>))"
| "fd_rest (InRead n buf acc) self = rest_read n buf acc self"
| "fd_rest (SeekToWrite offset n buf) self = (case file_seek_start (fd_file self) offset of
       (Inl io, f) \<Rightarrow> (RWrite (Done (Inl (Io io))), self\<lparr>fd_file := f\<rparr>)
     | (Inr _, f) \<Rightarrow> rest_write n buf (self\<lparr>fd_file := f\<rparr>))"
| "fd_rest (InWrite n buf) self = rest_write n buf self"
| "fd_rest InFlush self = (case file_sync_all (fd_file self) of
       (r, f) \<Rightarrow> (RFlush (case r of Some io \<Rightarrow> Inl (Io io) | None \<Rightarrow> Inr ()), self\<lparr>fd_file := f\<rparr>))"

text \<open>
  The steps of a method: taking the lock, the seek, the end, and one for each byte of the buffer;
  to these come the calls the host interrupts, which \<open>read_exact\<close> and \<open>write_all\<close> repeat. \<open>sync_all\<close>
  is one step with the repetitions of its call.
\<close>

fun fd_job_steps :: "fd_job \<Rightarrow> nat" where
  "fd_job_steps (JRead b buf) = length buf + 3"
| "fd_job_steps (JWrite b buf) = length buf + 3"
| "fd_job_steps JFlush = 2"

fun fd_pc_steps :: "fd_pc \<Rightarrow> nat" where
  "fd_pc_steps (SeekToRead offset n buf) = length buf + 2"
| "fd_pc_steps (InRead n buf acc) = length buf - length acc + 1"
| "fd_pc_steps (SeekToWrite offset n buf) = length buf + 2"
| "fd_pc_steps (InWrite n buf) = length buf + 1"
| "fd_pc_steps InFlush = 1"

abbreviation interrupts :: "FileBlockDevice \<Rightarrow> nat" where
  "interrupts d \<equiv> count_list (h_sched (fd_file d)) (EvErr EINTR)"

section \<open>The steps add up to the method\<close>

lemma next_event_interrupts:
  "next_event es = (e, es') \<Longrightarrow>
     count_list es x = count_list es' x + (if es \<noteq> [] \<and> e = x then 1 else 0)"
  by (cases es) auto

lemma next_event_retry_interrupts:
  "next_event_retry es = (e, es') \<Longrightarrow> count_list es' x \<le> count_list es x"
  by (induction es rule: next_event_retry.induct) (auto split: if_splits)

text \<open>A system call uses up an interruption if it fails with \<open>EINTR\<close>, and none comes back.\<close>

lemma sys_read_interrupts:
  "sys_read f n = (r, f') \<Longrightarrow>
     count_list (h_sched f') (EvErr EINTR) + (if r = Inl EINTR then 1 else 0)
       \<le> count_list (h_sched f) (EvErr EINTR)"
  using next_event_interrupts [of "h_sched f" _ _ "EvErr EINTR"]
  by (cases "h_sched f")
    (auto simp: sys_read_def Let_def EBADF_def EINTR_def split: prod.splits io_event.splits if_splits)

lemma sys_write_interrupts:
  "sys_write f buf = (r, f') \<Longrightarrow>
     count_list (h_sched f') (EvErr EINTR) + (if r = Inl EINTR then 1 else 0)
       \<le> count_list (h_sched f) (EvErr EINTR)"
  by (cases "h_sched f")
    (auto simp: sys_write_def Let_def EBADF_def EINTR_def split: prod.splits io_event.splits if_splits)

lemma file_seek_start_interrupts:
  "file_seek_start f n = (r, f') \<Longrightarrow>
     count_list (h_sched f') (EvErr EINTR) \<le> count_list (h_sched f) (EvErr EINTR)"
  by (cases "h_sched f")
    (auto simp: file_seek_start_def Let_def split: prod.splits io_event.splits if_splits)

lemma file_sync_all_interrupts:
  "file_sync_all f = (r, f') \<Longrightarrow>
     count_list (h_sched f') (EvErr EINTR) \<le> count_list (h_sched f) (EvErr EINTR)"
  using next_event_retry_interrupts [of "h_sched f" _ _ "EvErr EINTR"]
  by (fastforce simp: file_sync_all_def Let_def split: prod.splits io_event.splits if_splits)

lemma fd_begin_enters:
  assumes "fd_begin p d j = Inl pc"
  shows "fd_rest pc d = fd_whole p j d"
  using assms
  by (cases j) (auto simp: fd_prologue_def bind_rust_def fd_read_blocks_def fd_write_blocks_def
      fd_flush_def file_read_exact_def rest_read_def rest_write_def
      split: rust.splits prod.splits sum.splits option.splits if_splits)

lemma fd_begin_refuses:
  assumes "fd_begin p d j = Inr r"
  shows "fd_whole p j d = (r, d)"
  using assms
  by (cases j) (auto simp: fd_prologue_def bind_rust_def fd_read_blocks_def fd_write_blocks_def
      fd_flush_def split: rust.splits prod.splits if_splits)

lemma rest_read_step:
  "rest_read n buf acc d = (case fd_step (InRead n buf acc) d of
     (Inl pc, d') \<Rightarrow> fd_rest pc d' | (Inr r, d') \<Rightarrow> (r, d'))"
  by (auto simp: rest_read_def read_exact_loop.simps [of "fd_file d"] split: prod.splits sum.splits)

lemma rest_write_step:
  "rest_write n buf d = (case fd_step (InWrite n buf) d of
     (Inl pc, d') \<Rightarrow> fd_rest pc d' | (Inr r, d') \<Rightarrow> (r, d'))"
  by (auto simp: rest_write_def file_write_all.simps [of "fd_file d"] split: prod.splits sum.splits)

lemma fd_rest_step:
  "fd_rest pc d = (case fd_step pc d of (Inl pc', d') \<Rightarrow> fd_rest pc' d' | (Inr r, d') \<Rightarrow> (r, d'))"
proof (cases pc)
  case (InRead n buf acc)
  then show ?thesis using rest_read_step by simp
next
  case (InWrite n buf)
  then show ?thesis using rest_write_step by simp
qed (auto split: prod.splits sum.splits option.splits)

lemma fd_step_meter:
  assumes "fd_step pc d = (q, d')"
  shows "(case q of Inl pc' \<Rightarrow> fd_pc_steps pc' | Inr r \<Rightarrow> 0) + interrupts d' < fd_pc_steps pc + interrupts d"
proof (cases pc)
  case (SeekToRead offset n buf)
  with assms show ?thesis using file_seek_start_interrupts [of "fd_file d" offset]
    by (fastforce split: prod.splits sum.splits)
next
  case (InRead n buf acc)
  obtain r f where r: "sys_read (fd_file d) (length buf - length acc) = (r, f)" by fastforce
  from assms InRead r show ?thesis using sys_read_interrupts [OF r]
    by (auto simp: neq_Nil_conv split: sum.splits if_splits)
next
  case (SeekToWrite offset n buf)
  with assms show ?thesis using file_seek_start_interrupts [of "fd_file d" offset]
    by (fastforce split: prod.splits sum.splits)
next
  case (InWrite n buf)
  obtain r f where r: "sys_write (fd_file d) buf = (r, f)" by fastforce
  from assms InWrite r show ?thesis using sys_write_interrupts [OF r]
    by (cases buf) (auto split: sum.splits if_splits)
next
  case InFlush
  with assms show ?thesis using file_sync_all_interrupts [of "fd_file d"]
    by (fastforce split: prod.splits option.splits)
qed

lemma fd_begin_meter: "fd_begin p d j = Inl pc \<Longrightarrow> fd_pc_steps pc < fd_job_steps j"
  by (cases j) (auto split: rust.splits prod.splits if_splits)

interpretation fdl: locked_operations "fd_begin p" fd_step "fd_whole p" fd_rest
proof (unfold_locales, goal_cases)
  case (1 d j pc)
  then show ?case by (rule fd_begin_enters)
next
  case (2 d j r)
  then show ?case by (rule fd_begin_refuses)
next
  case (3 pc d pc' d')
  then show ?case using fd_rest_step [of pc d] by simp
next
  case (4 pc d r d')
  then show ?case using fd_rest_step [of pc d] by simp
qed

interpretation fdt: metered_operations "fd_begin p" fd_step "fd_whole p" fd_rest fd_job_steps
  fd_pc_steps interrupts
proof (unfold_locales, goal_cases)
  case (1 d j pc)
  then show ?case by (rule fd_begin_meter)
next
  case (2 j)
  then show ?case by (cases j) simp_all
next
  case (3 pc d pc' d')
  then show ?case using fd_step_meter [of pc d] by simp
next
  case (4 pc d r d')
  then show ?case using fd_step_meter [of pc d] by simp
qed

section \<open>Readers\<close>

text \<open>
  What safe code can do with a shared device: reads only. In a sequential run each reply is an
  error or the bytes of the image.
\<close>

fun read_in_range :: "nat \<Rightarrow> nat \<Rightarrow> fd_job \<Rightarrow> bool" where
  "read_in_range bs len (JRead b buf) \<longleftrightarrow> unat b * bs + length buf \<le> len"
| "read_in_range bs len _ \<longleftrightarrow> False"

fun reply_exact :: "nat \<Rightarrow> bytes \<Rightarrow> fd_job \<Rightarrow> fd_reply \<Rightarrow> bool" where
  "reply_exact bs img (JRead b buf) (RRead (Done (Inr n, out))) \<longleftrightarrow>
     out = slice (unat b * bs) (length buf) img"
| "reply_exact bs img (JRead b buf) (RRead (Done (Inl e, out))) \<longleftrightarrow> length out = length buf"
| "reply_exact bs img _ _ \<longleftrightarrow> False"

lemma fd_whole_read:
  assumes "fd_wf d" and "read_in_range (unat (fd_block_size d)) (length (fd_data d)) j"
  shows "\<exists>r d'. fd_whole p j d = (r, d') \<and> reply_exact (unat (fd_block_size d)) (fd_data d) j r \<and>
    fd_wf d' \<and> fd_data d' = fd_data d \<and> fd_block_size d' = fd_block_size d"
proof (cases j)
  case (JRead b buf)
  with assms(2) obtain r out f where
    "fd_read_blocks p b buf d = Done ((r, out), d\<lparr>fd_file := f\<rparr>)"
    "h_data f = fd_data d" "sched_ok (h_sched f)" "length out = length buf"
    "case r of Inr n \<Rightarrow> out = slice (unat b * unat (fd_block_size d)) (length buf) (fd_data d)
     | Inl e \<Rightarrow> callback_code e \<noteq> 0"
    using fd_read_law [OF assms(1), of b buf p] by auto
  with JRead assms(1) show ?thesis by (cases r) (auto simp: fd_wf_def)
qed (use assms(2) in auto)

lemma seq_run_reads:
  assumes "fd_wf d" and "\<forall>i \<in> set order. read_in_range (unat (fd_block_size d)) (length (fd_data d)) (js ! i)"
    and "seq_run (fd_whole p) js order d = (rs, d')"
  shows "fd_wf d' \<and> fd_data d' = fd_data d \<and>
    (\<forall>(i, r) \<in> set rs. reply_exact (unat (fd_block_size d)) (fd_data d) (js ! i) r)"
  using assms
proof (induction order arbitrary: d rs)
  case Nil
  then show ?case by simp
next
  case (Cons i order)
  from Cons.prems(2) obtain r d1 where w: "fd_whole p (js ! i) d = (r, d1)"
    "reply_exact (unat (fd_block_size d)) (fd_data d) (js ! i) r"
    "fd_wf d1" "fd_data d1 = fd_data d" "fd_block_size d1 = fd_block_size d"
    using fd_whole_read [OF Cons.prems(1), of "js ! i" p] by auto
  obtain rs' where "seq_run (fd_whole p) js order d1 = (rs', d')" "rs = (i, r) # rs'"
    using Cons.prems(3) w(1) by (auto split: prod.splits)
  then show ?case using Cons.IH [OF w(3), of rs'] Cons.prems(2) w by auto
qed

text \<open>No step of a reading thread touches the image, whoever holds the lock.\<close>

fun reads_only :: "(fd_job, fd_pc, fd_reply) thread \<Rightarrow> bool" where
  "reads_only (Waiting j) \<longleftrightarrow> (\<exists>b buf. j = JRead b buf)"
| "reads_only (Running pc) \<longleftrightarrow> (\<exists>offset n buf acc. pc = SeekToRead offset n buf \<or> pc = InRead n buf acc)"
| "reads_only (Finished r) \<longleftrightarrow> True"

lemma reader_begins: "fd_begin p d (JRead b buf) = Inl pc \<Longrightarrow> reads_only (Running pc)"
  by (auto split: rust.splits prod.splits if_splits)

lemma reader_steps:
  assumes "fd_step pc d = (q, d')" and "reads_only (Running pc)"
  shows "fd_data d' = fd_data d \<and> (\<forall>pc'. q = Inl pc' \<longrightarrow> reads_only (Running pc'))"
  using assms
  by (auto simp: file_seek_start_def sys_read_def Let_def
      split: prod.splits sum.splits io_event.splits if_splits)

lemma conc_reads:
  assumes "conc_step (fd_begin p) fd_step (ts, ow, d) (ts', ow', d')" and "\<forall>t \<in> set ts. reads_only t"
  shows "(\<forall>t \<in> set ts'. reads_only t) \<and> fd_data d' = fd_data d"
  using assms(1)
proof (cases rule: conc_stepE [consumes 1, case_names acquire refused progress release])
  case (acquire i j pc)
  moreover from this assms(2) obtain b buf where "j = JRead b buf" by (metis nth_mem reads_only.simps(1))
  ultimately have "reads_only (Running pc)" using reader_begins by blast
  with acquire assms(2) show ?thesis by (metis set_update_subset_insert insert_iff subsetD)
next
  case (refused i j r)
  with assms(2) show ?thesis by (metis set_update_subset_insert insert_iff subsetD reads_only.simps(3))
next
  case (progress i pc pc')
  then have "reads_only (Running pc)" using assms(2) by (metis nth_mem)
  with progress reader_steps [of pc d "Inl pc'" d'] have "reads_only (Running pc')" "fd_data d' = fd_data d"
    by auto
  with progress assms(2) show ?thesis by (metis set_update_subset_insert insert_iff subsetD)
next
  case (release i pc r)
  then have "reads_only (Running pc)" using assms(2) by (metis nth_mem)
  with release reader_steps [of pc d "Inr r" d'] have "fd_data d' = fd_data d" by auto
  with release assms(2) show ?thesis
    by (metis set_update_subset_insert insert_iff subsetD reads_only.simps(3))
qed

lemma readers_keep_image:
  assumes "(conc_step (fd_begin p) fd_step)\<^sup>*\<^sup>* (map Waiting js, None, d0) (ts, ow, d)"
    and "\<forall>j \<in> set js. read_in_range bs len j"
  shows "fd_data d = fd_data d0"
proof -
  from assms(1) have "(\<forall>t \<in> set ts. reads_only t) \<and> fd_data d = fd_data d0"
  proof (induction rule: rtranclp_induct3)
    case refl
    have "reads_only (Waiting j)" if "j \<in> set js" for j using assms(2) that by (cases j) auto
    then show ?case by auto
  next
    case step
    then show ?case using conc_reads by metis
  qed
  then show ?thesis ..
qed

section \<open>Properties\<close>

text \<open>
  C12: threads that use one file-backed device at the same time, each between taking the lock and
  its system calls interrupted by the others, on a host that fails as it likes: at every moment the
  finished operations have the replies of the same operations done one after the other in some
  order, and whenever the lock is free the device is in the state that order leaves.
\<close>

theorem fd_linearizable:
  assumes "(conc_step (fd_begin p) fd_step)\<^sup>*\<^sup>* (map Waiting js, None, d0) (ts, ow, d)"
  shows "\<exists>order rs d1. distinct order \<and> set order = {i. i < length js \<and> (\<exists>r. ts ! i = Finished r)} \<and>
    seq_run (fd_whole p) js order d0 = (rs, d1) \<and> (ow = None \<longrightarrow> d = d1) \<and>
    (\<forall>i < length js. \<forall>r. ts ! i = Finished r \<longleftrightarrow> (i, r) \<in> set rs)"
  using assms by (rule fdl.linearizable)

abbreviation demo_fd :: "nat \<Rightarrow> io_event list \<Rightarrow> FileBlockDevice" where
  "demo_fd pos sched \<equiv> \<lparr>fd_file = \<lparr>h_data = [1, 2, 3, 4], h_pos = pos, h_read = True, h_write = True,
     h_sched = sched\<rparr>, fd_poisoned = False, fd_block_size = 2, fd_block_count = 2\<rparr>"

text \<open>Two readers at the two ends of an image; the host interrupts the first read it serves.\<close>

abbreviation demo_jobs :: "fd_job list" where
  "demo_jobs \<equiv> [JRead 1 [0, 0], JRead 0 [0, 0]]"

lemma demo_interleaving:
  "(conc_step (fd_begin Debug) fd_step)\<^sup>*\<^sup>*
     (map Waiting demo_jobs, None, demo_fd 0 [EvOk, EvErr EINTR])
     ([Finished (RRead (Done (Inr 1, [3, 4]))), Finished (RRead (Done (Inr 1, [1, 2])))], None, demo_fd 4 [])"
proof -
  note eval = fd_read_blocks_def mul_u64_def div_u32_def u64_of_u32_def u32_of_u64_def slice_len_def
    file_seek_start_def file_read_exact_def read_exact_loop.simps [where n = "Suc k" for k]
    sys_read_def slice_def
  have "fd_whole Debug (JRead 0 [0, 0]) (demo_fd 0 [EvOk, EvErr EINTR]) =
      (RRead (Done (Inr 1, [1, 2])), demo_fd 2 [])"
    by (simp add: eval)
  from fdt.runs_alone [where i = 1, where ts = "map Waiting demo_jobs", OF this]
  have 1: "(conc_step (fd_begin Debug) fd_step)\<^sup>*\<^sup>*
      (map Waiting demo_jobs, None, demo_fd 0 [EvOk, EvErr EINTR])
      ([Waiting (JRead 1 [0, 0]), Finished (RRead (Done (Inr 1, [1, 2])))], None, demo_fd 2 [])"
    by simp
  have "fd_whole Debug (JRead 1 [0, 0]) (demo_fd 2 []) = (RRead (Done (Inr 1, [3, 4])), demo_fd 4 [])"
    by (simp add: eval)
  from fdt.runs_alone [where i = 0, OF this,
      of "[Waiting (JRead 1 [0, 0]), Finished (RRead (Done (Inr 1, [1, 2])))]"]
  show ?thesis using 1 by (simp add: rtranclp_trans)
qed

theorem fd_linearizable_witness:
  "\<exists>order rs. distinct order \<and>
    seq_run (fd_whole Debug) demo_jobs order (demo_fd 0 [EvOk, EvErr EINTR]) = (rs, demo_fd 4 []) \<and>
    (0, RRead (Done (Inr 1, [3, 4]))) \<in> set rs"
proof -
  obtain order rs d1 where *: "distinct order"
    "seq_run (fd_whole Debug) demo_jobs order (demo_fd 0 [EvOk, EvErr EINTR]) = (rs, d1)"
    "demo_fd 4 [] = d1"
    "\<forall>i < 2. \<forall>r. [Finished (RRead (Done (Inr 1, [3, 4]))), Finished (RRead (Done (Inr 1, [1, 2])))] ! i
       = (Finished r :: (fd_job, fd_pc, fd_reply) thread) \<longleftrightarrow> (i, r) \<in> set rs"
    using fd_linearizable [OF demo_interleaving] by (force simp: numeral_2_eq_2)
  from *(4) [rule_format, of 0 "RRead (Done (Inr 1, [3, 4]))"] have "(0, RRead (Done (Inr 1, [3, 4]))) \<in> set rs"
    by simp
  with *(1-3) show ?thesis by blast
qed

text \<open>The same readers before the second one, which holds the lock, has read: it has moved the cursor.\<close>

lemma demo_midway:
  "(conc_step (fd_begin Debug) fd_step)\<^sup>*\<^sup>*
     (map Waiting demo_jobs, None, demo_fd 0 [EvOk, EvErr EINTR])
     ([Finished (RRead (Done (Inr 1, [3, 4]))), Running (InRead 1 [0, 0] [])], Some 1, demo_fd 0 [])"
proof -
  note eval = fd_read_blocks_def mul_u64_def div_u32_def u64_of_u32_def u32_of_u64_def slice_len_def
    file_seek_start_def file_read_exact_def read_exact_loop.simps [where n = "Suc k" for k]
    sys_read_def slice_def
  have "fd_whole Debug (JRead 1 [0, 0]) (demo_fd 0 [EvOk, EvErr EINTR]) =
      (RRead (Done (Inr 1, [3, 4])), demo_fd 4 [])"
    by (simp add: eval)
  from fdt.runs_alone [where i = 0, where ts = "map Waiting demo_jobs", OF this]
  have 1: "(conc_step (fd_begin Debug) fd_step)\<^sup>*\<^sup>*
      (map Waiting demo_jobs, None, demo_fd 0 [EvOk, EvErr EINTR])
      ([Finished (RRead (Done (Inr 1, [3, 4]))), Waiting (JRead 0 [0, 0])], None, demo_fd 4 [])"
    by simp
  have b: "fd_begin Debug (demo_fd 4 []) (JRead 0 [0, 0]) = Inl (SeekToRead 0 1 [0, 0])"
    by (simp add: eval fd_prologue_def)
  have s: "fd_step (SeekToRead 0 1 [0, 0]) (demo_fd 4 []) = (Inl (InRead 1 [0, 0] []), demo_fd 0 [])"
    by (simp add: eval)
  let ?f = "Finished (RRead (Done (Inr 1, [3, 4]))) :: (fd_job, fd_pc, fd_reply) thread"
  have 2: "conc_step (fd_begin Debug) fd_step ([?f, Waiting (JRead 0 [0, 0])], None, demo_fd 4 [])
      ([?f, Running (SeekToRead 0 1 [0, 0])], Some 1, demo_fd 4 [])"
    using conc_step.acquire [where i = 1 and begin_op = "fd_begin Debug", OF _ _ b,
      of "[?f, Waiting (JRead 0 [0, 0])]" fd_step] by simp
  have 3: "conc_step (fd_begin Debug) fd_step ([?f, Running (SeekToRead 0 1 [0, 0])], Some 1, demo_fd 4 [])
      ([?f, Running (InRead 1 [0, 0] [])], Some 1, demo_fd 0 [])"
    using conc_step.progress [where i = 1 and step_op = fd_step, OF _ _ s,
      of "[?f, Running (SeekToRead 0 1 [0, 0])]" "fd_begin Debug"] by simp
  from 1 2 3 show ?thesis by (meson rtranclp.rtrancl_into_rtrancl)
qed

text \<open>
  C11: readers that share a file-backed device get exact data: threads that read inside the image at
  the same time, all moving the one cursor of the file, whatever their interleaving and whatever
  calls the host fails, interrupts or cuts short: at every moment, also while one of them holds the
  lock, the image is unchanged and a finished read has an error or exactly the bytes of its own
  blocks, never those of another thread's position.
\<close>

theorem fd_readers_exact:
  assumes "fd_wf d0" and "\<forall>j \<in> set js. read_in_range (unat (fd_block_size d0)) (length (fd_data d0)) j"
    and "(conc_step (fd_begin p) fd_step)\<^sup>*\<^sup>* (map Waiting js, None, d0) (ts, ow, d)"
  shows "fd_data d = fd_data d0 \<and>
    (\<forall>i < length js. \<forall>r. ts ! i = Finished r \<longrightarrow>
       reply_exact (unat (fd_block_size d0)) (fd_data d0) (js ! i) r)"
proof -
  obtain order rs d1 where *: "set order = {i. i < length js \<and> (\<exists>r. ts ! i = Finished r)}"
    "seq_run (fd_whole p) js order d0 = (rs, d1)"
    "\<forall>i < length js. \<forall>r. ts ! i = Finished r \<longleftrightarrow> (i, r) \<in> set rs"
    using fdl.linearizable [OF assms(3)] by blast
  have "\<forall>i \<in> set order. read_in_range (unat (fd_block_size d0)) (length (fd_data d0)) (js ! i)"
    using *(1) assms(2) by simp
  from seq_run_reads [OF assms(1) this *(2)] *(3) readers_keep_image [OF assms(3,2)]
  show ?thesis by fast
qed

theorem fd_readers_exact_witness:
  "\<exists>ts d. (conc_step (fd_begin Debug) fd_step)\<^sup>*\<^sup>*
       (map Waiting demo_jobs, None, demo_fd 0 [EvOk, EvErr EINTR]) (ts, Some 1, d) \<and>
     fd_wf (demo_fd 0 [EvOk, EvErr EINTR]) \<and> read_in_range 2 4 (demo_jobs ! 0) \<and>
     read_in_range 2 4 (demo_jobs ! 1) \<and> fd_data d = [1, 2, 3, 4] \<and>
     ts ! 0 = Finished (RRead (Done (Inr 1, [3, 4]))) \<and>
     reply_exact 2 [1, 2, 3, 4] (demo_jobs ! 0) (RRead (Done (Inr 1, [3, 4])))"
proof -
  let ?d0 = "demo_fd 0 [EvOk, EvErr EINTR]"
  let ?ts = "[Finished (RRead (Done (Inr 1, [3, 4]))), Running (InRead 1 [0, 0] [])]
    :: (fd_job, fd_pc, fd_reply) thread list"
  have wf: "fd_wf ?d0" by (simp add: fd_wf_def isize_max_def sched_ok_def EINTR_def)
  have "\<forall>j \<in> set demo_jobs. read_in_range (unat (fd_block_size ?d0)) (length (fd_data ?d0)) j" by simp
  from fd_readers_exact [OF wf this demo_midway] have *: "fd_data (demo_fd 0 []) = [1, 2, 3, 4]"
    "\<forall>i < length demo_jobs. \<forall>r. ?ts ! i = Finished r \<longrightarrow> reply_exact 2 [1, 2, 3, 4] (demo_jobs ! i) r"
    by simp_all
  from *(2) [rule_format, of 0] have "reply_exact 2 [1, 2, 3, 4] (demo_jobs ! 0) (RRead (Done (Inr 1, [3, 4])))"
    by simp
  with demo_midway wf *(1) show ?thesis
    by (intro exI [of _ ?ts] exI [of _ "demo_fd 0 []"]) simp
qed

text \<open>
  C13: threads on a file-backed device finish in a bounded number of steps: at every moment of every
  interleaving, the steps taken so far are at most three for each operation, one for each byte of
  its buffer, and one for each call that the host has interrupted up to then; and as long as some
  operation is not finished, some thread can go on. So neither failing or short calls, nor the
  order of the threads, nor the lock keep the threads from finishing; the only delay is a call the
  host interrupts, at one step each, and the host interrupts as many as its schedule says.
\<close>

theorem fd_threads_finish:
  assumes "(conc_step (fd_begin p) fd_step ^^ n) (map Waiting js, None, d0) (ts, ow, d)"
  shows "n + interrupts d \<le> (\<Sum>j \<leftarrow> js. case j of JRead b buf \<Rightarrow> 3 + length buf
       | JWrite b buf \<Rightarrow> 3 + length buf | JFlush \<Rightarrow> 3) + interrupts d0 \<and>
    ((\<exists>c. conc_step (fd_begin p) fd_step (ts, ow, d) c) \<longleftrightarrow>
       (\<exists>i < length js. \<forall>r. ts ! i \<noteq> Finished r))"
proof
  have "(\<Sum>j \<leftarrow> js. fd_job_steps j) \<le>
      (\<Sum>j \<leftarrow> js. case j of JRead b buf \<Rightarrow> 3 + length buf | JWrite b buf \<Rightarrow> 3 + length buf | JFlush \<Rightarrow> 3)"
    by (intro sum_list_mono) (simp split: fd_job.split)
  moreover have "n + interrupts d \<le> (\<Sum>j \<leftarrow> js. fd_job_steps j) + interrupts d0"
    using fdt.run_uses [OF assms] by (simp add: comp_def)
  ultimately show "n + interrupts d \<le> (\<Sum>j \<leftarrow> js. case j of JRead b buf \<Rightarrow> 3 + length buf
       | JWrite b buf \<Rightarrow> 3 + length buf | JFlush \<Rightarrow> 3) + interrupts d0" by simp
  have "(conc_step (fd_begin p) fd_step)\<^sup>*\<^sup>* (map Waiting js, None, d0) (ts, ow, d)"
    using assms by (rule relpowp_imp_rtranclp)
  from fdt.never_stuck [OF this] fdt.finished_stuck [OF this]
  show "(\<exists>c. conc_step (fd_begin p) fd_step (ts, ow, d) c) \<longleftrightarrow> (\<exists>i < length js. \<forall>r. ts ! i \<noteq> Finished r)"
    by metis
qed

text \<open>Two operations of two bytes each, with one interruption: at most eleven steps, the last of which
  leaves nothing to do.\<close>

theorem fd_threads_finish_witness:
  "\<exists>n. (conc_step (fd_begin Debug) fd_step ^^ n) (map Waiting demo_jobs, None, demo_fd 0 [EvOk, EvErr EINTR])
       ([Finished (RRead (Done (Inr 1, [3, 4]))), Finished (RRead (Done (Inr 1, [1, 2])))], None, demo_fd 4 []) \<and>
     n \<le> 11 \<and>
     (\<nexists>c. conc_step (fd_begin Debug) fd_step
       ([Finished (RRead (Done (Inr 1, [3, 4]))), Finished (RRead (Done (Inr 1, [1, 2])))], None, demo_fd 4 []) c)"
proof -
  obtain n where run: "(conc_step (fd_begin Debug) fd_step ^^ n)
      (map Waiting demo_jobs, None, demo_fd 0 [EvOk, EvErr EINTR])
      ([Finished (RRead (Done (Inr 1, [3, 4]))), Finished (RRead (Done (Inr 1, [1, 2])))], None, demo_fd 4 [])"
    using rtranclp_imp_relpowp [OF demo_interleaving] by blast
  have "\<not> (\<exists>i < length demo_jobs. \<forall>r. [Finished (RRead (Done (Inr 1, [3, 4]))),
      Finished (RRead (Done (Inr 1, [1, 2])))] ! i \<noteq> (Finished r :: (fd_job, fd_pc, fd_reply) thread))"
    by (auto simp: less_Suc_eq)
  with fd_threads_finish [OF run] have "n \<le> 11" "\<nexists>c. conc_step (fd_begin Debug) fd_step
      ([Finished (RRead (Done (Inr 1, [3, 4]))), Finished (RRead (Done (Inr 1, [1, 2])))], None, demo_fd 4 []) c"
    by simp_all
  with run show ?thesis by blast
qed

end
