(* ===== verification/BuildScript.thy ===== *)
theory BuildScript
  imports Main
begin

text \<open>
  \<open>ext4-lwext4-sys/build.rs\<close>: which C files of lwext4 are compiled, with which definitions, as a
  function of the environment Cargo sets for the enabled features. The C compiler driver \<open>cc\<close> is
  outside the repository; \<open>cc_build\<close> is the configuration the script hands to it.
\<close>

section \<open>The environment and the configuration\<close>

text \<open>\<open>std::env::var\<close>: the variable is unset, not Unicode, or has a value.\<close>

datatype env_var = Unset | NotUnicode | Value string

type_synonym env = "string \<Rightarrow> env_var"

fun var_is_ok :: "env_var \<Rightarrow> bool" where
  "var_is_ok (Value v) = True"
| "var_is_ok _ = False"

definition var_is_err :: "env_var \<Rightarrow> bool" where
  "var_is_err v \<longleftrightarrow> \<not> var_is_ok v"

record cc_build =
  cc_files :: "string list"
  cc_includes :: "string list"
  cc_defines :: "(string \<times> string) list"
  cc_flags :: "string list"
  cc_warnings :: bool
  cc_library :: string

definition cc_new :: cc_build where
  "cc_new = \<lparr>cc_files = [], cc_includes = [], cc_defines = [], cc_flags = [], cc_warnings = True,
     cc_library = []\<rparr>"

text \<open>\<open>Path::join\<close>: an absolute path replaces the base.\<close>

definition path_join :: "string \<Rightarrow> string \<Rightarrow> string" where
  "path_join base rel =
     (if rel \<noteq> [] \<and> hd rel = CHR ''/'' then rel
      else if base = [] \<or> last base = CHR ''/'' then base @ rel else base @ ''/'' @ rel)"

section \<open>The script\<close>

definition lwext4_src :: string where "lwext4_src = ''vendor/lwext4/src''"
definition lwext4_inc :: string where "lwext4_inc = ''vendor/lwext4/include''"

definition core_sources :: "string list" where
  "core_sources =
     [''ext4.c'', ''ext4_balloc.c'', ''ext4_bcache.c'', ''ext4_bitmap.c'', ''ext4_block_group.c'',
      ''ext4_blockdev.c'', ''ext4_crc32.c'', ''ext4_debug.c'', ''ext4_dir.c'', ''ext4_dir_idx.c'',
      ''ext4_fs.c'', ''ext4_hash.c'', ''ext4_ialloc.c'', ''ext4_inode.c'', ''ext4_journal.c'',
      ''ext4_mkfs.c'', ''ext4_super.c'', ''ext4_trans.c'']"

definition all_sources :: "env \<Rightarrow> string list" where
  "all_sources env =
     (let sources = core_sources;
          sources = (if var_is_ok (env ''CARGO_FEATURE_GPL_EXTENTS'') then sources @ [''ext4_extent.c''] else sources);
          sources = (if var_is_ok (env ''CARGO_FEATURE_GPL_XATTR'') then sources @ [''ext4_xattr.c''] else sources)
      in sources)"

definition add_file :: "cc_build \<Rightarrow> string \<Rightarrow> cc_build" where
  "add_file b f = b\<lparr>cc_files := cc_files b @ [f]\<rparr>"

definition build_config :: "env \<Rightarrow> cc_build" where
  "build_config env =
     (let build = fold (\<lambda>src b. add_file b (path_join lwext4_src src)) (all_sources env) cc_new;
          build = add_file build ''vendor/helpers.c'';
          build = build\<lparr>cc_includes := cc_includes build @ [lwext4_inc, path_join lwext4_inc ''misc''],
            cc_defines := cc_defines build @
              [(''CONFIG_USE_DEFAULT_CFG'', ''1''), (''CONFIG_HAVE_OWN_OFLAGS'', ''1'')]\<rparr>;
          build = (if var_is_err (env ''CARGO_FEATURE_GPL_EXTENTS'')
                   then build\<lparr>cc_defines := cc_defines build @ [(''CONFIG_EXTENTS_ENABLE'', ''0'')]\<rparr> else build)
      in build\<lparr>cc_flags := [''-std=c99'', ''-Wno-unused-parameter'', ''-Wno-sign-compare''],
           cc_warnings := False, cc_library := ''lwext4''\<rparr>)"

text \<open>What the script prints for Cargo.\<close>

definition build_output :: "string list" where
  "build_output = [''cargo:rerun-if-changed=vendor/lwext4/src'', ''cargo:rerun-if-changed=vendor/lwext4/include'']"

section \<open>Facts\<close>

lemma fold_add_file:
  "fold (\<lambda>src b. add_file b (g src)) xs b = b\<lparr>cc_files := cc_files b @ map g xs\<rparr>"
  by (induction xs arbitrary: b) (simp_all add: add_file_def)

lemma add_file_sel [simp]:
  "cc_files (add_file b f) = cc_files b @ [f]" "cc_defines (add_file b f) = cc_defines b"
  "cc_includes (add_file b f) = cc_includes b"
  by (simp_all add: add_file_def)

lemma cc_files_build:
  "cc_files (build_config env) = map (path_join lwext4_src) (all_sources env) @ [''vendor/helpers.c'']"
  by (simp add: build_config_def Let_def fold_add_file cc_new_def)

lemma cc_defines_build:
  "cc_defines (build_config env) = [(''CONFIG_USE_DEFAULT_CFG'', ''1''), (''CONFIG_HAVE_OWN_OFLAGS'', ''1'')] @
     (if var_is_ok (env ''CARGO_FEATURE_GPL_EXTENTS'') then [] else [(''CONFIG_EXTENTS_ENABLE'', ''0'')])"
  by (simp add: build_config_def Let_def fold_add_file cc_new_def var_is_err_def)

lemma cc_rest_build:
  "cc_includes (build_config env) = [lwext4_inc, path_join lwext4_inc ''misc'']"
  "cc_flags (build_config env) = [''-std=c99'', ''-Wno-unused-parameter'', ''-Wno-sign-compare'']"
  "cc_warnings (build_config env) = False" "cc_library (build_config env) = ''lwext4''"
  by (simp_all add: build_config_def Let_def fold_add_file cc_new_def)

section \<open>Properties\<close>

text \<open>
  C39: the build is consistent for every set of features: each C file is compiled once; the extent
  code is compiled exactly when it is not switched off for the rest of the library, so calls to it
  never dangle at link time; each of the two GPL files is compiled exactly when its feature is
  enabled. Nothing else depends on the features: the include paths, the compiler flags asked for, the
  warning setting and the name of the library are always the same, the only definitions are the two of the
  configuration and, without the extent feature, the one that switches extents off; so the
  attribute feature decides about its C file alone, and no other environment variable matters.
\<close>

theorem build_consistent:
  "distinct (cc_files (build_config env)) \<and>
   (path_join lwext4_src ''ext4_extent.c'' \<in> set (cc_files (build_config env)) \<longleftrightarrow>
      (''CONFIG_EXTENTS_ENABLE'', ''0'') \<notin> set (cc_defines (build_config env))) \<and>
   cc_files (build_config env) = map (path_join lwext4_src) core_sources @
      (if var_is_ok (env ''CARGO_FEATURE_GPL_EXTENTS'') then [path_join lwext4_src ''ext4_extent.c''] else []) @
      (if var_is_ok (env ''CARGO_FEATURE_GPL_XATTR'') then [path_join lwext4_src ''ext4_xattr.c''] else []) @
      [''vendor/helpers.c''] \<and>
   cc_defines (build_config env) = (''CONFIG_USE_DEFAULT_CFG'', ''1'') # (''CONFIG_HAVE_OWN_OFLAGS'', ''1'') #
      (if var_is_ok (env ''CARGO_FEATURE_GPL_EXTENTS'') then [] else [(''CONFIG_EXTENTS_ENABLE'', ''0'')]) \<and>
   cc_includes (build_config env) = [''vendor/lwext4/include'', ''vendor/lwext4/include/misc''] \<and>
   cc_flags (build_config env) = [''-std=c99'', ''-Wno-unused-parameter'', ''-Wno-sign-compare''] \<and>
   \<not> cc_warnings (build_config env) \<and> cc_library (build_config env) = ''lwext4''"
  by (auto simp: cc_files_build cc_defines_build cc_rest_build all_sources_def core_sources_def path_join_def
      lwext4_src_def lwext4_inc_def Let_def)

end
