(* ===== verification/Spec2Isabelle.thy ===== *)
theory Spec2Isabelle
  imports FileProps DirProps StoreProps CPrograms LifecycleProps EndToEnd ApiProps IoAdapters FileSession
    UnitTests DeviceThreads BuildScript
begin

text \<open>
  A verification of \<^verbatim>\<open>ext4-lwext4\<close>, a Rust crate that gives safe access to ext2/3/4 images through
  the C library lwext4. All paths below are under \<^verbatim>\<open>src/\<close>.

  \<^bold>\<open>The program.\<close> A program gives a block device to \<open>Ext4Fs::mount\<close> (\<^verbatim>\<open>ext4-lwext4/src/fs.rs\<close>). The
  device is put into a \<open>BlockDeviceWrapper\<close> (\<^verbatim>\<open>blockdev/mod.rs\<close>): four boxes, namely the wrapper with
  the Rust device, a buffer, and the two structures of lwext4 that describe a device and its
  callbacks. lwext4 gets the address of one of them, registers it under a name \<^verbatim>\<open>ext4dev\<close>\<open>n\<close> and
  mounts it at \<^verbatim>\<open>/mp\<close>\<open>n\<close>\<^verbatim>\<open>/\<close>, with \<open>n\<close> from an atomic counter. From then on each operation on paths
  (\<^verbatim>\<open>fs.rs\<close>), open files (\<^verbatim>\<open>file.rs\<close>) and open directories (\<^verbatim>\<open>dir.rs\<close>) is one or a few calls of lwext4 with
  a path under the mount point, whose result codes are decoded by \<^verbatim>\<open>error.rs\<close>. lwext4 reads and
  writes blocks by calling the callbacks of \<^verbatim>\<open>blockdev/mod.rs\<close>, which follow the C structure's user
  pointer back to the wrapper and call the device: one in memory (\<^verbatim>\<open>blockdev/memory.rs\<close>) or one over
  a host file (\<^verbatim>\<open>blockdev/file.rs\<close>). \<open>umount\<close> and the destructor take all of it down again; \<open>mkfs\<close>
  (\<^verbatim>\<open>mkfs.rs\<close>) formats a device through a wrapper that lives only for that call.

  \<^bold>\<open>How the code is modelled.\<close> A computation on a state \<open>'s\<close> is a function \<open>'s \<Rightarrow> ('r \<times> 's) rust\<close>
  (the type \<open>comp\<close>), where \<open>rust\<close> is \<open>Done\<close> or \<open>Panic\<close>; a Rust \<open>Result<T, E>\<close> is the sum \<open>E + T\<close>. The
  operators \<open>seq_st\<close>, \<open>try_st\<close> and \<open>try_res\<close> stand for \<open>;\<close> and \<open>?\<close>. Integers are words of their width;
  \<open>profile\<close> chooses between builds with overflow checks (a panic) and without (wrap-around). A loop
  that ends only if lwext4 lets it is a partial function with values in \<open>option\<close>: \<open>None\<close> is
  non-termination, and the properties prove \<open>Some\<close>. Following a broken pointer in a callback is also
  \<open>None\<close>. lwext4 is a record \<open>'w lwext4\<close> of functions on an unknown state \<open>'w\<close>, one for each
  declaration of \<^verbatim>\<open>ext4-lwext4-sys/src/lib.rs\<close> that the crate calls. Each call is also appended to a log
  in the process state, which the code does not have and which no definition reads; properties
  use it to say which calls are made, in which order.

  \<^bold>\<open>Theories, bottom up.\<close>
  \<^item> \<open>Prelude\<close>: integers, panics, sequencing, slices and copies. \<open>RustStr\<close>: UTF-8 validation and
    lossy conversion, \<open>CString::new\<close>, \<open>strip_prefix\<close>, decimal formatting.
  \<^item> \<open>Errors\<close> (\<^verbatim>\<open>error.rs\<close>): the error type, \<open>From<i32>\<close>, the two checkers. \<open>FsTypes\<close> (\<^verbatim>\<open>types.rs\<close>): enums,
    flags, metadata and statistics; the locale \<open>raw_enum\<close> states the round trip of a coded enum.
  \<^item> \<open>BlockDev\<close> (\<^verbatim>\<open>blockdev/traits.rs\<close>, and the part of the callbacks below the pointers): a device as a
    record of its methods; the locales \<open>block_device_laws\<close> (each call works or fails with a nonzero
    code, and only its own blocks change) and \<open>reliable_block_device\<close> (it works), with what a run of
    calls then means on a flat array of bytes (\<open>disk_run\<close>).
  \<^item> \<open>MemoryDev\<close> (\<^verbatim>\<open>blockdev/memory.rs\<close>), \<open>HostFile\<close> (\<^verbatim>\<open>std::fs::File\<close> under an arbitrary schedule of
    failures and short transfers) and \<open>FileDev\<close> (\<^verbatim>\<open>blockdev/file.rs\<close>) with interpretations of these
    locales.
  \<^item> \<open>Mutex\<close> and \<open>DeviceThreads\<close>: threads that share a value behind a lock, as a step relation;
    interpretation on the methods of the file-backed device cut into their system calls.
  \<^item> \<open>Sys\<close> (\<^verbatim>\<open>ext4-lwext4-sys/src/lib.rs\<close>): C structures, their defaults, the record of functions and the
    log. \<open>Wrapper\<close> (\<^verbatim>\<open>blockdev/mod.rs\<close>): a heap of boxes with addresses, construction, the callbacks.
    \<open>EndToEnd\<close> composes the callbacks with the devices.
  \<^item> \<open>FsCore\<close> and \<open>FsOps\<close> (\<^verbatim>\<open>fs.rs\<close>), \<open>FileOps\<close> (\<^verbatim>\<open>file.rs\<close>), \<open>DirOps\<close> (\<^verbatim>\<open>dir.rs\<close>), \<open>Mkfs\<close> (\<^verbatim>\<open>mkfs.rs\<close>): one
    definition per method. The locales \<open>fresh_names\<close> and \<open>path_roots\<close> say what the names made from
    the counter have to satisfy. \<open>BuildScript\<close> (\<^verbatim>\<open>ext4-lwext4-sys/build.rs\<close>).
  \<^item> \<open>Lifecycle\<close>, \<open>Handles\<close>, \<open>System\<close>, \<open>DemoLib\<close>, \<open>SystemProps\<close>, \<open>LifecycleProps\<close>: the contract
    \<open>lib_contract\<close> of lwext4's tables, what every operation does to them, processes as a step relation
    (\<open>sys_step\<close>: mount, unmount, drop, format, open, use and close files and directories, query), its
    invariants, and a concrete library that keeps the contract.
  \<^item> \<open>CPrograms\<close>: lwext4 between two returns as an arbitrary program over the callbacks.
  \<^item> \<open>FsTree\<close>, \<open>DemoTree\<close>, \<open>FsTreeProps\<close>: directory trees with hard links, the contract of the path
    functions on them, the refinement of sequences of operations on any number of mounts, and a
    library with a tree that keeps the contract.
  \<^item> \<open>Store\<close>, \<open>StoreRefines\<close>, \<open>DemoStore\<close>, \<open>StoreProps\<close>: path operations and open files together. The abstract store
    has one tree for each mount, whose inodes carry the bytes of the files, and a list of handles; a
    handle keeps its inode whatever happens to the names. \<open>DemoStore\<close> is a library with files in its
    tree.
  \<^item> \<open>FsOpsProps\<close>, \<open>FileProps\<close>, \<open>FileSession\<close>, \<open>DirProps\<close>, \<open>ApiProps\<close>, \<open>IoAdapters\<close>, \<open>UnitTests\<close>: the
    properties of the operations.

  \<^bold>\<open>What the theorems show.\<close>
  \<^item> Memory safety of the boundary (\<open>SystemProps\<close>, \<open>CPrograms\<close>, \<open>LifecycleProps\<close>, \<open>Wrapper\<close>): in every
    reachable state of a process, what lwext4 has registered or mounted leads back to the wrapper of
    a live handle, and any program lwext4 runs over the callbacks of mounted devices is safe and
    keeps the wiring, which is what \<open>lib_contract\<close> asks of the heap; nothing is leaked; open files and directories belong to a mounted file system; a
    process can always wind down if unmounting never leaves an entry behind; a failed mount undoes
    everything, a successful one uses names that are free; and the one way this breaks, a failing
    \<open>ext4_umount\<close>.
  \<^item> Devices are disks (\<open>MemoryDev\<close>, \<open>FileDev\<close>, \<open>EndToEnd\<close>): refinement of a flat array of bytes, also
    through the C structure, with torn writes and failures, isolation of several devices,
    equivalence of the two implementations, and the boundary cases of their bounds checks.
  \<^item> Threads (\<open>DeviceThreads\<close>): the methods of a shared device are linearizable, readers get exact
    data, and the steps the threads take are bounded by their operations, the bytes of their buffers
    and the calls the host interrupts.
  \<^item> Files (\<open>FileProps\<close>, \<open>FileSession\<close>, \<open>IoAdapters\<close>): the loops end and are all-or-report, writing and
    reading back, sequences of calls refine an abstract file with a position, in append mode too,
    which never overwrites, the \<^verbatim>\<open>std::io\<close> adapters agree with the crate's own methods.
  \<^item> Trees (\<open>FsTreeProps\<close>): mounts are independent trees, and what was set, linked, renamed or
    removed is what later queries tell.
  \<^item> The whole interface (\<open>StoreProps\<close>): any sequence of calls refines the store, up to the first use
    of a handle whose file was removed, and a file that was written is found, with its bytes, after
    it was closed and renamed.
  \<^item> Operations (\<open>FsOpsProps\<close>, \<open>DirProps\<close>, \<open>ApiProps\<close>, \<open>Errors\<close>): exactly which calls are made with
    which paths, none of them on read-only mounts or for paths with a NUL; decoding of metadata,
    directory entries and codes; no panic and no invalid string whatever lwext4 answers.

  \<^bold>\<open>What is assumed.\<close> A 64-bit Linux target with its \<^verbatim>\<open>libc\<close> codes; memory allocation does not fail,
  except that a vector larger than \<open>isize::MAX\<close> panics; no other process changes a host file; fewer
  than \<open>2 ^ 64\<close> mounts, so that the counter does not wrap. lwext4 keeps no pointer to the buffers and
  strings it is given, other than the device structure. The borrow checker is the guard \<open>unborrowed\<close>
  of the step relation: a mount is consumed only when nothing opened on it is alive. Documented
  behaviour of lwext4 is a named hypothesis of each property that needs it, and each is met by a
  concrete library in the witness: \<open>lib_contract\<close> and \<open>umount_reliable\<close> (device and mount tables),
  \<open>read_contract\<close>, \<open>fwrite_contract\<close>, \<open>session_contract\<close> and \<open>writes_bounded\<close> (files), \<open>dir_contract\<close>
  (directories), \<open>tree_contract\<close> (paths: it speaks of canonical paths below a root only, lets a failed call
  leave anything at its own paths, and lets creation make missing parents; link counts, times and free
  space are not part of a tree), and \<open>store_contract\<close> (both together: an open handle reads and writes
  the bytes of the inode in its field and of no other, as long as that inode has a name, and nothing is
  mounted or unmounted meanwhile). What is left open in them is what the documentation leaves open: short transfers,
  the error codes, where a seek from the end goes, whether a truncation extends a file. No fuel is used anywhere.
  A host schedule is a finite list after which calls work, so a host that interrupts a call for ever
  is not in the model: \<open>read_exact\<close> and \<open>write_all\<close>, which repeat an interrupted call, always return
  in it. Termination measures count the events and bytes that are left, and the property about
  threads says what each interruption costs. A UUID is a list of bytes, 16 of them in the source.

  \<^bold>\<open>Not modelled.\<close> lwext4 itself (a git submodule that is not in the repository) and the
  declarations of it that the crate never calls; the \<open>Debug\<close> and \<open>Clone\<close> derivations; the
  crate root \<^verbatim>\<open>lib.rs\<close>, which only re-exports; running the C compiler from the build script. Threads are
  modelled for the file-backed device alone: the callbacks that lwext4 would use as locks are
  no-ops, so concurrent operations on one mounted file system have no defined behaviour to model.
\<close>

end
